(* ===== verification/Prelude.thy ===== *)
theory Prelude
  imports Main
begin

text \<open>
  Shared vocabulary of the development: the Python built-ins that
  \<^verbatim>\<open>src/vcf2tsv/cli.py\<close> applies to strings and lists, written as HOL functions with
  Python's semantics.  \<open>str.split\<close> with a one-character separator, \<open>str.join\<close>,
  \<open>str.strip\<close>, \<open>str.replace\<close>, \<open>str.startswith\<close>, slicing with negative bounds,
  indexing that raises \<open>IndexError\<close> and \<open>list.index\<close> that raises
  \<open>ValueError\<close>.  Strings are \<open>char list\<close>; every delimiter the program uses is
  ASCII, and UTF-8 never places an ASCII byte inside a multi-byte character, so
  working on the bytes of the decoded text gives the same splits and joins as
  Python's code points.  The lemmas are the facts about these built-ins that the
  component theories share; the collection \<open>py_simps\<close> gathers the evaluation rules.
\<close>

named_theorems py_simps "evaluation rules of the Python built-ins"

abbreviation TAB :: char where "TAB \<equiv> CHR 0x09"
abbreviation NL :: char where "NL \<equiv> CHR 0x0A"
abbreviation QUOTE :: char where "QUOTE \<equiv> CHR 0x22"

type_synonym row = "string list"

datatype py_error = IndexError | ValueError | UnicodeDecodeError

subsection \<open>\<open>str.split(sep)\<close> and \<open>sep.join(xs)\<close>\<close>

fun py_split :: "char \<Rightarrow> string \<Rightarrow> string list" where
  "py_split sep [] = [[]]"
| "py_split sep (c # cs) =
     (let r = py_split sep cs in if c = sep then [] # r else (c # hd r) # tl r)"

fun py_join :: "string \<Rightarrow> string list \<Rightarrow> string" where
  "py_join sep [] = []"
| "py_join sep [x] = x"
| "py_join sep (x # y # xs) = x @ sep @ py_join sep (y # xs)"

subsection \<open>\<open>str.strip(chars)\<close>, \<open>str.replace\<close>, \<open>str.startswith\<close>\<close>

definition py_strip :: "char list \<Rightarrow> string \<Rightarrow> string" where
  "py_strip cs s = rev (dropWhile (\<lambda>c. c \<in> set cs) (rev (dropWhile (\<lambda>c. c \<in> set cs) s)))"

definition py_startswith :: "string \<Rightarrow> string \<Rightarrow> bool" where
  "py_startswith s p \<longleftrightarrow> take (length p) s = p"

text \<open>
  \<open>s.replace(old, new)\<close>: occurrences of \<open>old\<close> are replaced left to right without
  overlap; an empty \<open>old\<close> inserts \<open>new\<close> before every character and at the end.
\<close>

function py_replace :: "string \<Rightarrow> string \<Rightarrow> string \<Rightarrow> string" where
  "py_replace old new [] = (if old = [] then new else [])"
| "py_replace old new (c # cs) =
     (if old = [] then new @ c # py_replace old new cs
      else if take (length old) (c # cs) = old
      then new @ py_replace old new (drop (length old) (c # cs))
      else c # py_replace old new cs)"
  by pat_completeness auto
termination
  by (relation "measure (\<lambda>(old, new, s). length s)") auto

subsection \<open>Slicing and indexing\<close>

text \<open>
  A slice bound \<open>i\<close> of a sequence of length \<open>n\<close> is normalised as CPython does:
  a negative bound counts from the end and both are clamped to \<open>[0, n]\<close>.  In
  particular \<open>xs[:-0]\<close> is \<open>xs[:0]\<close>, the empty list.
\<close>

definition py_bound :: "int \<Rightarrow> nat \<Rightarrow> nat" where
  "py_bound i n = nat (if i < 0 then max 0 (int n + i) else min i (int n))"

definition py_upto :: "'a list \<Rightarrow> int \<Rightarrow> 'a list" where
  "py_upto xs i = take (py_bound i (length xs)) xs"

definition py_from :: "'a list \<Rightarrow> int \<Rightarrow> 'a list" where
  "py_from xs i = drop (py_bound i (length xs)) xs"

definition py_nth :: "'a list \<Rightarrow> int \<Rightarrow> py_error + 'a" where
  "py_nth xs i =
     (if - int (length xs) \<le> i \<and> i < int (length xs)
      then Inr (xs ! nat (if 0 \<le> i then i else i + int (length xs)))
      else Inl IndexError)"

primrec py_index :: "'a list \<Rightarrow> 'a \<Rightarrow> py_error + nat" where
  "py_index [] x = Inl ValueError"
| "py_index (y # ys) x = (if y = x then Inr 0 else map_sum id Suc (py_index ys x))"

subsection \<open>Facts about split and join\<close>

lemma py_split_not_Nil [simp]: "py_split sep s \<noteq> []"
  by (induction s) (auto simp: Let_def)

lemma py_split_length [simp]:
  "length (py_split sep s) = Suc (count_list s sep)"
  by (induction s) (auto simp: Let_def)

lemma py_split_no_sep [py_simps]:
  "sep \<notin> set s \<Longrightarrow> py_split sep s = [s]"
  by (induction s) (auto simp: Let_def)

lemma py_split_append_sep [py_simps]:
  "sep \<notin> set x \<Longrightarrow> py_split sep (x @ sep # s) = x # py_split sep s"
  by (induction x) (auto simp: Let_def)

lemma py_split_parts_no_sep:
  "w \<in> set (py_split sep s) \<Longrightarrow> sep \<notin> set w"
proof (induction s arbitrary: w)
  case Nil
  then show ?case by simp
next
  case (Cons c cs)
  obtain r where r: "py_split sep cs = r" by simp
  with py_split_not_Nil[of sep cs] obtain h t where "r = h # t" by (cases r) auto
  with Cons r show ?case by (auto simp: Let_def split: if_splits)
qed

lemma py_split_parts_subset: "w \<in> set (py_split sep s) \<Longrightarrow> set w \<subseteq> set s"
proof (induction s arbitrary: w)
  case (Cons c cs)
  obtain a r where r: "py_split sep cs = a # r"
    by (cases "py_split sep cs") simp_all
  with Cons.IH have "set a \<subseteq> set cs" "\<forall>w' \<in> set r. set w' \<subseteq> set cs" by auto
  with Cons.prems r show ?case by (auto simp: Let_def split: if_splits)
qed simp

lemma py_join_Cons [py_simps]:
  "py_join sep (x # xs) = (if xs = [] then x else x @ sep @ py_join sep xs)"
  by (cases xs) auto

lemma py_join_split [simp]: "py_join [sep] (py_split sep s) = s"
proof (induction s)
  case Nil
  then show ?case by simp
next
  case (Cons c cs)
  obtain h t where ht: "py_split sep cs = h # t"
    using py_split_not_Nil[of sep cs] by (cases "py_split sep cs") auto
  with Cons show ?case by (auto simp: Let_def py_join_Cons)
qed

lemma py_split_join [simp]:
  "xs \<noteq> [] \<Longrightarrow> \<forall>x \<in> set xs. sep \<notin> set x \<Longrightarrow> py_split sep (py_join [sep] xs) = xs"
proof (induction xs)
  case Nil
  then show ?case by simp
next
  case (Cons x xs)
  then show ?case
    by (cases "xs = []") (auto simp: py_join_Cons py_split_no_sep py_split_append_sep)
qed

lemma py_join_length:
  "xs \<noteq> [] \<Longrightarrow> length (py_join sep xs) = sum_list (map length xs) + length sep * (length xs - 1)"
  by (induction sep xs rule: py_join.induct) auto

lemma py_join_append [py_simps]:
  "xs \<noteq> [] \<Longrightarrow> ys \<noteq> [] \<Longrightarrow> py_join sep (xs @ ys) = py_join sep xs @ sep @ py_join sep ys"
  by (induction sep xs rule: py_join.induct) (auto simp: py_join_Cons)

subsection \<open>Facts about strip, replace and slices\<close>

lemma py_strip_idem [simp]: "py_strip cs (py_strip cs s) = py_strip cs s"
proof -
  let ?P = "\<lambda>c. c \<in> set cs"
  define A where "A = dropWhile ?P s"
  define B where "B = dropWhile ?P (rev A)"
  have hA: "A = [] \<or> \<not> ?P (hd A)"
    unfolding A_def by (metis hd_dropWhile)
  have hB: "dropWhile ?P B = B"
    unfolding B_def dropWhile_eq_self_iff by (metis hd_dropWhile)
  have "dropWhile ?P (rev B) = rev B"
  proof (cases "B = []")
    case False
    have "rev A = takeWhile ?P (rev A) @ B"
      unfolding B_def by simp
    with False have "last B = last (rev A)" and "A \<noteq> []"
      by (metis last_appendR, metis Nil_is_append_conv Nil_is_rev_conv)
    then have "hd (rev B) = hd A"
      using False by (simp add: hd_rev last_rev)
    with hA \<open>A \<noteq> []\<close> show ?thesis
      by (simp add: dropWhile_eq_self_iff)
  qed simp
  then have "py_strip cs (rev B) = rev B"
    by (simp add: py_strip_def hB)
  moreover have "py_strip cs s = rev B"
    by (simp add: py_strip_def A_def B_def)
  ultimately show ?thesis by simp
qed

lemma py_strip_no_strip_chars [py_simps]:
  assumes "s = [] \<or> hd s \<notin> set cs \<and> last s \<notin> set cs"
  shows "py_strip cs s = s"
proof (cases "s = []")
  case False
  with assms have "dropWhile (\<lambda>c. c \<in> set cs) s = s"
    and "dropWhile (\<lambda>c. c \<in> set cs) (rev s) = rev s"
    by (auto simp: dropWhile_eq_self_iff hd_rev)
  then show ?thesis by (simp add: py_strip_def)
qed (simp add: py_strip_def)

lemma py_replace_absent [py_simps]:
  "old \<noteq> [] \<Longrightarrow> hd old \<notin> set s \<Longrightarrow> py_replace old new s = s"
proof (induction s)
  case (Cons c cs)
  then have "take (length old) (c # cs) \<noteq> old"
    by (cases old) auto
  with Cons show ?case by simp
qed simp

lemma py_bound_nonneg [py_simps]: "0 \<le> i \<Longrightarrow> py_bound i n = min (nat i) n"
  by (auto simp: py_bound_def)

lemma py_bound_neg_nat [py_simps]: "py_bound (- int m) n = (if m = 0 then 0 else n - m)"
  by (cases "m \<le> n") (auto simp: py_bound_def max_def)

lemma py_upto_nat [py_simps]: "py_upto xs (int k) = take k xs"
  by (simp add: py_upto_def py_bound_def min_def)

lemma py_from_nat [py_simps]: "py_from xs (int k) = drop k xs"
  by (simp add: py_from_def py_bound_def min_def)

lemma py_nth_nat [py_simps]:
  "py_nth xs (int k) = (if k < length xs then Inr (xs ! k) else Inl IndexError)"
  by (simp add: py_nth_def)

lemma py_index_Inr:
  "x \<in> set xs \<Longrightarrow> \<exists>k. py_index xs x = Inr k \<and> k < length xs \<and> xs ! k = x \<and> x \<notin> set (take k xs)"
proof (induction xs)
  case Nil
  then show ?case by simp
next
  case (Cons y ys)
  show ?case
  proof (cases "y = x")
    case True
    then show ?thesis by simp
  next
    case False
    with Cons obtain k where "py_index ys x = Inr k" "k < length ys" "ys ! k = x"
      "x \<notin> set (take k ys)" by auto
    with False show ?thesis by auto
  qed
qed

lemma py_index_Inl: "x \<notin> set xs \<Longrightarrow> py_index xs x = Inl ValueError"
  by (induction xs) auto

lemma map_sum_Suc_Inr: "map_sum id Suc r = Inr j \<longleftrightarrow> (\<exists>n. j = Suc n \<and> r = Inr n)"
  by (cases r) auto

lemma py_index_eq_Inr:
  "py_index xs x = Inr j \<longleftrightarrow> j < length xs \<and> xs ! j = x \<and> x \<notin> set (take j xs)"
proof (induction xs arbitrary: j)
  case (Cons y ys)
  show ?case
  proof (cases "y = x")
    case True
    then show ?thesis by (cases j) auto
  next
    case False
    show ?thesis
    proof (cases j)
      case (Suc n)
      with False Cons.IH[of n] show ?thesis by (simp add: map_sum_Suc_Inr)
    qed (simp add: False map_sum_Suc_Inr)
  qed
qed simp

subsection \<open>Occurrences, and replace and strip on joined rows\<close>

fun occurs :: "string \<Rightarrow> string \<Rightarrow> bool" where
  "occurs w [] = (w = [])"
| "occurs w (c # cs) = (take (length w) (c # cs) = w \<or> occurs w cs)"

lemma py_replace_no_occurs [py_simps]:
  "old \<noteq> [] \<Longrightarrow> \<not> occurs old s \<Longrightarrow> py_replace old new s = s"
  by (induction s) auto

lemma take_append_sep:
  assumes "c \<notin> set old" and "take (length old) (x @ c # y) = old"
  shows "take (length old) x = old"
proof (cases "length old \<le> length x")
  case True
  with assms(2) show ?thesis by simp
next
  case False
  then have "x @ [c] = take (Suc (length x)) (take (length old) (x @ c # y))"
    by (simp add: take_append min_def)
  with assms(2) have "c \<in> set old"
    by (metis in_set_takeD last_in_set last_snoc snoc_eq_iff_butlast)
  with assms(1) show ?thesis by simp
qed

lemma py_replace_sep:
  assumes "old \<noteq> []" and "c \<notin> set old"
  shows "py_replace old new (x @ c # y) = py_replace old new x @ c # py_replace old new y"
proof (induction "length x" arbitrary: x rule: less_induct)
  case less
  show ?case
  proof (cases x)
    case Nil
    from assms have "take (length old) (c # y) \<noteq> old"
      by (cases old) auto
    with Nil assms(1) show ?thesis by simp
  next
    case (Cons a x')
    show ?thesis
    proof (cases "take (length old) (x @ c # y) = old")
      case True
      have t: "take (length old) x = old"
        by (rule take_append_sep[OF assms(2) True])
      then have "length old \<le> length x" by (metis length_take min.absorb_iff2 min.commute)
      then have d: "drop (length old) (x @ c # y) = drop (length old) x @ c # y" by simp
      have "length (drop (length old) x) < length x"
        using assms(1) \<open>length old \<le> length x\<close> by (cases old) (auto simp: Cons)
      with less d True t Cons assms(1) show ?thesis by simp
    next
      case False
      then have "take (length old) x \<noteq> old"
        by (metis \<open>x = a # x'\<close> append_take_drop_id take_append take_all_iff
            diff_is_0_eq take0 append_Nil2 le_cases)
      with False less Cons assms(1) show ?thesis by simp
    qed
  qed
qed

lemma py_replace_join:
  "old \<noteq> [] \<Longrightarrow> c \<notin> set old \<Longrightarrow>
   py_replace old new (py_join [c] xs) = py_join [c] (map (py_replace old new) xs)"
  by (induction "[c]" xs rule: py_join.induct) (simp_all add: py_replace_sep)

lemma py_strip_snoc [py_simps]:
  assumes "set x \<inter> set cs = {}" and "c \<in> set cs"
  shows "py_strip cs (x @ [c]) = x"
proof (cases "x = []")
  case True
  with assms(2) show ?thesis by (simp add: py_strip_def)
next
  case False
  with assms(1) have "dropWhile (\<lambda>a. a \<in> set cs) (x @ [c]) = x @ [c]"
    by (cases x) auto
  moreover from False assms(1) have "dropWhile (\<lambda>a. a \<in> set cs) (rev x) = rev x"
    by (cases x rule: rev_cases) auto
  ultimately show ?thesis using assms(2) by (simp add: py_strip_def)
qed

lemma py_strip_free [py_simps]: "set x \<inter> set cs = {} \<Longrightarrow> py_strip cs x = x"
proof (rule py_strip_no_strip_chars)
  assume a: "set x \<inter> set cs = {}"
  show "x = [] \<or> hd x \<notin> set cs \<and> last x \<notin> set cs"
  proof (cases "x = []")
    case False
    then have "hd x \<in> set x" "last x \<in> set x" by simp_all
    with a show ?thesis by blast
  qed simp
qed

subsection \<open>Separator counts under replace and strip\<close>

lemma set_py_replace: "set (py_replace old new s) \<subseteq> set s \<union> set new"
proof (induction old new s rule: py_replace.induct)
  case (2 old new c cs)
  have "set (drop (length old) (c # cs)) \<subseteq> set (c # cs)" by (rule set_drop_subset)
  with 2 show ?case by auto
qed auto

lemma count_list_join_free:
  "xs \<noteq> [] \<Longrightarrow> \<forall>x \<in> set xs. c \<notin> set x \<Longrightarrow> count_list (py_join [c] xs) c = length xs - 1"
  using py_split_join[of xs c] py_split_length[of c "py_join [c] xs"] by simp

lemma count_py_replace:
  assumes "old \<noteq> []" "c \<notin> set old" "c \<notin> set new"
  shows "count_list (py_replace old new s) c = count_list s c"
proof -
  let ?xs = "py_split c s"
  have "py_replace old new s = py_join [c] (map (py_replace old new) ?xs)"
    using py_replace_join[OF assms(1,2), where xs = ?xs and new = new] by simp
  moreover have "\<forall>x \<in> set (map (py_replace old new) ?xs). c \<notin> set x"
    using set_py_replace py_split_parts_no_sep assms(3) by fastforce
  ultimately show ?thesis using count_list_join_free[of "map (py_replace old new) ?xs" c] by simp
qed

lemma count_list_rev [simp]: "count_list (rev xs) c = count_list xs c"
  by (induction xs) auto

lemma count_dropWhile: "\<not> P c \<Longrightarrow> count_list (dropWhile P s) c = count_list s c"
  by (induction s) auto

lemma count_py_strip: "c \<notin> set cs \<Longrightarrow> count_list (py_strip cs s) c = count_list s c"
  by (simp add: py_strip_def count_dropWhile)

subsection \<open>Occurrences, windows and unique filters\<close>

lemma occurs_iff: "occurs w x \<longleftrightarrow> (\<exists>j \<le> length x. take (length w) (drop j x) = w)"
proof (induction x)
  case (Cons c cs)
  have "(\<exists>j \<le> length (c # cs). take (length w) (drop j (c # cs)) = w) \<longleftrightarrow>
        take (length w) (c # cs) = w \<or> (\<exists>j \<le> length cs. take (length w) (drop j cs) = w)"
    (is "?L \<longleftrightarrow> ?R")
  proof
    assume ?L
    then obtain j where "j \<le> length (c # cs)" "take (length w) (drop j (c # cs)) = w" by blast
    then show ?R by (cases j) auto
  next
    assume ?R
    then show ?L by (auto intro: exI[of _ 0] exI[of _ "Suc _"])
  qed
  with Cons.IH show ?case by simp
qed auto

lemma occurs_append_nohd: "w \<noteq> [] \<Longrightarrow> hd w \<notin> set x \<Longrightarrow> occurs w (x @ y) = occurs w y"
  by (induction x) (auto simp: take_Cons' split: if_splits, (cases w; simp)+)

lemma not_occurs_nohd: "w \<noteq> [] \<Longrightarrow> hd w \<notin> set x \<Longrightarrow> \<not> occurs w x"
  using occurs_append_nohd[of w x "[]"] by (cases w) auto

lemma startswith_line:
  assumes "\<not> py_startswith s w" "NL \<notin> set w"
  shows "\<not> py_startswith (s @ NL # r) w"
proof
  assume a: "py_startswith (s @ NL # r) w"
  show False
  proof (cases "length w \<le> length s")
    case True
    with a assms(1) show False by (simp add: py_startswith_def)
  next
    case False
    then have "NL \<in> set (take (length w) (s @ NL # r))"
      by (simp add: take_Cons')
    with a assms(2) show False by (simp add: py_startswith_def)
  qed
qed

lemma takeWhile_line: "NL \<notin> set X \<Longrightarrow> takeWhile (\<lambda>x. x \<noteq> NL) (X @ NL # v) = X"
  by (induction X) auto

lemma window_sep:
  assumes "j \<le> length X" "c \<notin> set w" "take (length w) (drop j (X @ c # v)) = w"
  shows "take (length w) (drop j X) = w"
proof (cases "length w \<le> length X - j")
  case True
  with assms(1,3) show ?thesis by simp
next
  case False
  then obtain k where k: "length w - length (drop j X) = Suc k" by (cases "length w - length (drop j X)") auto
  have "take (length w) (drop j (X @ c # v)) = take (length w) (drop j X) @ c # take k v"
    using assms(1) k by (simp add: take_append)
  with assms(2,3) show ?thesis by (metis in_set_conv_decomp)
qed

lemma occurs_sep:
  assumes "c \<notin> set w"
  shows "occurs w (x @ c # y) \<longleftrightarrow> occurs w x \<or> occurs w y"
proof
  assume "occurs w (x @ c # y)"
  then obtain j where j: "j \<le> length (x @ c # y)" "take (length w) (drop j (x @ c # y)) = w"
    by (auto simp: occurs_iff)
  show "occurs w x \<or> occurs w y"
  proof (cases "j \<le> length x")
    case True
    have "take (length w) (drop j x) = w" using window_sep[OF True assms j(2)] .
    with True show ?thesis by (auto simp: occurs_iff)
  next
    case False
    then obtain i where i: "j = Suc (length x) + i" by (metis add_Suc less_imp_Suc_add not_le)
    with j have "take (length w) (drop i y) = w" "i \<le> length y" by simp_all
    then show ?thesis by (auto simp: occurs_iff)
  qed
next
  assume "occurs w x \<or> occurs w y"
  then show "occurs w (x @ c # y)"
  proof
    assume "occurs w x"
    then obtain j where "j \<le> length x" "take (length w) (drop j x) = w" by (auto simp: occurs_iff)
    then show ?thesis
      unfolding occurs_iff
      by (intro exI[of _ j]) (auto simp: take_append dest: arg_cong[of _ _ length])
  next
    assume "occurs w y"
    then obtain j where "j \<le> length y" "take (length w) (drop j y) = w" by (auto simp: occurs_iff)
    then show ?thesis unfolding occurs_iff by (intro exI[of _ "Suc (length x) + j"]) simp
  qed
qed
lemma filter_unique:
  "distinct L \<Longrightarrow> x \<in> set L \<Longrightarrow> Q x \<Longrightarrow> \<forall>y \<in> set L. y \<noteq> x \<longrightarrow> \<not> Q y \<Longrightarrow> filter Q L = [x]"
proof (induction L)
  case (Cons y L)
  show ?case
  proof (cases "y = x")
    case True
    with Cons.prems(1,4) have "\<forall>z \<in> set L. \<not> Q z" by auto
    with True Cons.prems(3) show ?thesis by (simp add: filter_empty_conv)
  next
    case False
    with Cons.prems(4) have "\<not> Q y" by simp
    moreover from False Cons.prems have "filter Q L = [x]" by (intro Cons.IH) auto
    ultimately show ?thesis by simp
  qed
qed simp

lemma filter_concat_map:
  "filter Q (concat (map f L)) = concat (map (\<lambda>x. filter Q (f x)) L)"
  by (induction L) auto

subsection \<open>Parts of a split are infixes\<close>

lemma py_split_hd_prefix: "\<exists>v. s = hd (py_split sep s) @ v"
  by (induction s) (auto simp: Let_def)

lemma py_split_infix: "w \<in> set (py_split sep s) \<Longrightarrow> \<exists>u v. s = u @ w @ v"
proof (induction s arbitrary: w)
  case (Cons c cs)
  obtain a r where r: "py_split sep cs = a # r" by (cases "py_split sep cs") simp_all
  show ?case
  proof (cases "c = sep")
    case True
    with Cons.prems r have "w = [] \<or> w \<in> set (py_split sep cs)" by auto
    then show ?thesis
    proof
      assume "w \<in> set (py_split sep cs)"
      with Cons.IH obtain u v where "cs = u @ w @ v" by blast
      then show ?thesis by (intro exI[of _ "c # u"] exI[of _ v]) simp
    qed (intro exI[of _ "[]"] exI[of _ "c # cs"], simp)
  next
    case False
    with Cons.prems r have "w = c # a \<or> w \<in> set r" by auto
    then show ?thesis
    proof
      assume "w = c # a"
      obtain v' where "cs = hd (py_split sep cs) @ v'" using py_split_hd_prefix by blast
      then have "cs = a @ v'" using r by simp
      with \<open>w = c # a\<close> show ?thesis by (intro exI[of _ "[]"] exI[of _ v']) simp
    next
      assume "w \<in> set r"
      with r Cons.IH[of w] obtain u v where "cs = u @ w @ v" by auto
      then show ?thesis by (intro exI[of _ "c # u"] exI[of _ v]) simp
    qed
  qed
qed simp

lemma occurs_infix: "occurs x w \<Longrightarrow> occurs x (u @ w @ v)"
proof -
  assume "occurs x w"
  then obtain j where "j \<le> length w" "take (length x) (drop j w) = x" by (auto simp: occurs_iff)
  moreover from this(2) have "length (take (length x) (drop j w)) = length x" by simp
  then have "length x \<le> length w - j" by (simp add: min_def split: if_splits)
  ultimately have "length u + j \<le> length (u @ w @ v)" "take (length x) (drop (length u + j) (u @ w @ v)) = x"
    by (simp_all add: take_append)
  then show "occurs x (u @ w @ v)" unfolding occurs_iff by blast
qed

lemma set_py_join: "set (py_join sep xs) \<subseteq> set sep \<union> \<Union> (set ` set xs)"
  by (induction sep xs rule: py_join.induct) auto

end
