(* ===== verification/Regex.thy ===== *)
theory Regex
  imports Prelude
begin

text \<open>
  The part of Python's \<^verbatim>\<open>re\<close> module the program relies on: the two header
  patterns \<open>RE_INFO\<close> and \<open>RE_FORMAT\<close> (\<^verbatim>\<open>cli.py\<close> lines 34--52) are read with
  \<open>finditer\<close> (line 97--98), and the column header is cleaned with
  \<open>re.sub(r"\[[0-9]+\]", "", line)\<close> (lines 140 and 144).  A pattern is a value of
  \<open>rx\<close>; \<open>ms r c s\<close> is the list of every way \<open>r\<close> can match a prefix of \<open>s\<close>,
  in the order Python's backtracking engine tries them (greedy repetition tries
  the longest run first, an alternation its left branch first), each with the
  captured groups and the unconsumed rest.  The match Python reports is the head
  of that list.  Repetition stops when an iteration consumes nothing, as the
  engine's zero-width guard does.  A pattern that opens with \<open>^\<close> under
  \<open>re.MULTILINE\<close> is run by \<open>re_finditer True\<close>, which tries it only at the start of
  the string and after a newline.
\<close>

type_synonym caps = "string \<rightharpoonup> string"

datatype rx =
    Eps
  | Chr "char \<Rightarrow> bool"
  | Lit string
  | Seq rx rx
  | Alt rx rx
  | Star rx
  | Grp string rx

fun ms :: "rx \<Rightarrow> caps \<Rightarrow> string \<Rightarrow> (caps \<times> string) list" where
  "ms Eps c s = [(c, s)]"
| "ms (Chr P) c s = (case s of [] \<Rightarrow> [] | x # xs \<Rightarrow> if P x then [(c, xs)] else [])"
| "ms (Lit w) c s = (if take (length w) s = w then [(c, drop (length w) s)] else [])"
| "ms (Seq r1 r2) c s = concat (map (\<lambda>(c', s'). ms r2 c' s') (ms r1 c s))"
| "ms (Alt r1 r2) c s = ms r1 c s @ ms r2 c s"
| "ms (Star r) c s =
     concat (map (\<lambda>(c', s'). if length s' < length s then ms (Star r) c' s' else []) (ms r c s))
     @ [(c, s)]"
| "ms (Grp n r) c s = map (\<lambda>(c', s'). (c'(n \<mapsto> take (length s - length s') s), s')) (ms r c s)"

text \<open>
  The equation for \<open>Star\<close> calls \<open>ms (Star r)\<close> again at any rest, so it is no
  simplification rule; proofs unfold it at fixed arguments.
\<close>

declare ms.simps(6) [simp del]

text \<open>The pattern syntax of the source, as abbreviations of the constructors.\<close>

definition any_char :: rx where "any_char = Chr (\<lambda>x. x \<noteq> NL)"
definition not_in :: "char list \<Rightarrow> rx" where "not_in cs = Chr (\<lambda>x. x \<notin> set cs)"
definition one_of :: "char list \<Rightarrow> rx" where "one_of cs = Chr (\<lambda>x. x \<in> set cs)"
definition is_digit :: "char \<Rightarrow> bool" where "is_digit x \<longleftrightarrow> x \<in> set ''0123456789''"
definition digit :: rx where "digit = one_of ''0123456789''"
definition plus :: "rx \<Rightarrow> rx" where "plus r = Seq r (Star r)"
definition opt :: "rx \<Rightarrow> rx" where "opt r = Alt r Eps"

fun seqs :: "rx list \<Rightarrow> rx" where
  "seqs [] = Eps"
| "seqs (r # rs) = Seq r (seqs rs)"

fun alts :: "rx list \<Rightarrow> rx" where
  "alts [] = Chr (\<lambda>_. False)"
| "alts [r] = r"
| "alts (r # rs) = Alt r (alts rs)"

subsection \<open>\<open>re.finditer\<close> and \<open>re.sub\<close>\<close>

text \<open>
  \<open>re_finditer anch r b s\<close> lists the group dictionaries of the successive
  non-overlapping matches of \<open>r\<close> in \<open>s\<close>; \<open>b\<close> says whether the scan stands at a line
  start and \<open>anch\<close> whether the pattern is anchored by a leading \<open>^\<close> under
  \<open>re.MULTILINE\<close>.  After a match the scan resumes at its end; after an empty match
  it moves on by one character.
\<close>

fun re_finditer :: "bool \<Rightarrow> rx \<Rightarrow> bool \<Rightarrow> string \<Rightarrow> caps list" where
  "re_finditer anch r b [] =
     (if anch \<and> \<not> b then [] else (case ms r Map.empty [] of [] \<Rightarrow> [] | (c, _) # _ \<Rightarrow> [c]))"
| "re_finditer anch r b (x # xs) =
     (if anch \<and> \<not> b then re_finditer anch r (x = NL) xs
      else (case ms r Map.empty (x # xs) of
              [] \<Rightarrow> re_finditer anch r (x = NL) xs
            | (c, s') # _ \<Rightarrow>
                if length s' < length (x # xs)
                then c # re_finditer anch r (last (take (length (x # xs) - length s') (x # xs)) = NL) s'
                else c # re_finditer anch r (x = NL) xs))"

text \<open>
  \<open>re.sub(r, "", s)\<close>: every match, leftmost first, is deleted; the scan resumes
  after it.  An empty match deletes nothing, so it only moves the scan on.
\<close>

fun re_sub_del :: "rx \<Rightarrow> string \<Rightarrow> string" where
  "re_sub_del r [] = []"
| "re_sub_del r (x # xs) =
     (case ms r Map.empty (x # xs) of
        [] \<Rightarrow> x # re_sub_del r xs
      | (c, s') # _ \<Rightarrow>
          if length s' < length (x # xs) then re_sub_del r s' else x # re_sub_del r xs)"

subsection \<open>Matching, generically\<close>

lemma ms_rest_suffix: "(c', s') \<in> set (ms r c s) \<Longrightarrow> \<exists>u. s = u @ s'"
proof (induction r c s arbitrary: c' s' rule: ms.induct)
  case (2 P c s)
  then show ?case by (auto split: list.splits if_splits)
next
  case (3 w c s)
  then have "s' = drop (length w) s" by (simp split: if_splits)
  then show ?case by (metis append_take_drop_id)
next
  case (4 r1 r2 c s)
  from "4.prems" obtain c1 s1 where m1: "(c1, s1) \<in> set (ms r1 c s)"
    and m2: "(c', s') \<in> set (ms r2 c1 s1)"
    by auto
  from "4.IH"(1)[OF m1] obtain u1 where "s = u1 @ s1" by blast
  moreover from "4.IH"(2)[OF m1 refl m2] obtain u2 where "s1 = u2 @ s'" by blast
  ultimately show ?case by auto
next
  case (5 r1 r2 c s)
  then show ?case by auto
next
  case (6 r c s)
  show ?case
  proof (cases "(c', s') = (c, s)")
    case False
    with "6.prems" have "(c', s') \<in> set (concat (map (\<lambda>(c1, s1).
        if length s1 < length s then ms (Star r) c1 s1 else []) (ms r c s)))"
      by (auto simp: ms.simps(6)[of r c s])
    then obtain c1 s1 where m1: "(c1, s1) \<in> set (ms r c s)"
      and m2': "(c', s') \<in> set (if length s1 < length s then ms (Star r) c1 s1 else [])"
      by fastforce
    from m2' have lt: "length s1 < length s" and m2: "(c', s') \<in> set (ms (Star r) c1 s1)"
      by (simp_all split: if_splits)
    from "6.IH"(1)[OF m1] obtain u1 where "s = u1 @ s1" by blast
    moreover from "6.IH"(2)[OF m1 refl lt m2] obtain u2 where "s1 = u2 @ s'" by blast
    ultimately show ?thesis by auto
  next
    case True
    then show ?thesis by auto
  qed
next
  case (7 n r c s)
  from "7.prems" obtain c1 where "(c1, s') \<in> set (ms r c s)" by auto
  then show ?case by (rule "7.IH")
qed simp

lemma ms_rest_length: "(c', s') \<in> set (ms r c s) \<Longrightarrow> length s' \<le> length s"
  using ms_rest_suffix by fastforce

text \<open>Groups other than \<open>n\<close> leave the capture of \<open>n\<close> alone.\<close>

fun grp_free :: "string \<Rightarrow> rx \<Rightarrow> bool" where
  "grp_free n (Seq r1 r2) = (grp_free n r1 \<and> grp_free n r2)"
| "grp_free n (Alt r1 r2) = (grp_free n r1 \<and> grp_free n r2)"
| "grp_free n (Star r) = grp_free n r"
| "grp_free n (Grp m r) = (m \<noteq> n \<and> grp_free n r)"
| "grp_free n _ = True"

lemma ms_grp_free:
  "grp_free n r \<Longrightarrow> (c', s') \<in> set (ms r c s) \<Longrightarrow> c' n = c n"
proof (induction r c s arbitrary: c' s' rule: ms.induct)
  case (4 r1 r2 c s)
  then show ?case by fastforce
next
  case (6 r c s)
  show ?case
  proof (cases "(c', s') = (c, s)")
    case False
    with "6.prems"(2) have "(c', s') \<in> set (concat (map (\<lambda>(c1, s1).
        if length s1 < length s then ms (Star r) c1 s1 else []) (ms r c s)))"
      by (auto simp: ms.simps(6)[of r c s])
    then obtain c1 s1 where m1: "(c1, s1) \<in> set (ms r c s)"
      and m2': "(c', s') \<in> set (if length s1 < length s then ms (Star r) c1 s1 else [])"
      by fastforce
    from m2' have lt: "length s1 < length s" and m2: "(c', s') \<in> set (ms (Star r) c1 s1)"
      by (simp_all split: if_splits)
    from "6.prems"(1) have "c1 n = c n" by (intro "6.IH"(1)[OF _ m1]) simp
    moreover from "6.prems"(1) have "c' n = c1 n" by (intro "6.IH"(2)[OF m1 refl lt _ m2]) simp
    ultimately show ?thesis by simp
  qed simp
next
  case (7 m r c s)
  then show ?case by fastforce
qed (auto split: list.splits if_splits)

lemma ms_seqs_Cons: "ms (seqs (r # rs)) c s = concat (map (\<lambda>(c', s'). ms (seqs rs) c' s') (ms r c s))"
  by simp

text \<open>A literal after \<open>r\<close> keeps exactly the ways of matching \<open>r\<close> that it can follow.\<close>

lemma ms_Seq_Lit [simp]:
  "ms (Seq (Lit w) r) c s = (if take (length w) s = w then ms r c (drop (length w) s) else [])"
  by simp

lemma concat_map_if_filter:
  "concat (map (\<lambda>(c', s'). if Q s' then f c' s' else []) L) =
   concat (map (\<lambda>(c', s'). f c' s') (filter (\<lambda>(c', s'). Q s') L))"
  by (induction L) auto

lemma ms_seqs_Lit:
  "ms (seqs (r # Lit w # rs)) c s =
     concat (map (\<lambda>(c', s'). ms (seqs rs) c' (drop (length w) s'))
       (filter (\<lambda>(c', s'). take (length w) s' = w) (ms r c s)))"
  using concat_map_if_filter[where Q = "\<lambda>s'. take (length w) s' = w"
      and f = "\<lambda>c' s'. ms (seqs rs) c' (drop (length w) s')"]
  by (simp del: ms.simps(4) add: ms.simps(4)[of r] split_def)

lemma ms_seqs_det:
  assumes "filter (\<lambda>(c', s'). take (length w) s' = w) (ms r c s) = [(c', w @ t)]"
  shows "ms (seqs (r # Lit w # rs)) c s = ms (seqs rs) c' t"
  by (simp only: ms_seqs_Lit assms) simp

subsection \<open>Greedy repetition of a character class\<close>

text \<open>
  \<open>rests P s\<close> lists the rests left by \<open>(Chr P)*\<close> on \<open>s\<close>, longest run first.
\<close>

fun rests :: "(char \<Rightarrow> bool) \<Rightarrow> string \<Rightarrow> string list" where
  "rests P [] = [[]]"
| "rests P (x # xs) = (if P x then rests P xs @ [x # xs] else [x # xs])"

lemma ms_star_chr: "ms (Star (Chr P)) c s = map (Pair c) (rests P s)"
proof (induction s)
  case Nil
  show ?case by (simp add: ms.simps(6)[of "Chr P" c "[]"])
next
  case (Cons x xs)
  then show ?case by (simp add: ms.simps(6)[of "Chr P" c "x # xs"])
qed

lemma rests_hd_tl:
  "rests P s = dropWhile P s # tl (rests P s) \<and> (\<forall>s' \<in> set (tl (rests P s)). s' \<noteq> [] \<and> P (hd s'))"
proof (induction s)
  case (Cons x xs)
  then show ?case
    by (cases "rests P xs") (auto simp del: rests.simps(2) simp: rests.simps(2)[of P x xs])
qed simp

lemma filter_rests_stop:
  assumes "w \<noteq> []" and "\<not> P (hd w)"
  shows "filter (\<lambda>s'. take (length w) s' = w) (rests P s) =
           (if take (length w) (dropWhile P s) = w then [dropWhile P s] else [])"
proof -
  obtain L where L: "rests P s = dropWhile P s # L" "\<forall>s' \<in> set L. s' \<noteq> [] \<and> P (hd s')"
    using rests_hd_tl[of P s] by blast
  have "\<forall>s' \<in> set L. take (length w) s' \<noteq> w"
  proof
    fix s' assume "s' \<in> set L"
    with L(2) have "s' \<noteq> []" "P (hd s')" by auto
    with assms show "take (length w) s' \<noteq> w"
      by (cases s'; cases w) auto
  qed
  then have "filter (\<lambda>s'. take (length w) s' = w) L = []"
    by (simp add: filter_empty_conv)
  with L(1) show ?thesis by simp
qed

lemma rests_append:
  "\<forall>a \<in> set u. P a \<Longrightarrow>
     \<exists>W. rests P (u @ v) = rests P v @ W \<and> (\<forall>s' \<in> set W. s' \<noteq> [] \<and> hd s' \<in> set u)"
proof (induction u)
  case (Cons a u)
  then obtain W where W: "rests P (u @ v) = rests P v @ W"
    "\<forall>s' \<in> set W. s' \<noteq> [] \<and> hd s' \<in> set u"
    by auto
  from Cons.prems W(1) have e: "rests P ((a # u) @ v) = rests P v @ (W @ [a # u @ v])"
    by simp
  from W(2) have "\<forall>s' \<in> set (W @ [a # u @ v]). s' \<noteq> [] \<and> hd s' \<in> set (a # u)"
    by auto
  with e show ?case by blast
qed simp

end
