(* ===== verification/Template.thy ===== *)
theory Template
  imports Prelude
begin

text \<open>
  The template synthesiser of \<^verbatim>\<open>convert_vcf_to_tsv\<close> (\<^verbatim>\<open>cli.py\<close> lines 100--127):
  the output format enumeration, the \<^verbatim>\<open>bcftools query\<close> format string built from
  the INFO and FORMAT field lists, the command line, and the column index
  \<open>ann_loc\<close> of the ANN field in a raw row.  The Python literals \<^verbatim>\<open>"\\t"\<close> and
  \<^verbatim>\<open>"\\n"\<close> are a backslash and a letter, which bcftools itself turns into a tab
  and a newline; \<open>esc_t\<close> and \<open>esc_n\<close> are these two-character strings.
\<close>

datatype output_format = wide | long

definition esc_t :: string where "esc_t = [CHR 0x5C, CHR ''t'']"
definition esc_n :: string where "esc_n = [CHR 0x5C, CHR ''n'']"

definition fixed_query :: string where
  "fixed_query =
     py_join esc_t [''%CHROM'', ''%POS'', ''%ID'', ''%REF'', ''%ALT'', ''%QUAL'', ''%FILTER''] @ esc_t"

definition query_string :: "output_format \<Rightarrow> string list \<Rightarrow> string list \<Rightarrow> string" where
  "query_string f info_fields format_fields =
     (case f of
        long \<Rightarrow>
          fixed_query
          @ py_join esc_t (map (\<lambda>x. ''%'' @ x) info_fields)
          @ esc_t @ ''[-->%SAMPLE'' @ esc_t
          @ py_join esc_t (map (\<lambda>x. ''%'' @ x) format_fields)
          @ esc_n @ '']''
      | wide \<Rightarrow>
          fixed_query
          @ py_join esc_t (map (\<lambda>x. ''%INFO/'' @ x) info_fields)
          @ ''['' @ esc_t @ ''%SAMPLE'' @ esc_t
          @ py_join esc_t (map (\<lambda>x. ''%'' @ x) format_fields)
          @ '']'' @ esc_n)"

text \<open>\<open>list(filter(len, [...]))\<close> drops every empty argument.\<close>

definition bcftools_cmd :: "bool \<Rightarrow> string \<Rightarrow> string \<Rightarrow> string list" where
  "bcftools_cmd print_header q filename =
     filter (\<lambda>a. a \<noteq> [])
       [''bcftools'', ''query'', (if print_header then ''--print-header'' else []), ''-f'', q, filename]"

text \<open>
  \<open>ann_loc = info_fields.index("ANN") + 7\<close> when expansion is requested and
  \<open>"ANN"\<close> is declared; \<open>list.index\<close> cannot raise there because of the membership
  test before it.
\<close>

definition ann_location :: "bool \<Rightarrow> string list \<Rightarrow> nat option" where
  "ann_location expand_ann info_fields =
     (if expand_ann \<and> ''ANN'' \<in> set info_fields
      then (case py_index info_fields ''ANN'' of Inr k \<Rightarrow> Some (k + 7) | Inl _ \<Rightarrow> None)
      else None)"

lemma ann_location_py_index:
  "ann_location e fs = (if e then (case py_index fs ''ANN'' of Inr j \<Rightarrow> Some (j + 7) | Inl _ \<Rightarrow> None) else None)"
  by (simp add: ann_location_def py_index_Inl split: sum.splits)

lemma index_offset_Some:
  "(case py_index xs x of Inr j \<Rightarrow> Some (j + 7) | Inl _ \<Rightarrow> None) = Some k \<longleftrightarrow>
     7 \<le> k \<and> k < 7 + length xs \<and> xs ! (k - 7) = x \<and> x \<notin> set (take (k - 7) xs)"
proof (cases "py_index xs x")
  case (Inl e)
  have "\<not> (7 \<le> k \<and> k < 7 + length xs \<and> xs ! (k - 7) = x \<and> x \<notin> set (take (k - 7) xs))"
  proof
    assume "7 \<le> k \<and> k < 7 + length xs \<and> xs ! (k - 7) = x \<and> x \<notin> set (take (k - 7) xs)"
    then have "py_index xs x = Inr (k - 7)" by (simp add: py_index_eq_Inr less_diff_conv2)
    with Inl show False by simp
  qed
  with Inl show ?thesis by simp
next
  case (Inr j)
  then have j: "j < length xs" "xs ! j = x" "x \<notin> set (take j xs)"
    using Inr py_index_eq_Inr[of xs x j] by simp_all
  show ?thesis
  proof
    assume "(case py_index xs x of Inr j \<Rightarrow> Some (j + 7) | Inl _ \<Rightarrow> None) = Some k"
    with Inr have "k = j + 7" by simp
    with j show "7 \<le> k \<and> k < 7 + length xs \<and> xs ! (k - 7) = x \<and> x \<notin> set (take (k - 7) xs)"
      by simp
  next
    assume "7 \<le> k \<and> k < 7 + length xs \<and> xs ! (k - 7) = x \<and> x \<notin> set (take (k - 7) xs)"
    then have "py_index xs x = Inr (k - 7)" "7 \<le> k" by (simp_all add: py_index_eq_Inr less_diff_conv2)
    with Inr show "(case py_index xs x of Inr j \<Rightarrow> Some (j + 7) | Inl _ \<Rightarrow> None) = Some k" by simp
  qed
qed

text \<open>
  C12.  \<open>ann_loc\<close> is defined exactly when expansion is requested and \<open>"ANN"\<close> is
  declared, and then it is the column of the first \<open>"ANN"\<close> among the INFO
  fields, offset by the seven fixed columns: \<open>7 \<le> ann_loc < 7 + len(info_fields)\<close>.
\<close>

theorem ann_location_bounds:
  "ann_location e fs = Some k \<longleftrightarrow>
     e \<and> 7 \<le> k \<and> k < 7 + length fs \<and> fs ! (k - 7) = ''ANN'' \<and> ''ANN'' \<notin> set (take (k - 7) fs)"
  by (simp only: ann_location_py_index index_offset_Some[symmetric]) simp

theorem ann_location_bounds_witness:
  "ann_location True [''DP'', ''ANN'', ''AF'', ''ANN''] = Some 8
   \<and> ann_location False [''ANN''] \<noteq> Some 7"
  using ann_location_bounds[of True "[''DP'', ''ANN'', ''AF'', ''ANN'']" 8]
    ann_location_bounds[of False "[''ANN'']" 7]
  by simp

end
