(* ===== verification/Utf8.thy ===== *)
theory Utf8
  imports Prelude
begin

text \<open>
  \<open>line.decode("UTF-8")\<close> (\<^verbatim>\<open>cli.py\<close> line 132) with Python's strict error
  handler: it succeeds exactly on well-formed UTF-8 (Unicode, Table 3-7: no
  overlong forms, no surrogates, nothing above U+10FFFF) and raises
  \<open>UnicodeDecodeError\<close> otherwise.  The model keeps the text as its bytes, so the
  decoder is the check \<open>utf8_valid\<close>; every delimiter the code splits at is ASCII,
  and an ASCII byte never occurs inside a multi-byte sequence, so splitting the
  bytes and splitting the decoded text agree.
\<close>

definition byte :: "char \<Rightarrow> nat" where
  "byte c = of_char c"

definition is_cont :: "nat \<Rightarrow> bool" where
  "is_cont b \<longleftrightarrow> 0x80 \<le> b \<and> b \<le> 0xBF"

definition utf8_tail :: "nat \<Rightarrow> nat" where
  "utf8_tail b = (if b < 0x80 then 0 else if b < 0xE0 then 1 else if b < 0xF0 then 2 else 3)"

fun utf8_seq :: "nat \<Rightarrow> nat list \<Rightarrow> bool" where
  "utf8_seq b [] \<longleftrightarrow> b < 0x80"
| "utf8_seq b [b1] \<longleftrightarrow> 0xC2 \<le> b \<and> b \<le> 0xDF \<and> is_cont b1"
| "utf8_seq b [b1, b2] \<longleftrightarrow> 0xE0 \<le> b \<and> b \<le> 0xEF \<and> is_cont b2 \<and>
     (if b = 0xE0 then 0xA0 \<le> b1 \<and> b1 \<le> 0xBF
      else if b = 0xED then 0x80 \<le> b1 \<and> b1 \<le> 0x9F else is_cont b1)"
| "utf8_seq b [b1, b2, b3] \<longleftrightarrow> 0xF0 \<le> b \<and> b \<le> 0xF4 \<and> is_cont b2 \<and> is_cont b3 \<and>
     (if b = 0xF0 then 0x90 \<le> b1 \<and> b1 \<le> 0xBF
      else if b = 0xF4 then 0x80 \<le> b1 \<and> b1 \<le> 0x8F else is_cont b1)"
| "utf8_seq b _ \<longleftrightarrow> False"

fun utf8_valid :: "string \<Rightarrow> bool" where
  "utf8_valid [] \<longleftrightarrow> True"
| "utf8_valid (c # r) \<longleftrightarrow>
     (let k = utf8_tail (byte c)
      in k \<le> length r \<and> utf8_seq (byte c) (map byte (take k r)) \<and> utf8_valid (drop k r))"

declare utf8_valid.simps(2) [simp del]

lemma utf8_valid_Cons_ascii [simp]: "byte c < 0x80 \<Longrightarrow> utf8_valid (c # s) \<longleftrightarrow> utf8_valid s"
  by (simp add: utf8_valid.simps(2) utf8_tail_def)

lemma byte_literal [simp]: "byte (Char b0 b1 b2 b3 b4 b5 b6 b7) = of_char (Char b0 b1 b2 b3 b4 b5 b6 b7)"
  by (simp only: byte_def)

lemma utf8_valid_append: "utf8_valid xs \<Longrightarrow> utf8_valid ys \<Longrightarrow> utf8_valid (xs @ ys)"
  by (induction xs rule: utf8_valid.induct) (auto simp: utf8_valid.simps(2) Let_def)

lemma utf8_valid_concat: "\<forall>x \<in> set xs. utf8_valid x \<Longrightarrow> utf8_valid (concat xs)"
  by (induction xs) (simp_all add: utf8_valid_append)

lemma utf8_valid_join:
  "utf8_valid sep \<Longrightarrow> \<forall>x \<in> set xs. utf8_valid x \<Longrightarrow> utf8_valid (py_join sep xs)"
  by (induction sep xs rule: py_join.induct) (simp_all add: utf8_valid_append)

lemma utf8_valid_ascii: "\<forall>c \<in> set s. byte c < 0x80 \<Longrightarrow> utf8_valid s"
  by (induction s) simp_all

lemma utf8_seq_cont: "utf8_seq b bs \<Longrightarrow> x \<in> set bs \<Longrightarrow> 0x80 \<le> x"
  by (induction b bs rule: utf8_seq.induct) (auto simp: is_cont_def split: if_splits)

lemma utf8_valid_split_ascii:
  assumes "utf8_valid (xs @ c # ys)" "byte c < 0x80"
  shows "utf8_valid xs \<and> utf8_valid ys"
  using assms(1)
proof (induction "length xs" arbitrary: xs rule: less_induct)
  case less
  show ?case
  proof (cases xs)
    case Nil
    with less.prems assms(2) show ?thesis by simp
  next
    case (Cons a r)
    let ?k = "utf8_tail (byte a)"
    from less.prems Cons have v: "?k \<le> length (r @ c # ys)"
      "utf8_seq (byte a) (map byte (take ?k (r @ c # ys)))" "utf8_valid (drop ?k (r @ c # ys))"
      by (simp_all add: utf8_valid.simps(2) Let_def)
    show ?thesis
    proof (cases "?k \<le> length r")
      case True
      with v(3) have "utf8_valid (drop ?k r @ c # ys)" by simp
      with less.hyps[of "drop ?k r"] Cons have "utf8_valid (drop ?k r) \<and> utf8_valid ys" by simp
      with True v(2) Cons show ?thesis by (simp add: utf8_valid.simps(2) Let_def)
    next
      case False
      then obtain m where "?k - length r = Suc m" by (cases "?k - length r") auto
      then have "byte c \<in> set (map byte (take ?k (r @ c # ys)))"
        by (simp add: take_append)
      with utf8_seq_cont[OF v(2)] assms(2) show ?thesis by fastforce
    qed
  qed
qed

end
