(* ===== verification/Transformer.thy ===== *)
theory Transformer
  imports Regex Template Utf8
begin

text \<open>
  The row stream transformer and the header line renderer: the body of the loop
  \<^verbatim>\<open>for n, line in enumerate(proc.stdout)\<close> in \<^verbatim>\<open>convert_vcf_to_tsv\<close>
  (\<^verbatim>\<open>cli.py\<close> lines 129--183).  The loop's state is the line counter \<open>n\<close>, the
  carried-over variant columns \<open>fill_fields\<close> and the lines printed so far; one
  call of \<open>process_line\<close> is one iteration, and \<open>run\<close> is the loop.  Printing is
  appending to \<open>printed\<close>: what the program prints before an exception stays
  printed, so a run that fails returns the state of the last good line together
  with the error.
\<close>

definition ANN_HEADER :: "string list" where
  "ANN_HEADER = [''allele'', ''effect'', ''impact'', ''gene_name'', ''gene_id'',
     ''feature_type'', ''feature_id'', ''transcript_biotype'', ''exon_intron_rank'',
     ''nt_change'', ''aa_change'', ''cDNA_position/cDNA_len'', ''protein_position'',
     ''distance_to_feature'', ''error'']"

text \<open>The pattern \<open>r"\[[0-9]+\]"\<close> of the two \<open>re.sub\<close> calls.\<close>

definition MARKER_RE :: rx where
  "MARKER_RE = seqs [Lit ''['', plus (one_of ''0123456789''), Lit '']'']"

definition header_strip_chars :: "char list" where
  "header_strip_chars = [CHR ''#'', NL, CHR '' '']"

record conv =
  ofmt :: output_format
  print_header :: bool
  info_fields :: "string list"
  format_fields :: "string list"
  samples :: "string list"
  ann_loc :: "nat option"

record tstate =
  line_no :: nat
  fill_fields :: row
  printed :: "string list"

subsection \<open>Header lines (lines 134--154)\<close>

definition ann_splice_header :: "nat \<Rightarrow> row \<Rightarrow> row" where
  "ann_splice_header k parts = py_upto parts (int k - 1) @ ANN_HEADER @ py_from parts (int k + 1)"

definition render_header_wide :: "nat option \<Rightarrow> string \<Rightarrow> string" where
  "render_header_wide al line =
     (let line' = (case al of None \<Rightarrow> line
                   | Some k \<Rightarrow> py_join [TAB] (ann_splice_header k (py_split TAB line)))
      in py_replace '':'' ''_'' (py_strip header_strip_chars (re_sub_del MARKER_RE line')))"

definition unqualify :: "string \<Rightarrow> string" where
  "unqualify var = (if CHR '':'' \<in> set var then py_split CHR '':'' var ! 1 else var)"

text \<open>\<open>header[:-len(format_fields)] + ["F_" + x for x in header[-len(format_fields):]]\<close>\<close>

definition f_prefix_cols :: "nat \<Rightarrow> row \<Rightarrow> row" where
  "f_prefix_cols n_format header =
     py_upto header (- int n_format) @ map (\<lambda>x. ''F_'' @ x) (py_from header (- int n_format))"

definition render_header_long :: "nat option \<Rightarrow> nat \<Rightarrow> string \<Rightarrow> string" where
  "render_header_long al n_format line =
     (let cols = py_split TAB (py_strip header_strip_chars (re_sub_del MARKER_RE line));
          header = map unqualify cols;
          header = (case al of None \<Rightarrow> header | Some k \<Rightarrow> ann_splice_header k header);
          header = f_prefix_cols n_format header
      in py_replace ''-->'' [] (py_join [TAB] header))"

subsection \<open>Data lines (lines 156--183)\<close>

text \<open>
  ANN fan-out: \<open>parts[ann_loc]\<close> (which raises \<open>IndexError\<close> on a short row) is
  split at commas, and each sub-record, split at pipes, replaces the slice
  \<open>parts[ann_loc-1 : ann_loc+2]\<close>.
\<close>

definition ann_rows :: "nat \<Rightarrow> row \<Rightarrow> py_error + row list" where
  "ann_rows k parts =
     (case py_nth parts (int k) of
        Inl e \<Rightarrow> Inl e
      | Inr v \<Rightarrow> Inr (map (\<lambda>ve. py_upto parts (int k - 1) @ py_split CHR ''|'' ve
                                @ py_from parts (int k + 2))
                         (py_split CHR '','' v)))"

definition wide_data_line :: "nat option \<Rightarrow> string \<Rightarrow> py_error + string list" where
  "wide_data_line al line =
     (case al of
        None \<Rightarrow> Inr [py_strip [NL] line]
      | Some k \<Rightarrow>
          (case ann_rows k (py_split TAB line) of
             Inl e \<Rightarrow> Inl e
           | Inr rows \<Rightarrow> Inr (map (\<lambda>r. py_strip [NL] (py_join [TAB] r)) rows)))"

text \<open>
  Long format: a row whose first column carries the \<open>-->\<close> sentinel is a further
  sample of the variant before and gets \<open>fill_fields\<close> in front of
  \<open>parts[len(parts) - len(fill_fields):]\<close>; any other row is a new variant and its
  first \<open>7 + len(info_fields)\<close> columns become \<open>fill_fields\<close>.
\<close>

definition long_parts :: "nat \<Rightarrow> row \<Rightarrow> row \<Rightarrow> row \<times> row" where
  "long_parts n_info fill parts =
     (if py_startswith (hd parts) ''-->''
      then (fill @ py_from parts (int (length parts) - int (length fill)), fill)
      else (parts, py_upto parts (7 + int n_info)))"

definition long_data_line :: "nat option \<Rightarrow> nat \<Rightarrow> row \<Rightarrow> string \<Rightarrow> py_error + string list \<times> row" where
  "long_data_line al n_info fill line =
     (let (parts, fill') = long_parts n_info fill (py_split TAB (py_strip [NL] line))
      in case al of
           None \<Rightarrow> Inr ([py_replace ''-->'' [] (py_join [TAB] parts)], fill')
         | Some k \<Rightarrow>
             (case ann_rows k parts of
                Inl e \<Rightarrow> Inl e
              | Inr rows \<Rightarrow>
                  Inr (map (\<lambda>r. py_replace ''-->'' [] (py_strip [NL] (py_join [TAB] r))) rows, fill')))"

subsection \<open>One iteration and the loop\<close>

definition process_line :: "conv \<Rightarrow> tstate \<Rightarrow> string \<Rightarrow> py_error + tstate" where
  "process_line cv st line =
     (if \<not> utf8_valid line then Inl UnicodeDecodeError else
      let n = line_no st; st1 = st\<lparr>line_no := Suc n\<rparr> in
      if n = 0 \<and> print_header cv \<and> ofmt cv = wide then
        Inr (st1\<lparr>printed := printed st @ [render_header_wide (ann_loc cv) line]\<rparr>)
      else if n = 0 \<and> print_header cv \<and> ofmt cv = long then
        Inr (st1\<lparr>printed := printed st
               @ [render_header_long (ann_loc cv) (length (format_fields cv)) line]\<rparr>)
      else if n < length (samples cv) \<and> ofmt cv = long then Inr st1
      else if length (samples cv) \<le> n \<and> ofmt cv = long then
        (case long_data_line (ann_loc cv) (length (info_fields cv)) (fill_fields st) line of
           Inl e \<Rightarrow> Inl e
         | Inr (outs, fill') \<Rightarrow> Inr (st1\<lparr>fill_fields := fill', printed := printed st @ outs\<rparr>))
      else
        (case wide_data_line (ann_loc cv) line of
           Inl e \<Rightarrow> Inl e
         | Inr outs \<Rightarrow> Inr (st1\<lparr>printed := printed st @ outs\<rparr>)))"

fun run :: "conv \<Rightarrow> tstate \<Rightarrow> string list \<Rightarrow> tstate \<times> py_error option" where
  "run cv st [] = (st, None)"
| "run cv st (l # ls) =
     (case process_line cv st l of
        Inl e \<Rightarrow> (st, Some e)
      | Inr st' \<Rightarrow> run cv st' ls)"

definition init_state :: tstate where
  "init_state = \<lparr>line_no = 0, fill_fields = [], printed = []\<rparr>"

subsection \<open>Slices at the ANN column\<close>

lemma py_upto_pred [py_simps]: "1 \<le> k \<Longrightarrow> py_upto xs (int k - 1) = take (k - 1) xs"
  using py_upto_nat[of xs "k - 1"] by (simp add: of_nat_diff)

lemma py_from_plus [py_simps]: "py_from xs (int k + int j) = drop (k + j) xs"
  using py_from_nat[of xs "k + j"] by simp

lemma py_from_plus_num [py_simps]:
  "py_from xs (int k + 1) = drop (Suc k) xs" "py_from xs (int k + 2) = drop (Suc (Suc k)) xs"
proof -
  have "int k + 1 = int (Suc k)" "int k + 2 = int (Suc (Suc k))" by simp_all
  then show "py_from xs (int k + 1) = drop (Suc k) xs" "py_from xs (int k + 2) = drop (Suc (Suc k)) xs"
    by (simp_all only: py_from_nat)
qed

lemma ann_splice_header_eq:
  "1 \<le> k \<Longrightarrow> ann_splice_header k parts = take (k - 1) parts @ ANN_HEADER @ drop (Suc k) parts"
  by (simp add: ann_splice_header_def py_simps)

lemma ann_rows_short: "length parts \<le> k \<Longrightarrow> ann_rows k parts = Inl IndexError"
  by (simp add: ann_rows_def py_nth_nat)

lemma ann_rows_eq:
  "1 \<le> k \<Longrightarrow> k < length parts \<Longrightarrow>
   ann_rows k parts =
     Inr (map (\<lambda>ve. take (k - 1) parts @ py_split CHR ''|'' ve @ drop (Suc (Suc k)) parts)
              (py_split CHR '','' (parts ! k)))"
  by (simp add: ann_rows_def py_simps)

lemma length_ANN_HEADER [simp]: "length ANN_HEADER = 15"
  by (simp add: ANN_HEADER_def)

subsection \<open>The long-format carry-over\<close>

text \<open>
  A negative slice start counts from the end: for a continuation row shorter
  than \<open>fill_fields\<close> the start \<open>len(parts) - len(fill)\<close> is negative and names the
  position \<open>2 * len(parts) - len(fill)\<close>, clamped at 0.
\<close>

lemma py_bound_diff:
  "py_bound (int a - int b) a = (if a < b then 2 * a - b else a - b)"
  by (simp add: py_bound_def) linarith

lemma long_parts_continuation:
  "py_startswith (hd parts) ''-->'' \<Longrightarrow>
   long_parts n fill parts =
     (fill @ drop (if length parts < length fill then 2 * length parts - length fill
                   else length parts - length fill) parts, fill)"
  by (simp add: long_parts_def py_from_def py_bound_diff)

lemma long_parts_fresh:
  "\<not> py_startswith (hd parts) ''-->'' \<Longrightarrow>
   long_parts n fill parts = (parts, take (7 + n) parts)"
  using py_upto_nat[of parts "7 + n"] by (simp add: long_parts_def)

subsection \<open>The loop\<close>

lemma run_append:
  "run cv st (xs @ ys) = (case run cv st xs of (st', None) \<Rightarrow> run cv st' ys | r \<Rightarrow> r)"
  by (induction xs arbitrary: st) (auto split: sum.splits option.splits prod.splits)

subsection \<open>One iteration: what every branch keeps\<close>

lemma long_data_line_fill:
  "long_data_line al n fill line = Inr (outs, fill') \<Longrightarrow> fill' = fill \<or> length fill' \<le> 7 + n"
  by (auto simp: long_data_line_def long_parts_def py_upto_def py_bound_def Let_def
      split: if_splits option.splits sum.splits prod.splits)

lemma process_line_Inr:
  assumes "process_line cv st l = Inr st'"
  shows "line_no st' = Suc (line_no st) \<and> (\<exists>zs. printed st' = printed st @ zs)
         \<and> (fill_fields st' = fill_fields st \<or> length (fill_fields st') \<le> 7 + length (info_fields cv))"
proof -
  have "\<And>outs fill'. long_data_line (ann_loc cv) (length (info_fields cv)) (fill_fields st) l = Inr (outs, fill') \<Longrightarrow>
          fill' = fill_fields st \<or> length fill' \<le> 7 + length (info_fields cv)"
    by (rule long_data_line_fill)
  with assms show ?thesis
    by (auto simp: process_line_def Let_def split: if_splits sum.splits prod.splits)
qed

lemma process_line_no_ann:
  "ann_loc cv = None \<Longrightarrow> utf8_valid l \<Longrightarrow> \<exists>st'. process_line cv st l = Inr st'"
  by (auto simp: process_line_def Let_def long_data_line_def wide_data_line_def split: prod.splits)

text \<open>
  C4.  A long-format row that starts with the \<open>-->\<close> sentinel is rebuilt as
  \<open>fill_fields + parts[len(parts) - len(fill_fields):]\<close>.  When the row is shorter
  than \<open>fill_fields\<close> the slice start is negative and Python counts it from the
  end, so the first \<open>2 * len(parts) - len(fill_fields)\<close> columns of the row (the
  sample name first) are dropped; only rows of at most half the length of
  \<open>fill_fields\<close>, or of exactly its length, keep all their columns.
\<close>

theorem long_continuation_slice:
  assumes p: "parts = py_split TAB (py_strip [NL] line)" and s: "py_startswith (hd parts) ''-->''"
  shows "long_data_line None n fill line =
           Inr ([py_replace ''-->'' [] (py_join [TAB]
                  (fill @ drop (if length parts < length fill then 2 * length parts - length fill
                                else length parts - length fill) parts))], fill)"
  using long_parts_continuation[OF s, of n fill] p by (simp add: long_data_line_def)

theorem long_continuation_slice_witness:
  "py_startswith (hd (py_split TAB (py_strip [NL] (py_join [TAB] [''-->S2'', ''0/1'', ''12'', ''35'', ''9''] @ [NL])))) ''-->''
   \<and> long_data_line None 1 [''1'', ''100'', ''rs1'', ''A'', ''T'', ''30'', ''PASS'', ''7'']
        (py_join [TAB] [''-->S2'', ''0/1'', ''12'', ''35'', ''9''] @ [NL])
     = Inr ([py_join [TAB] [''1'', ''100'', ''rs1'', ''A'', ''T'', ''30'', ''PASS'', ''7'', ''12'', ''35'', ''9'']],
            [''1'', ''100'', ''rs1'', ''A'', ''T'', ''30'', ''PASS'', ''7''])"
  using long_continuation_slice[of "py_split TAB (py_strip [NL] (py_join [TAB] [''-->S2'', ''0/1'', ''12'', ''35'', ''9''] @ [NL]))"
      "py_join [TAB] [''-->S2'', ''0/1'', ''12'', ''35'', ''9''] @ [NL]" 1 "[''1'', ''100'', ''rs1'', ''A'', ''T'', ''30'', ''PASS'', ''7'']"]
  by (simp add: py_startswith_def py_strip_def)

text \<open>
  C5.  ANN fan-out in the wide format: for an ANN column at \<open>k\<close> inside the row,
  the line becomes one row per comma-separated ANN record, each the row with the
  slice \<open>parts[k-1 : k+2]\<close> replaced by the record's pipe-separated fields.  The
  slice is three columns wide: besides the ANN value it removes the column just
  before it and the column just after it.
\<close>

theorem wide_ann_fanout:
  assumes p: "parts = py_split TAB line" and k: "1 \<le> k" "k < length parts"
  shows "wide_data_line (Some k) line =
           Inr (map (\<lambda>ve. py_strip [NL] (py_join [TAB] (take (k - 1) parts @ py_split CHR ''|'' ve
                                                        @ drop (Suc (Suc k)) parts)))
                    (py_split CHR '','' (parts ! k)))
         \<and> length (py_split CHR '','' (parts ! k)) = Suc (count_list (parts ! k) CHR '','')"
  using ann_rows_eq[OF k] p by (simp add: wide_data_line_def comp_def)

theorem wide_ann_fanout_witness:
  "(1::nat) \<le> 8 \<and> 8 < length (py_split TAB (py_join [TAB]
       [''1'', ''100'', ''.'', ''A'', ''T'', ''30'', ''PASS'', ''7'', ''G|missense|HIGH,C|synonymous|LOW'', ''0.5'']))
   \<and> wide_data_line (Some 8) (py_join [TAB]
       [''1'', ''100'', ''.'', ''A'', ''T'', ''30'', ''PASS'', ''7'', ''G|missense|HIGH,C|synonymous|LOW'', ''0.5''])
     = Inr [py_join [TAB] [''1'', ''100'', ''.'', ''A'', ''T'', ''30'', ''PASS'', ''G'', ''missense'', ''HIGH''],
            py_join [TAB] [''1'', ''100'', ''.'', ''A'', ''T'', ''30'', ''PASS'', ''C'', ''synonymous'', ''LOW'']]"
  using wide_ann_fanout[of "py_split TAB (py_join [TAB]
       [''1'', ''100'', ''.'', ''A'', ''T'', ''30'', ''PASS'', ''7'', ''G|missense|HIGH,C|synonymous|LOW'', ''0.5''])"
     "py_join [TAB] [''1'', ''100'', ''.'', ''A'', ''T'', ''30'', ''PASS'', ''7'', ''G|missense|HIGH,C|synonymous|LOW'', ''0.5'']" 8]
  by (simp add: py_strip_def)

text \<open>
  C6.  A data row that decodes but is too short to hold the ANN column raises \<open>IndexError\<close> at
  \<open>parts[ann_loc]\<close>: the run stops there with that error, and the lines printed
  before it stay printed; nothing of the failing line is printed and no later line
  is read.
\<close>

theorem ann_short_row_aborts:
  assumes "ofmt cv = wide" "ann_loc cv = Some k" "\<not> (line_no st = 0 \<and> print_header cv)"
    and "utf8_valid l" "length (py_split TAB l) \<le> k"
  shows "run cv st (l # ls) = (st, Some IndexError)"
  using assms by (auto simp: process_line_def Let_def wide_data_line_def ann_rows_short)

theorem ann_short_row_aborts_witness:
  "ofmt \<lparr>ofmt = wide, print_header = False, info_fields = [''ANN''], format_fields = [],
         samples = [], ann_loc = Some 7\<rparr> = wide
   \<and> utf8_valid ''chr1'' \<and> length (py_split TAB ''chr1'') \<le> 7
   \<and> run \<lparr>ofmt = wide, print_header = False, info_fields = [''ANN''], format_fields = [],
         samples = [], ann_loc = Some 7\<rparr> (init_state\<lparr>line_no := 3, printed := [''row1'']\<rparr>) [''chr1'', ''chr2'']
     = (init_state\<lparr>line_no := 3, printed := [''row1'']\<rparr>, Some IndexError)"
  using ann_short_row_aborts[of "\<lparr>ofmt = wide, print_header = False, info_fields = [''ANN''], format_fields = [],
         samples = [], ann_loc = Some 7\<rparr>" 7 "init_state\<lparr>line_no := 3, printed := [''row1'']\<rparr>" "''chr1''" "[''chr2'']"]
  by (simp add: init_state_def)

text \<open>
  C7.  Without ANN expansion no line that decodes as UTF-8 can make the loop
  fail: every branch of the loop body returns normally, so on such output the
  run always ends without an error.
\<close>

theorem run_no_ann_never_fails:
  "ann_loc cv = None \<Longrightarrow> list_all utf8_valid ls \<Longrightarrow> snd (run cv st ls) = None"
proof (induction ls arbitrary: st)
  case (Cons l ls)
  from process_line_no_ann[OF Cons.prems(1)] Cons.prems(2) obtain st' where "process_line cv st l = Inr st'" by auto
  with Cons show ?case by simp
qed simp

theorem run_no_ann_never_fails_witness:
  "ann_loc \<lparr>ofmt = long, print_header = False, info_fields = [], format_fields = [],
              samples = [''S1''], ann_loc = None\<rparr> = None
   \<and> list_all utf8_valid [''a'', ''-->b'', [], ''c'']
   \<and> snd (run \<lparr>ofmt = long, print_header = False, info_fields = [], format_fields = [],
              samples = [''S1''], ann_loc = None\<rparr> init_state [''a'', ''-->b'', [], ''c'']) = None"
  using run_no_ann_never_fails[of "\<lparr>ofmt = long, print_header = False, info_fields = [], format_fields = [],
              samples = [''S1''], ann_loc = None\<rparr>" "[''a'', ''-->b'', [], ''c'']" init_state]
  by simp

text \<open>
  C8.  The loop's state invariants: printed output is only ever appended to, the
  line counter is \<open>enumerate\<close>'s index (one more per line read, up to the line
  that fails), and \<open>fill_fields\<close> never holds more than the
  \<open>7 + len(info_fields)\<close> variant columns.
\<close>

theorem run_invariants:
  assumes "length (fill_fields st) \<le> 7 + length (info_fields cv)"
  shows "(\<exists>zs. printed (fst (run cv st ls)) = printed st @ zs)
         \<and> line_no st \<le> line_no (fst (run cv st ls))
         \<and> line_no (fst (run cv st ls)) \<le> line_no st + length ls
         \<and> (snd (run cv st ls) = None \<longrightarrow> line_no (fst (run cv st ls)) = line_no st + length ls)
         \<and> length (fill_fields (fst (run cv st ls))) \<le> 7 + length (info_fields cv)"
  using assms
proof (induction ls arbitrary: st)
  case (Cons l ls)
  show ?case
  proof (cases "process_line cv st l")
    case (Inl e)
    with Cons.prems show ?thesis by simp
  next
    case (Inr st')
    from process_line_Inr[OF Inr] Cons.prems
    have st': "line_no st' = Suc (line_no st)" "\<exists>zs. printed st' = printed st @ zs"
      "length (fill_fields st') \<le> 7 + length (info_fields cv)"
      by auto
    with Cons.IH[OF st'(3)] Inr show ?thesis by auto
  qed
qed simp

theorem run_invariants_witness:
  "length (fill_fields init_state) \<le> 7 + length (info_fields \<lparr>ofmt = long, print_header = True,
      info_fields = [''DP''], format_fields = [''GT''], samples = [''S1''], ann_loc = None\<rparr>)
   \<and> line_no (fst (run \<lparr>ofmt = long, print_header = True, info_fields = [''DP''], format_fields = [''GT''],
        samples = [''S1''], ann_loc = None\<rparr> init_state [''h'', ''a'', ''-->b''])) \<le> 3"
  using run_invariants[of init_state "\<lparr>ofmt = long, print_header = True, info_fields = [''DP''],
      format_fields = [''GT''], samples = [''S1''], ann_loc = None\<rparr>" "[''h'', ''a'', ''-->b'']"]
  by (simp add: init_state_def)

text \<open>
  C28.  Every line bcftools prints is decoded as UTF-8 first (line 132): a line
  that is not well-formed UTF-8 raises \<open>UnicodeDecodeError\<close>, whatever the format
  and options, so the run stops at that line with the rows of the earlier lines
  printed and nothing of that line or the later ones.
\<close>

theorem run_decode_error:
  assumes "\<not> utf8_valid l" and "snd (run cv st xs) = None"
  shows "run cv st (xs @ l # ys) = (fst (run cv st xs), Some UnicodeDecodeError)"
proof -
  obtain st' where xs: "run cv st xs = (st', None)" using assms(2) by (cases "run cv st xs") auto
  with assms(1) show ?thesis by (simp add: run_append process_line_def)
qed

theorem run_decode_error_witness:
  "\<not> utf8_valid [CHR ''A'', CHR 0xE9]
   \<and> snd (run \<lparr>ofmt = wide, print_header = False, info_fields = [], format_fields = [],
              samples = [], ann_loc = None\<rparr> init_state [''r1'']) = None
   \<and> run \<lparr>ofmt = wide, print_header = False, info_fields = [], format_fields = [],
          samples = [], ann_loc = None\<rparr> init_state ([''r1''] @ [CHR ''A'', CHR 0xE9] # [''r3''])
     = (\<lparr>line_no = 1, fill_fields = [], printed = [''r1'']\<rparr>, Some UnicodeDecodeError)"
  using run_decode_error[of "[CHR ''A'', CHR 0xE9]" "\<lparr>ofmt = wide, print_header = False, info_fields = [],
          format_fields = [], samples = [], ann_loc = None\<rparr>" init_state "[''r1'']" "[''r3'']"]
  by (simp add: init_state_def process_line_def wide_data_line_def utf8_valid.simps utf8_tail_def
      py_strip_def)

end
