(* ===== verification/Engine.thy ===== *)
theory Engine
  imports Template Utf8
begin

text \<open>
  The extraction engine, \<^verbatim>\<open>bcftools query -f <template>\<close>, started by
  \<^verbatim>\<open>Popen\<close> in \<^verbatim>\<open>cli.py\<close> line 122, is not part of the repository: it is modelled
  here from the spec (section 6) and from the template the program builds.  A
  variant carries its seven fixed columns (CHROM, POS, ID, REF, ALT, QUAL,
  FILTER), one value per INFO field and, per sample, its name and one value per
  FORMAT field.  Each template piece prints its value, \<open>\t\<close> a tab and
  \<open>\n\<close> a newline; a bracketed group is repeated once per sample.  The
  program reads the engine's standard output as lines that keep their newline
  (\<open>py_lines\<close>).  The header lines printed under \<^verbatim>\<open>--print-header\<close> are left
  abstract: the theorems take them as parameters.
\<close>

record variant =
  v_fixed :: "string list"
  v_info :: "string list"
  v_samples :: "(string \<times> string list) list"

text \<open>Wide template: \<open>%CHROM\t...%FILTER\t<info>[\t%SAMPLE\t<format>]\n\<close>.\<close>

definition engine_wide_text :: "variant \<Rightarrow> string" where
  "engine_wide_text v =
     py_join [TAB] (v_fixed v) @ [TAB] @ py_join [TAB] (v_info v)
     @ concat (map (\<lambda>(nm, fs). [TAB] @ nm @ [TAB] @ py_join [TAB] fs) (v_samples v))
     @ [NL]"

text \<open>Long template: \<open>%CHROM\t...%FILTER\t<info>\t[-->%SAMPLE\t<format>\n]\<close>.\<close>

definition long_sample_text :: "string \<times> string list \<Rightarrow> string" where
  "long_sample_text s = ''-->'' @ fst s @ [TAB] @ py_join [TAB] (snd s) @ [NL]"

definition engine_long_text :: "variant \<Rightarrow> string" where
  "engine_long_text v =
     py_join [TAB] (v_fixed v) @ [TAB] @ py_join [TAB] (v_info v) @ [TAB]
     @ concat (map long_sample_text (v_samples v))"

text \<open>Iterating over a binary pipe yields its lines, each with its newline.\<close>

function py_lines :: "string \<Rightarrow> string list" where
  "py_lines s =
     (if s = [] then []
      else if NL \<notin> set s then [s]
      else (takeWhile (\<lambda>c. c \<noteq> NL) s @ [NL]) # py_lines (tl (dropWhile (\<lambda>c. c \<noteq> NL) s)))"
  by auto
termination
proof (relation "measure length")
  fix s :: string
  assume "\<not> s = []"
  then have "length (dropWhile (\<lambda>c. c \<noteq> NL) s) - 1 < length s"
    using length_dropWhile_le[of "\<lambda>c. c \<noteq> NL" s] by (cases s) auto
  then show "(tl (dropWhile (\<lambda>c. c \<noteq> NL) s), s) \<in> measure length" by simp
qed simp

declare py_lines.simps [simp del]

definition engine_wide :: "variant list \<Rightarrow> string list" where
  "engine_wide vs = py_lines (concat (map engine_wide_text vs))"

definition engine_long :: "variant list \<Rightarrow> string list" where
  "engine_long vs = py_lines (concat (map engine_long_text vs))"

subsection \<open>The columns the engine prints\<close>

text \<open>A group of values prints as one column per value, or one empty column.\<close>

definition cols_of :: "string list \<Rightarrow> string list" where
  "cols_of xs = (if xs = [] then [[]] else xs)"

definition wide_row :: "variant \<Rightarrow> row" where
  "wide_row v = v_fixed v @ cols_of (v_info v) @ concat (map (\<lambda>(nm, fs). nm # cols_of fs) (v_samples v))"

definition clean :: "string \<Rightarrow> bool" where
  "clean x \<longleftrightarrow> TAB \<notin> set x \<and> NL \<notin> set x \<and> utf8_valid x"

definition clean_variant :: "variant \<Rightarrow> bool" where
  "clean_variant v \<longleftrightarrow> length (v_fixed v) = 7 \<and> list_all clean (v_fixed v) \<and> list_all clean (v_info v)
     \<and> list_all (\<lambda>(nm, fs). clean nm \<and> list_all clean fs) (v_samples v)"

lemma py_join_cols_of [simp]: "py_join sep (cols_of xs) = py_join sep xs"
  by (simp add: cols_of_def)

lemma cols_of_not_Nil [simp]: "cols_of xs \<noteq> []"
  by (simp add: cols_of_def)

lemma py_lines_line:
  "NL \<notin> set l \<Longrightarrow> py_lines (l @ NL # s) = (l @ [NL]) # py_lines s"
  by (subst py_lines.simps) (simp add: takeWhile_append dropWhile_append)

lemma py_lines_Nil [simp]: "py_lines [] = []"
  by (simp add: py_lines.simps)

lemma py_lines_concat:
  "\<forall>l \<in> set ls. NL \<notin> set l \<Longrightarrow> py_lines (concat (map (\<lambda>l. l @ [NL]) ls) @ s) = map (\<lambda>l. l @ [NL]) ls @ py_lines s"
  by (induction ls) (simp_all add: py_lines_line)

definition long_rows :: "variant \<Rightarrow> row list" where
  "long_rows v =
     (case v_samples v of
        [] \<Rightarrow> []
      | s1 # ss \<Rightarrow>
          (v_fixed v @ cols_of (v_info v) @ (''-->'' @ fst s1) # cols_of (snd s1))
          # map (\<lambda>(nm, fs). (''-->'' @ nm) # cols_of fs) ss)"

lemma py_join_snoc_groups:
  "xs \<noteq> [] \<Longrightarrow>
   py_join [TAB] xs @ concat (map (\<lambda>(nm, fs). [TAB] @ nm @ [TAB] @ py_join [TAB] fs) ss) =
   py_join [TAB] (xs @ concat (map (\<lambda>(nm, fs). nm # cols_of fs) ss))"
proof (induction ss arbitrary: xs)
  case (Cons s ss)
  obtain nm fs where s: "s = (nm, fs)" by (cases s)
  have e: "py_join [TAB] xs @ TAB # nm @ TAB # py_join [TAB] fs @ R =
            py_join [TAB] (xs @ nm # cols_of fs) @ R" for R
    using Cons.prems py_join_append[of xs "nm # cols_of fs" "[TAB]"] by (simp add: py_join_Cons)
  show ?case
    using Cons.IH[of "xs @ nm # cols_of fs"] s by (simp add: e)
qed simp

lemma engine_wide_text_row:
  "v_fixed v \<noteq> [] \<Longrightarrow> engine_wide_text v = py_join [TAB] (wide_row v) @ [NL]"
proof -
  assume f: "v_fixed v \<noteq> []"
  then have e: "py_join [TAB] (v_fixed v) @ TAB # py_join [TAB] (v_info v) @ R =
             py_join [TAB] (v_fixed v @ cols_of (v_info v)) @ R" for R
    using py_join_append[of "v_fixed v" "cols_of (v_info v)" "[TAB]"] by simp
  from f show ?thesis
    unfolding engine_wide_text_def wide_row_def
    using py_join_snoc_groups[of "v_fixed v @ cols_of (v_info v)" "v_samples v"] by (simp add: e)
qed

lemma clean_join: "list_all clean xs \<Longrightarrow> NL \<notin> set (py_join [TAB] xs)"
  by (induction "[TAB]" xs rule: py_join.induct) (auto simp: clean_def)

lemma clean_wide_row: "clean_variant v \<Longrightarrow> list_all clean (wide_row v)"
  by (auto simp: clean_variant_def wide_row_def cols_of_def clean_def list_all_iff)

lemma engine_wide_lines:
  "list_all clean_variant vs \<Longrightarrow> engine_wide vs = map (\<lambda>v. py_join [TAB] (wide_row v) @ [NL]) vs"
proof -
  assume c: "list_all clean_variant vs"
  have "\<And>v. clean_variant v \<Longrightarrow> engine_wide_text v = py_join [TAB] (wide_row v) @ [NL]"
    by (rule engine_wide_text_row) (auto simp: clean_variant_def)
  with c have m: "map engine_wide_text vs = map (\<lambda>l. l @ [NL]) (map (\<lambda>v. py_join [TAB] (wide_row v)) vs)"
    by (auto simp: list_all_iff)
  from c have nl: "\<forall>l \<in> set (map (\<lambda>v. py_join [TAB] (wide_row v)) vs). NL \<notin> set l"
    using clean_join[OF clean_wide_row] by (auto simp: list_all_iff)
  have "py_lines (concat (map (\<lambda>l. l @ [NL]) (map (\<lambda>v. py_join [TAB] (wide_row v)) vs))) =
        map (\<lambda>l. l @ [NL]) (map (\<lambda>v. py_join [TAB] (wide_row v)) vs)"
    using py_lines_concat[OF nl, of "[]"] by simp
  then show ?thesis
    by (simp only: engine_wide_def m) simp
qed

lemma long_sample_text_row:
  "long_sample_text s = py_join [TAB] ((''-->'' @ fst s) # cols_of (snd s)) @ [NL]"
  by (simp add: long_sample_text_def py_join_Cons)

lemma engine_long_text_rows:
  "v_fixed v \<noteq> [] \<Longrightarrow> v_samples v \<noteq> [] \<Longrightarrow>
   engine_long_text v = concat (map (\<lambda>r. py_join [TAB] r @ [NL]) (long_rows v))"
proof -
  assume f: "v_fixed v \<noteq> []" and ns: "v_samples v \<noteq> []"
  then obtain s1 ss where ss: "v_samples v = s1 # ss" by (cases "v_samples v") auto
  have e: "py_join [TAB] (v_fixed v) @ TAB # py_join [TAB] (v_info v) @ TAB # CHR ''-'' # CHR ''-''
          # CHR ''>'' # fst s1 @ TAB # py_join [TAB] (snd s1) @ R =
        py_join [TAB] (v_fixed v @ cols_of (v_info v) @ (''-->'' @ fst s1) # cols_of (snd s1)) @ R" for R
    using f py_join_append[of "v_fixed v" "cols_of (v_info v) @ (''-->'' @ fst s1) # cols_of (snd s1)" "[TAB]"]
      py_join_append[of "cols_of (v_info v)" "(''-->'' @ fst s1) # cols_of (snd s1)" "[TAB]"]
    by (simp add: py_join_Cons)
  moreover have m: "map long_sample_text ss =
      map (\<lambda>r. py_join [TAB] r @ [NL]) (map (\<lambda>(nm, fs). (''-->'' @ nm) # cols_of fs) ss)"
    by (auto simp: long_sample_text_row)
  ultimately show ?thesis
    by (simp add: engine_long_text_def long_rows_def ss long_sample_text_def[of s1] e m del: map_map)
qed

lemma clean_cols_of: "list_all clean xs \<Longrightarrow> list_all clean (cols_of xs)"
  by (simp add: cols_of_def clean_def)

lemma clean_sentinel: "clean nm \<Longrightarrow> clean (''-->'' @ nm)"
  by (simp add: clean_def)

lemma clean_row_valid: "list_all clean r \<Longrightarrow> utf8_valid (py_join [TAB] r @ [NL])"
  by (auto simp: clean_def list_all_iff intro!: utf8_valid_append utf8_valid_join)

lemma clean_long_rows:
  "clean_variant v \<Longrightarrow> r \<in> set (long_rows v) \<Longrightarrow> NL \<notin> set (py_join [TAB] r)"
proof -
  assume c: "clean_variant v" and r: "r \<in> set (long_rows v)"
  then obtain s1 ss where ss: "v_samples v = s1 # ss"
    by (cases "v_samples v") (auto simp: long_rows_def)
  from c ss have cs: "\<forall>(nm, fs) \<in> set (s1 # ss). clean nm \<and> list_all clean fs"
    by (auto simp: clean_variant_def list_all_iff)
  have "list_all clean r"
  proof (cases "r \<in> set (map (\<lambda>(nm, fs). (''-->'' @ nm) # cols_of fs) ss)")
    case True
    with cs show ?thesis by (auto simp: clean_def cols_of_def)
  next
    case False
    with r ss have "r = v_fixed v @ cols_of (v_info v) @ (''-->'' @ fst s1) # cols_of (snd s1)"
      by (simp add: long_rows_def)
    with c cs show ?thesis
      by (cases s1) (auto simp: clean_variant_def intro: clean_cols_of, simp add: clean_def)
  qed
  then show ?thesis by (rule clean_join)
qed

lemma engine_long_lines:
  "list_all (\<lambda>v. clean_variant v \<and> v_samples v \<noteq> []) vs \<Longrightarrow>
   engine_long vs = concat (map (\<lambda>v. map (\<lambda>r. py_join [TAB] r @ [NL]) (long_rows v)) vs)"
proof (induction vs)
  case (Cons v vs)
  then have f: "v_fixed v \<noteq> []" and ns: "v_samples v \<noteq> []"
    by (auto simp: clean_variant_def)
  have nl: "\<forall>l \<in> set (map (py_join [TAB]) (long_rows v)). NL \<notin> set l"
    using Cons.prems clean_long_rows by auto
  have "engine_long (v # vs) =
      py_lines (concat (map (\<lambda>l. l @ [NL]) (map (py_join [TAB]) (long_rows v)))
                @ concat (map engine_long_text vs))"
    by (simp add: engine_long_def engine_long_text_rows[OF f ns] comp_def)
  also have "\<dots> = map (\<lambda>r. py_join [TAB] r @ [NL]) (long_rows v) @ engine_long vs"
    using py_lines_concat[OF nl] by (simp add: engine_long_def comp_def)
  finally show ?case using Cons by simp
qed (simp add: engine_long_def)

subsection \<open>The engine prints UTF-8\<close>

lemma py_lines_valid: "utf8_valid s \<Longrightarrow> list_all utf8_valid (py_lines s)"
proof (induction s rule: py_lines.induct)
  case (1 s)
  show ?case
  proof (cases "NL \<in> set s")
    case True
    then obtain X rest where s: "s = X @ NL # rest" and x: "NL \<notin> set X"
      by (blast dest: split_list_first)
    have r: "tl (dropWhile (\<lambda>c. c \<noteq> NL) s) = rest" using s x by (simp add: dropWhile_append)
    from "1.prems" s have v: "utf8_valid X" "utf8_valid rest"
      using utf8_valid_split_ascii[of X NL rest] by simp_all
    have "list_all utf8_valid (py_lines rest)"
      using "1.IH" True s v(2) r by auto
    with s x v(1) show ?thesis by (simp add: py_lines_line utf8_valid_append)
  next
    case False
    with "1.prems" show ?thesis by (simp add: py_lines.simps[of s])
  qed
qed

lemma engine_texts_valid:
  assumes "clean_variant v"
  shows "utf8_valid (engine_wide_text v)" "utf8_valid (engine_long_text v)"
proof -
  have f: "\<forall>x \<in> set (v_fixed v). utf8_valid x" "\<forall>x \<in> set (v_info v). utf8_valid x"
    and s: "\<forall>p \<in> set (v_samples v). utf8_valid (fst p) \<and> (\<forall>x \<in> set (snd p). utf8_valid x)"
    using assms by (auto simp: clean_variant_def list_all_iff clean_def split: prod.splits)
  show "utf8_valid (engine_wide_text v)"
    using f s unfolding engine_wide_text_def
    by (auto intro!: utf8_valid_append utf8_valid_join utf8_valid_concat) (metis fst_conv)
  show "utf8_valid (engine_long_text v)"
    using f s unfolding engine_long_text_def long_sample_text_def
    by (auto intro!: utf8_valid_append utf8_valid_join utf8_valid_concat) (metis fst_conv)
qed

lemma engine_lines_valid:
  assumes "\<forall>v \<in> set vs. clean_variant v"
  shows "list_all utf8_valid (engine_wide vs)" "list_all utf8_valid (engine_long vs)"
  using assms engine_texts_valid
  by (auto simp: engine_wide_def engine_long_def intro!: py_lines_valid utf8_valid_concat)

end
