(* ===== verification/Pipeline.thy ===== *)
theory Pipeline
  imports Transformer Engine
begin

text \<open>
  The transformer run on the engine's output.  The lemmas here take the loop of
  \<open>Transformer\<close> through the lines that the engine model of \<open>Engine\<close> prints for a
  list of variants, one branch of \<open>process_line\<close> at a time: the header line,
  the long-format header continuation lines, fresh variant rows and continuation
  rows.  They assume values free of tabs and newlines (\<open>clean\<close>) and of the
  sentinel text \<open>-->\<close>.
\<close>

definition no_sentinel :: "string \<Rightarrow> bool" where
  "no_sentinel x \<longleftrightarrow> \<not> occurs ''-->'' x"

definition variant_ok :: "nat \<Rightarrow> nat \<Rightarrow> nat \<Rightarrow> variant \<Rightarrow> bool" where
  "variant_ok n_info n_format n_samples v \<longleftrightarrow>
     clean_variant v \<and> length (v_info v) = n_info \<and> length (v_samples v) = n_samples
     \<and> list_all no_sentinel (v_fixed v) \<and> list_all no_sentinel (v_info v)
     \<and> list_all (\<lambda>(nm, fs). no_sentinel nm \<and> list_all no_sentinel fs \<and> length fs = n_format)
          (v_samples v)"

text \<open>
  The carry-over of a continuation row of \<open>Suc (max 1 n_format)\<close> columns keeps
  every column exactly when the slice start \<open>len(parts) - len(fill_fields)\<close> names
  position 0.
\<close>

definition carry_ok :: "nat \<Rightarrow> nat \<Rightarrow> bool" where
  "carry_ok n_info n_format \<longleftrightarrow>
     (let l = Suc (max 1 n_format) in 2 * l \<le> 7 + n_info \<or> l = 7 + n_info)"

definition long_out_rows :: "variant \<Rightarrow> string list" where
  "long_out_rows v = map (\<lambda>(nm, fs). py_join [TAB] (v_fixed v @ v_info v @ nm # cols_of fs)) (v_samples v)"

subsection \<open>Strings\<close>

lemma startswith_occurs: "py_startswith x w \<Longrightarrow> occurs w x"
  by (cases x) (auto simp: py_startswith_def)

lemma no_sentinel_split: "no_sentinel s \<Longrightarrow> w \<in> set (py_split c s) \<Longrightarrow> no_sentinel w"
  unfolding no_sentinel_def using py_split_infix occurs_infix by metis

lemma replace_sentinel: "no_sentinel nm \<Longrightarrow> py_replace ''-->'' [] (''-->'' @ nm) = nm"
  by (simp add: no_sentinel_def py_replace_no_occurs)

lemma replace_no_sentinel: "no_sentinel x \<Longrightarrow> py_replace ''-->'' [] x = x"
  by (simp add: no_sentinel_def py_replace_no_occurs)

lemma replace_row:
  "list_all no_sentinel xs \<Longrightarrow> py_replace ''-->'' [] (py_join [TAB] xs) = py_join [TAB] xs"
proof -
  assume a: "list_all no_sentinel xs"
  have "map (py_replace ''-->'' []) xs = xs"
    using a by (induction xs) (auto simp: no_sentinel_def py_replace_no_occurs)
  then show ?thesis by (simp add: py_replace_join)
qed

lemma strip_split_clean:
  "list_all clean r \<Longrightarrow> r \<noteq> [] \<Longrightarrow> py_split TAB (py_strip [NL] (py_join [TAB] r @ [NL])) = r"
proof -
  assume c: "list_all clean r" and ne: "r \<noteq> []"
  have "NL \<notin> set (py_join [TAB] r)" using c by (rule clean_join)
  then have "py_strip [NL] (py_join [TAB] r @ [NL]) = py_join [TAB] r"
    by (simp add: py_strip_snoc)
  moreover have "\<forall>x \<in> set r. TAB \<notin> set x" using c by (auto simp: list_all_iff clean_def)
  ultimately show ?thesis using ne by simp
qed

subsection \<open>Branches of one iteration\<close>

lemma process_line_long_skip:
  "ofmt cv = long \<Longrightarrow> line_no st < length (samples cv) \<Longrightarrow> \<not> (line_no st = 0 \<and> print_header cv) \<Longrightarrow> utf8_valid line \<Longrightarrow>
   process_line cv st line = Inr (st\<lparr>line_no := Suc (line_no st)\<rparr>)"
  by (auto simp: process_line_def Let_def)

lemma process_line_long_header:
  "ofmt cv = long \<Longrightarrow> print_header cv \<Longrightarrow> line_no st = 0 \<Longrightarrow> utf8_valid line \<Longrightarrow>
   process_line cv st line = Inr (st\<lparr>line_no := 1,
     printed := printed st @ [render_header_long (ann_loc cv) (length (format_fields cv)) line]\<rparr>)"
  by (simp add: process_line_def Let_def)

lemma process_line_long_data:
  "ofmt cv = long \<Longrightarrow> length (samples cv) \<le> line_no st \<Longrightarrow> \<not> (line_no st = 0 \<and> print_header cv) \<Longrightarrow> utf8_valid line \<Longrightarrow>
   process_line cv st line =
     (case long_data_line (ann_loc cv) (length (info_fields cv)) (fill_fields st) line of
        Inl e \<Rightarrow> Inl e
      | Inr (outs, fill') \<Rightarrow>
          Inr (st\<lparr>line_no := Suc (line_no st), fill_fields := fill', printed := printed st @ outs\<rparr>))"
  by (auto simp: process_line_def Let_def)

lemma process_line_wide_data:
  "ofmt cv = wide \<Longrightarrow> \<not> (line_no st = 0 \<and> print_header cv) \<Longrightarrow> utf8_valid line \<Longrightarrow>
   process_line cv st line =
     (case wide_data_line (ann_loc cv) line of
        Inl e \<Rightarrow> Inl e
      | Inr outs \<Rightarrow> Inr (st\<lparr>line_no := Suc (line_no st), printed := printed st @ outs\<rparr>))"
  by (auto simp: process_line_def Let_def)

lemma process_line_wide_header:
  "ofmt cv = wide \<Longrightarrow> print_header cv \<Longrightarrow> line_no st = 0 \<Longrightarrow> utf8_valid line \<Longrightarrow>
   process_line cv st line = Inr (st\<lparr>line_no := 1,
     printed := printed st @ [render_header_wide (ann_loc cv) line]\<rparr>)"
  by (simp add: process_line_def Let_def)

subsection \<open>Long format: the rows of one variant\<close>

lemma no_sentinel_map_replace:
  "list_all no_sentinel xs \<Longrightarrow> map (py_replace ''-->'' []) xs = xs"
  by (induction xs) (auto simp: no_sentinel_def py_replace_no_occurs)

lemma sample_rows_valid:
  assumes "variant_ok n_info n_format n_samples v" "(nm, fs) \<in> set (v_samples v)"
  shows "utf8_valid (py_join [TAB] ((''-->'' @ nm) # cols_of fs) @ [NL])"
    "utf8_valid (py_join [TAB] (v_fixed v @ cols_of (v_info v) @ (''-->'' @ nm) # cols_of fs) @ [NL])"
proof -
  from assms have c: "clean nm" "list_all clean fs" "list_all clean (v_fixed v)" "list_all clean (v_info v)"
    by (fastforce simp: variant_ok_def clean_variant_def list_all_iff)+
  then show "utf8_valid (py_join [TAB] ((''-->'' @ nm) # cols_of fs) @ [NL])"
    "utf8_valid (py_join [TAB] (v_fixed v @ cols_of (v_info v) @ (''-->'' @ nm) # cols_of fs) @ [NL])"
    by (auto simp: clean_def cols_of_def list_all_iff intro!: clean_row_valid utf8_valid_append)
qed

lemma long_fresh_row:
  assumes v: "variant_ok n_info n_format n_samples v"
    and ss: "v_samples v = (nm, fs) # rest"
  shows "long_data_line None n_info fill
           (py_join [TAB] (v_fixed v @ cols_of (v_info v) @ (''-->'' @ nm) # cols_of fs) @ [NL]) =
         Inr ([py_join [TAB] (v_fixed v @ cols_of (v_info v) @ nm # cols_of fs)], v_fixed v @ v_info v)"
proof -
  let ?r = "v_fixed v @ cols_of (v_info v) @ (''-->'' @ nm) # cols_of fs"
  from v ss have c: "list_all clean ?r"
    by (auto simp: variant_ok_def clean_variant_def cols_of_def clean_def list_all_iff)
  from v have len: "length (v_fixed v) = 7" and li: "length (v_info v) = n_info"
    by (auto simp: variant_ok_def clean_variant_def)
  from v ss have nsf: "list_all no_sentinel (v_fixed v)" and nsi: "list_all no_sentinel (v_info v)"
    and nsn: "no_sentinel nm" and nss: "list_all no_sentinel fs"
    by (auto simp: variant_ok_def)
  from len obtain c0 cs where fx: "v_fixed v = c0 # cs" by (cases "v_fixed v") auto
  with nsf have "\<not> py_startswith c0 ''-->''"
    using startswith_occurs by (auto simp: no_sentinel_def)
  then have hd: "\<not> py_startswith (hd ?r) ''-->''" by (simp add: fx)
  have tk: "take (7 + n_info) ?r = v_fixed v @ v_info v"
    using len li by (cases "v_info v = []") (simp_all add: cols_of_def)
  have lp: "long_parts n_info fill ?r = (?r, v_fixed v @ v_info v)"
    using long_parts_fresh[OF hd, of n_info fill] tk by simp
  have "list_all no_sentinel (cols_of (v_info v))" "list_all no_sentinel (cols_of fs)"
    using nsi nss by (auto simp: cols_of_def no_sentinel_def)
  then have "map (py_replace ''-->'' []) ?r = v_fixed v @ cols_of (v_info v) @ nm # cols_of fs"
    using nsf nsn by (simp add: no_sentinel_map_replace replace_sentinel replace_no_sentinel)
  then show ?thesis
    using strip_split_clean[OF c] lp by (simp add: long_data_line_def py_replace_join)
qed

lemma long_continuation_row:
  assumes v: "variant_ok n_info n_format n_samples v" and co: "carry_ok n_info n_format"
    and s: "(nm, fs) \<in> set (v_samples v)"
    and fill: "fill = v_fixed v @ v_info v"
  shows "long_data_line None n_info fill (py_join [TAB] ((''-->'' @ nm) # cols_of fs) @ [NL]) =
         Inr ([py_join [TAB] (v_fixed v @ v_info v @ nm # cols_of fs)], fill)"
proof -
  let ?r = "(''-->'' @ nm) # cols_of fs"
  from v s have c: "list_all clean ?r"
    by (auto simp: variant_ok_def clean_variant_def cols_of_def clean_def list_all_iff)
  from v s have lf: "length fs = n_format" and nsn: "no_sentinel nm" and nss: "list_all no_sentinel fs"
    and nsf: "list_all no_sentinel (v_fixed v)" and nsi: "list_all no_sentinel (v_info v)"
    by (auto simp: variant_ok_def list_all_iff)
  from v have lfill: "length fill = 7 + n_info"
    by (simp add: fill variant_ok_def clean_variant_def)
  have lr: "length ?r = Suc (max 1 n_format)"
    using lf by (cases "fs = []") (auto simp: cols_of_def max_def Suc_le_eq)
  have "(if length ?r < length fill then 2 * length ?r - length fill else length ?r - length fill) = 0"
    using co lr lfill by (auto simp: carry_ok_def Let_def)
  then have lp: "long_parts n_info fill ?r = (fill @ ?r, fill)"
    using long_parts_continuation[of ?r n_info fill] by (simp add: py_startswith_def)
  have "map (py_replace ''-->'' []) xs = xs" if "list_all no_sentinel xs" for xs
    using that by (induction xs) (auto simp: no_sentinel_def py_replace_no_occurs)
  moreover have "list_all no_sentinel (cols_of fs)"
    using nss by (auto simp: cols_of_def no_sentinel_def)
  ultimately have "map (py_replace ''-->'' []) (fill @ ?r) = v_fixed v @ v_info v @ nm # cols_of fs"
    using nsf nsi nsn by (simp add: fill replace_no_sentinel)
  then show ?thesis
    using strip_split_clean[OF c] lp by (simp add: long_data_line_def py_replace_join)
qed

subsection \<open>Long format: runs\<close>

definition conts_in :: "(string \<times> string list) list \<Rightarrow> string list" where
  "conts_in ss = map (\<lambda>(nm, fs). py_join [TAB] ((''-->'' @ nm) # cols_of fs) @ [NL]) ss"

lemma run_long_skip:
  assumes "ofmt cv = long" and "\<not> (line_no st = 0 \<and> print_header cv)"
    and "line_no st + length xs \<le> length (samples cv)" and "list_all utf8_valid xs"
  shows "run cv st xs = (st\<lparr>line_no := line_no st + length xs\<rparr>, None)"
  using assms(2-4)
proof (induction xs arbitrary: st)
  case (Cons x xs)
  then have "process_line cv st x = Inr (st\<lparr>line_no := Suc (line_no st)\<rparr>)"
    using assms(1) by (intro process_line_long_skip) auto
  with Cons show ?case by simp
qed simp

lemma run_long_conts:
  assumes cv: "ofmt cv = long" "ann_loc cv = None" "length (info_fields cv) = n_info"
    and v: "variant_ok n_info n_format n_samples v" and co: "carry_ok n_info n_format"
    and sub: "set ss \<subseteq> set (v_samples v)"
    and st: "length (samples cv) \<le> line_no st" "0 < line_no st" "fill_fields st = v_fixed v @ v_info v"
  shows "run cv st (conts_in ss) =
           (st\<lparr>line_no := line_no st + length ss,
                printed := printed st @ map (\<lambda>(nm, fs). py_join [TAB] (v_fixed v @ v_info v @ nm # cols_of fs)) ss\<rparr>,
            None)"
  using sub st
proof (induction ss arbitrary: st)
  case (Cons s ss)
  obtain nm fs where s: "s = (nm, fs)" by (cases s)
  with Cons.prems have "(nm, fs) \<in> set (v_samples v)" by auto
  then have "long_data_line None n_info (fill_fields st) (py_join [TAB] ((''-->'' @ nm) # cols_of fs) @ [NL]) =
             Inr ([py_join [TAB] (v_fixed v @ v_info v @ nm # cols_of fs)], fill_fields st)"
    using long_continuation_row[OF v co] Cons.prems by simp
  then have "process_line cv st (py_join [TAB] ((''-->'' @ nm) # cols_of fs) @ [NL]) =
      Inr (st\<lparr>line_no := Suc (line_no st),
              printed := printed st @ [py_join [TAB] (v_fixed v @ v_info v @ nm # cols_of fs)]\<rparr>)"
    using process_line_long_data[of cv st] cv Cons.prems sample_rows_valid(1)[OF v \<open>(nm, fs) \<in> set (v_samples v)\<close>]
    by simp
  then show ?case
    using Cons.IH[of "st\<lparr>line_no := Suc (line_no st),
              printed := printed st @ [py_join [TAB] (v_fixed v @ v_info v @ nm # cols_of fs)]\<rparr>"]
      Cons.prems by (simp add: conts_in_def s)
qed (simp add: conts_in_def)

lemma long_rows_lines:
  "v_samples v = (nm, fs) # rest \<Longrightarrow>
   map (\<lambda>r. py_join [TAB] r @ [NL]) (long_rows v) =
   (py_join [TAB] (v_fixed v @ cols_of (v_info v) @ (''-->'' @ nm) # cols_of fs) @ [NL]) # conts_in rest"
  by (simp add: long_rows_def conts_in_def comp_def split_def)

lemma run_long_variant_rows:
  assumes cv: "ofmt cv = long" "ann_loc cv = None" "length (info_fields cv) = n_info"
    "length (samples cv) = n_samples"
    and v: "variant_ok n_info n_format n_samples v" and co: "carry_ok n_info n_format"
    and ss: "v_samples v = (nm, fs) # rest"
    and st: "n_samples \<le> line_no st" "0 < line_no st"
  shows "run cv st (map (\<lambda>r. py_join [TAB] r @ [NL]) (long_rows v)) =
           (st\<lparr>line_no := line_no st + n_samples, fill_fields := v_fixed v @ v_info v,
                printed := printed st @ py_join [TAB] (v_fixed v @ cols_of (v_info v) @ nm # cols_of fs)
                  # map (\<lambda>(nm, fs). py_join [TAB] (v_fixed v @ v_info v @ nm # cols_of fs)) rest\<rparr>, None)"
proof -
  let ?st1 = "st\<lparr>line_no := Suc (line_no st), fill_fields := v_fixed v @ v_info v,
                 printed := printed st @ [py_join [TAB] (v_fixed v @ cols_of (v_info v) @ nm # cols_of fs)]\<rparr>"
  have "process_line cv st (py_join [TAB] (v_fixed v @ cols_of (v_info v) @ (''-->'' @ nm) # cols_of fs) @ [NL])
        = Inr ?st1"
    using process_line_long_data[of cv st] long_fresh_row[OF v ss] cv st sample_rows_valid(2)[OF v, of nm fs] ss
    by simp
  moreover have "run cv ?st1 (conts_in rest) =
      (?st1\<lparr>line_no := Suc (line_no st) + length rest,
        printed := printed ?st1 @ map (\<lambda>(nm, fs). py_join [TAB] (v_fixed v @ v_info v @ nm # cols_of fs)) rest\<rparr>,
       None)"
    using run_long_conts[OF cv(1,2,3) v co, of rest ?st1] cv st ss by auto
  moreover from v ss have "length rest + 1 = n_samples" by (simp add: variant_ok_def)
  ultimately show ?thesis
    by (simp add: long_rows_lines[OF ss])
qed

lemma run_long_variant:
  assumes cv: "ofmt cv = long" "ann_loc cv = None" "length (info_fields cv) = n_info"
    "length (samples cv) = n_samples"
    and ni: "0 < n_info" and v: "variant_ok n_info n_format n_samples v" and co: "carry_ok n_info n_format"
    and ns: "0 < n_samples"
    and st: "n_samples \<le> line_no st" "0 < line_no st"
  shows "run cv st (map (\<lambda>r. py_join [TAB] r @ [NL]) (long_rows v)) =
           (st\<lparr>line_no := line_no st + n_samples, fill_fields := v_fixed v @ v_info v,
                printed := printed st @ long_out_rows v\<rparr>, None)"
proof -
  from v ns obtain nm fs rest where ss: "v_samples v = (nm, fs) # rest"
    by (cases "v_samples v") (auto simp: variant_ok_def)
  from v ni have "cols_of (v_info v) = v_info v" by (auto simp: variant_ok_def cols_of_def)
  with run_long_variant_rows[OF cv v co ss st] show ?thesis
    by (simp add: long_out_rows_def ss)
qed
lemma run_long_variants:
  assumes cv: "ofmt cv = long" "ann_loc cv = None" "length (info_fields cv) = n_info"
    "length (samples cv) = n_samples"
    and ni: "0 < n_info" and vs: "list_all (variant_ok n_info n_format n_samples) vs"
    and co: "carry_ok n_info n_format" and ns: "0 < n_samples"
    and st: "n_samples \<le> line_no st"
  shows "printed (fst (run cv st (concat (map (\<lambda>v. map (\<lambda>r. py_join [TAB] r @ [NL]) (long_rows v)) vs))))
           = printed st @ concat (map long_out_rows vs)
         \<and> snd (run cv st (concat (map (\<lambda>v. map (\<lambda>r. py_join [TAB] r @ [NL]) (long_rows v)) vs))) = None"
  using vs st
proof (induction vs arbitrary: st)
  case (Cons v vs)
  let ?st' = "st\<lparr>line_no := line_no st + n_samples, fill_fields := v_fixed v @ v_info v,
                printed := printed st @ long_out_rows v\<rparr>"
  have "run cv st (map (\<lambda>r. py_join [TAB] r @ [NL]) (long_rows v)) = (?st', None)"
    using run_long_variant[OF cv ni _ co ns] Cons.prems ns by auto
  moreover have "printed (fst (run cv ?st' (concat (map (\<lambda>v. map (\<lambda>r. py_join [TAB] r @ [NL]) (long_rows v)) vs))))
        = printed ?st' @ concat (map long_out_rows vs)
      \<and> snd (run cv ?st' (concat (map (\<lambda>v. map (\<lambda>r. py_join [TAB] r @ [NL]) (long_rows v)) vs))) = None"
    using Cons by simp
  ultimately show ?case by (simp add: run_append)
qed simp

subsection \<open>Wide format: runs\<close>

lemma run_wide_plain:
  assumes cv: "ofmt cv = wide" "ann_loc cv = None" and st: "\<not> (line_no st = 0 \<and> print_header cv)"
    and u: "list_all utf8_valid ls"
  shows "run cv st ls = (st\<lparr>line_no := line_no st + length ls,
                              printed := printed st @ map (py_strip [NL]) ls\<rparr>, None)"
  using st u
proof (induction ls arbitrary: st)
  case (Cons l ls)
  have "process_line cv st l = Inr (st\<lparr>line_no := Suc (line_no st), printed := printed st @ [py_strip [NL] l]\<rparr>)"
    using process_line_wide_data[of cv st l] cv Cons.prems by (simp add: wide_data_line_def)
  then show ?case using Cons.IH[of "st\<lparr>line_no := Suc (line_no st), printed := printed st @ [py_strip [NL] l]\<rparr>"]
      Cons.prems by simp
qed simp

subsection \<open>Long format without samples\<close>

lemma join_snoc_sep: "xs \<noteq> [] \<Longrightarrow> py_join [c] xs @ [c] = concat (map (\<lambda>x. x @ [c]) xs)"
  by (induction "[c]" xs rule: py_join.induct) auto

lemma not_occurs_terminated:
  "w \<noteq> [] \<Longrightarrow> c \<notin> set w \<Longrightarrow> \<forall>x \<in> set xs. \<not> occurs w x \<Longrightarrow> \<not> occurs w (concat (map (\<lambda>x. x @ [c]) xs))"
  by (induction xs) (auto simp: occurs_sep)

lemma engine_long_text_no_samples:
  assumes "clean_variant v" "v_samples v = []"
  shows "engine_long_text v = concat (map (\<lambda>x. x @ [TAB]) (v_fixed v @ cols_of (v_info v)))"
proof -
  from assms have "v_fixed v \<noteq> []" by (auto simp: clean_variant_def)
  moreover have "py_join [TAB] (v_info v) @ [TAB] = concat (map (\<lambda>x. x @ [TAB]) (cols_of (v_info v)))"
    by (simp add: cols_of_def join_snoc_sep)
  ultimately show ?thesis
    using assms(2) join_snoc_sep[of "v_fixed v" TAB] by (simp add: engine_long_text_def)
qed

subsection \<open>The transformer on the engine's output\<close>

text \<open>
  C1.  Long format with a header line and without ANN expansion: the transformer
  turns the engine's stream (the \<open>len(samples)\<close> header lines, then for each
  variant one line with the variant columns and the first sample and one line per
  further sample) into the rendered header followed by one row per
  (variant, sample) pair, each carrying the full variant prefix, the sample name
  without its sentinel and the sample's FORMAT values.  This holds when there is
  at least one INFO field and the continuation rows are short enough for the
  carry-over slice (\<open>carry_ok\<close>).
\<close>

theorem long_format_reconstruction:
  assumes cv: "ofmt cv = long" "print_header cv" "ann_loc cv = None"
    and ni: "0 < length (info_fields cv)" and ns: "0 < length (samples cv)"
    and co: "carry_ok (length (info_fields cv)) (length (format_fields cv))"
    and vs: "list_all (variant_ok (length (info_fields cv)) (length (format_fields cv)) (length (samples cv))) vs"
    and hs: "length hs = length (samples cv)" and hv: "list_all utf8_valid hs"
  shows "printed (fst (run cv init_state (hs @ engine_long vs))) =
           render_header_long None (length (format_fields cv)) (hd hs) # concat (map long_out_rows vs)
         \<and> snd (run cv init_state (hs @ engine_long vs)) = None"
proof -
  from hs ns obtain h hs' where h: "hs = h # hs'" by (cases hs) auto
  let ?st1 = "init_state\<lparr>line_no := 1, printed := [render_header_long None (length (format_fields cv)) h]\<rparr>"
  have p1: "process_line cv init_state h = Inr ?st1"
    using process_line_long_header[of cv init_state h] cv hv h by (simp add: init_state_def)
  have r2: "run cv ?st1 hs' = (?st1\<lparr>line_no := length (samples cv)\<rparr>, None)"
    using run_long_skip[of cv ?st1 hs'] cv hs hv h by simp
  have ok: "list_all (\<lambda>v. clean_variant v \<and> v_samples v \<noteq> []) vs"
    using vs ns by (auto simp: list_all_iff variant_ok_def)
  have "printed (fst (run cv (?st1\<lparr>line_no := length (samples cv)\<rparr>) (engine_long vs))) =
          [render_header_long None (length (format_fields cv)) h] @ concat (map long_out_rows vs)
        \<and> snd (run cv (?st1\<lparr>line_no := length (samples cv)\<rparr>) (engine_long vs)) = None"
    using run_long_variants[OF cv(1,3) refl refl ni vs co ns] engine_long_lines[OF ok] by simp
  then show ?thesis
    using p1 r2 by (simp add: h run_append)
qed

theorem long_format_reconstruction_witness:
  "ofmt \<lparr>ofmt = long, print_header = True, info_fields = [''DP''], format_fields = [''GT''],
          samples = [''S1'', ''S2''], ann_loc = None\<rparr> = long
   \<and> printed (fst (run \<lparr>ofmt = long, print_header = True, info_fields = [''DP''], format_fields = [''GT''],
          samples = [''S1'', ''S2''], ann_loc = None\<rparr> init_state
       ([''h1'', ''h2''] @ engine_long [\<lparr>v_fixed = [''1'', ''100'', ''rs1'', ''A'', ''T'', ''30'', ''PASS''],
          v_info = [''7''], v_samples = [(''S1'', [''0/1'']), (''S2'', [''1/1''])]\<rparr>])))
     = [render_header_long None 1 ''h1'',
        py_join [TAB] [''1'', ''100'', ''rs1'', ''A'', ''T'', ''30'', ''PASS'', ''7'', ''S1'', ''0/1''],
        py_join [TAB] [''1'', ''100'', ''rs1'', ''A'', ''T'', ''30'', ''PASS'', ''7'', ''S2'', ''1/1'']]"
  using long_format_reconstruction[of "\<lparr>ofmt = long, print_header = True, info_fields = [''DP''],
      format_fields = [''GT''], samples = [''S1'', ''S2''], ann_loc = None\<rparr>"
      "[\<lparr>v_fixed = [''1'', ''100'', ''rs1'', ''A'', ''T'', ''30'', ''PASS''], v_info = [''7''],
        v_samples = [(''S1'', [''0/1'']), (''S2'', [''1/1''])]\<rparr>]" "[''h1'', ''h2'']"]
  by (simp add: carry_ok_def variant_ok_def clean_variant_def clean_def no_sentinel_def
      long_out_rows_def cols_of_def)

text \<open>
  C2.  Wide format with a header line and without ANN expansion: the first line
  is rendered as the header and every further line is printed as it came, less its
  newline, so each output row is the engine's row of that variant: the seven fixed
  columns, the INFO values and, per sample, its name and FORMAT values.
\<close>

theorem wide_format_passthrough:
  assumes cv: "ofmt cv = wide" "print_header cv" "ann_loc cv = None"
    and vs: "list_all clean_variant vs" and hv: "utf8_valid h"
  shows "run cv init_state (h # engine_wide vs) =
           (init_state\<lparr>line_no := Suc (length vs),
              printed := render_header_wide None h # map (\<lambda>v. py_join [TAB] (wide_row v)) vs\<rparr>, None)"
proof -
  let ?st1 = "init_state\<lparr>line_no := 1, printed := [render_header_wide None h]\<rparr>"
  have p1: "process_line cv init_state h = Inr ?st1"
    using process_line_wide_header[of cv init_state h] cv hv by (simp add: init_state_def)
  have "map (py_strip [NL]) (engine_wide vs) = map (\<lambda>v. py_join [TAB] (wide_row v)) vs"
    using vs clean_join[OF clean_wide_row]
    by (auto simp: engine_wide_lines list_all_iff py_strip_snoc)
  moreover have "list_all utf8_valid (engine_wide vs)"
    using vs by (intro engine_lines_valid(1)) (simp add: list_all_iff)
  ultimately show ?thesis
    using p1 run_wide_plain[of cv ?st1 "engine_wide vs"] cv
    by (simp add: init_state_def engine_wide_lines vs)
qed

theorem wide_format_passthrough_witness:
  "ofmt \<lparr>ofmt = wide, print_header = True, info_fields = [''DP''], format_fields = [''GT''],
          samples = [''S1''], ann_loc = None\<rparr> = wide
   \<and> run \<lparr>ofmt = wide, print_header = True, info_fields = [''DP''], format_fields = [''GT''],
          samples = [''S1''], ann_loc = None\<rparr> init_state
       (''# [1]CHROM'' # engine_wide [\<lparr>v_fixed = [''1'', ''100'', ''.'', ''A'', ''T'', ''30'', ''PASS''],
          v_info = [''7''], v_samples = [(''S1'', [''0/1''])]\<rparr>])
     = (init_state\<lparr>line_no := 2, printed := [''CHROM'',
          py_join [TAB] [''1'', ''100'', ''.'', ''A'', ''T'', ''30'', ''PASS'', ''7'', ''S1'', ''0/1'']]\<rparr>, None)"
  using wide_format_passthrough[of "\<lparr>ofmt = wide, print_header = True, info_fields = [''DP''],
      format_fields = [''GT''], samples = [''S1''], ann_loc = None\<rparr>"
      "[\<lparr>v_fixed = [''1'', ''100'', ''.'', ''A'', ''T'', ''30'', ''PASS''], v_info = [''7''],
        v_samples = [(''S1'', [''0/1''])]\<rparr>]" "''# [1]CHROM''"]
  by (simp add: clean_variant_def clean_def wide_row_def cols_of_def render_header_wide_def
      MARKER_RE_def plus_def one_of_def ms.simps(6) header_strip_chars_def py_strip_def)

text \<open>
  C3.  Long format without a header line: the first \<open>len(samples)\<close> lines of the
  stream are discarded whatever they hold, as if the engine had printed header
  lines.  Without \<^verbatim>\<open>--print-header\<close> the engine prints none, so these lines are
  the rows of the first variant, which never reach the output.
\<close>

theorem long_without_header_skips_first_lines:
  assumes "ofmt cv = long" "\<not> print_header cv" "length xs = length (samples cv)" "list_all utf8_valid xs"
  shows "run cv init_state (xs @ ys) = run cv (init_state\<lparr>line_no := length (samples cv)\<rparr>) ys"
  using run_long_skip[of cv init_state xs] assms by (simp add: run_append init_state_def)

theorem long_without_header_skips_first_lines_witness:
  "ofmt \<lparr>ofmt = long, print_header = False, info_fields = [''DP''], format_fields = [''GT''],
          samples = [''S1'', ''S2''], ann_loc = None\<rparr> = long
   \<and> length (engine_long [\<lparr>v_fixed = [''1'', ''100'', ''rs1'', ''A'', ''T'', ''30'', ''PASS''],
          v_info = [''7''], v_samples = [(''S1'', [''0/1'']), (''S2'', [''1/1''])]\<rparr>]) = 2
   \<and> list_all utf8_valid (engine_long [\<lparr>v_fixed = [''1'', ''100'', ''rs1'', ''A'', ''T'', ''30'', ''PASS''],
          v_info = [''7''], v_samples = [(''S1'', [''0/1'']), (''S2'', [''1/1''])]\<rparr>])
   \<and> printed (fst (run \<lparr>ofmt = long, print_header = False, info_fields = [''DP''], format_fields = [''GT''],
          samples = [''S1'', ''S2''], ann_loc = None\<rparr> init_state
       (engine_long [\<lparr>v_fixed = [''1'', ''100'', ''rs1'', ''A'', ''T'', ''30'', ''PASS''],
          v_info = [''7''], v_samples = [(''S1'', [''0/1'']), (''S2'', [''1/1''])]\<rparr>]))) = []"
  using long_without_header_skips_first_lines[of "\<lparr>ofmt = long, print_header = False, info_fields = [''DP''],
      format_fields = [''GT''], samples = [''S1'', ''S2''], ann_loc = None\<rparr>"
      "engine_long [\<lparr>v_fixed = [''1'', ''100'', ''rs1'', ''A'', ''T'', ''30'', ''PASS''],
          v_info = [''7''], v_samples = [(''S1'', [''0/1'']), (''S2'', [''1/1''])]\<rparr>]" "[]"]
  by (simp add: engine_long_def engine_long_text_def long_sample_text_def py_lines.simps init_state_def)

text \<open>
  C21.  With no INFO field the long template leaves an empty column between
  FILTER and the sample block, and the carry-over keeps only the seven fixed
  columns: the row of a variant's first sample has one column more (an empty one)
  than the rows of its other samples, so the columns of one table do not line up.
\<close>

theorem long_no_info_first_row_extra_column:
  assumes cv: "ofmt cv = long" "ann_loc cv = None" "info_fields cv = []" "length (samples cv) = n_samples"
    and v: "variant_ok 0 n_format n_samples v" and co: "carry_ok 0 n_format"
    and ss: "v_samples v = (nm, fs) # rest"
    and st: "n_samples \<le> line_no st" "0 < line_no st"
  shows "printed (fst (run cv st (map (\<lambda>r. py_join [TAB] r @ [NL]) (long_rows v)))) =
           printed st @ py_join [TAB] (v_fixed v @ [] # nm # cols_of fs)
             # map (\<lambda>(nm, fs). py_join [TAB] (v_fixed v @ nm # cols_of fs)) rest"
proof -
  from v have "v_info v = []" by (simp add: variant_ok_def)
  with run_long_variant_rows[OF cv(1,2) _ cv(4) v co ss st] cv(3) show ?thesis
    by (simp add: cols_of_def)
qed

theorem long_no_info_first_row_extra_column_witness:
  "printed (fst (run \<lparr>ofmt = long, print_header = True, info_fields = [], format_fields = [''GT''], samples = [''S1'', ''S2''], ann_loc = None\<rparr> (init_state\<lparr>line_no := 2\<rparr>) (map (\<lambda>r. py_join [TAB] r @ [NL]) (long_rows \<lparr>v_fixed = [''1'', ''100'', ''rs1'', ''A'', ''T'', ''30'', ''PASS''], v_info = [], v_samples = [(''S1'', [''0/1'']), (''S2'', [''1/1''])]\<rparr>)))) =
     [py_join [TAB] [''1'', ''100'', ''rs1'', ''A'', ''T'', ''30'', ''PASS'', [], ''S1'', ''0/1''],
      py_join [TAB] [''1'', ''100'', ''rs1'', ''A'', ''T'', ''30'', ''PASS'', ''S2'', ''1/1'']]"
  using long_no_info_first_row_extra_column[of "\<lparr>ofmt = long, print_header = True, info_fields = [], format_fields = [''GT''], samples = [''S1'', ''S2''], ann_loc = None\<rparr>" 2 1 "\<lparr>v_fixed = [''1'', ''100'', ''rs1'', ''A'', ''T'', ''30'', ''PASS''], v_info = [], v_samples = [(''S1'', [''0/1'']), (''S2'', [''1/1''])]\<rparr>" "''S1''" "[''0/1'']" "[(''S2'', [''1/1''])]"
      "init_state\<lparr>line_no := 2\<rparr>"]
  by (simp add: variant_ok_def clean_variant_def clean_def no_sentinel_def carry_ok_def cols_of_def init_state_def)

text \<open>
  C22.  The long template ends its line inside the per-sample block
  (\<open>[-->%SAMPLE\t...\n]\<close>), so for a VCF without samples bcftools prints no newline
  at all: all the variants arrive as one line and come out as a single row holding
  the columns of every variant, instead of one row per variant.
\<close>

theorem long_sites_only_one_row:
  assumes cv: "ofmt cv = long" "ann_loc cv = None" "samples cv = []" and st: "0 < line_no st"
    and vs: "vs \<noteq> []" "\<forall>v \<in> set vs. variant_ok n_info n_format 0 v"
  shows "printed (fst (run cv st (engine_long vs))) = printed st @ [concat (map engine_long_text vs)]
         \<and> snd (run cv st (engine_long vs)) = None"
proof -
  let ?X = "concat (map engine_long_text vs)"
  let ?vals = "concat (map (\<lambda>v. v_fixed v @ cols_of (v_info v)) vs)"
  have x: "?X = concat (map (\<lambda>x. x @ [TAB]) ?vals)"
    using vs(2) by (induction vs) (auto simp: engine_long_text_no_samples variant_ok_def)
  have cl: "\<forall>x \<in> set ?vals. clean x \<and> no_sentinel x"
    using vs(2) by (auto simp: variant_ok_def clean_variant_def list_all_iff cols_of_def clean_def no_sentinel_def)
  obtain v vs' where v: "vs = v # vs'" using vs(1) by (cases vs) auto
  with vs(2) obtain c0 cs where c0: "v_fixed v = c0 # cs"
    by (cases "v_fixed v") (auto simp: variant_ok_def clean_variant_def)
  have nl: "NL \<notin> set ?X" using cl unfolding x by (auto simp: clean_def)
  have ne: "?X \<noteq> []" using x v c0 by simp
  have lines: "engine_long vs = [?X]"
    using nl ne by (simp add: engine_long_def py_lines.simps)
  have c0ok: "clean c0 \<and> no_sentinel c0" using cl v c0 by auto
  have "?X = c0 @ TAB # concat (map (\<lambda>x. x @ [TAB]) (cs @ cols_of (v_info v) @ concat (map (\<lambda>v. v_fixed v @ cols_of (v_info v)) vs')))"
    using x v c0 by simp
  then have hd: "\<not> py_startswith (hd (py_split TAB (py_strip [NL] ?X))) ''-->''"
    using c0ok nl startswith_occurs by (auto simp: py_strip_free py_split_append_sep clean_def no_sentinel_def)
  have "\<not> occurs ''-->'' ?X"
    unfolding x by (rule not_occurs_terminated) (use cl in \<open>auto simp: no_sentinel_def\<close>)
  then have "long_data_line None (length (info_fields cv)) (fill_fields st) ?X =
             Inr ([?X], take (7 + length (info_fields cv)) (py_split TAB ?X))"
    using long_parts_fresh[OF hd] nl
    by (simp add: long_data_line_def py_strip_free py_replace_no_occurs py_upto_nat)
  moreover have "utf8_valid ?X"
    unfolding x using cl by (auto intro!: utf8_valid_concat utf8_valid_append simp: clean_def)
  ultimately show ?thesis
    using cv st by (simp add: lines process_line_def Let_def)
qed

theorem long_sites_only_one_row_witness:
  "printed (fst (run \<lparr>ofmt = long, print_header = True, info_fields = [''DP''], format_fields = [''GT''], samples = [], ann_loc = None\<rparr> (init_state\<lparr>line_no := 1\<rparr>) (engine_long [\<lparr>v_fixed = [''1'', ''100'', ''rs1'', ''A'', ''T'', ''30'', ''PASS''], v_info = [''7''], v_samples = []\<rparr>, \<lparr>v_fixed = [''1'', ''200'', ''rs2'', ''G'', ''C'', ''50'', ''PASS''], v_info = [''9''], v_samples = []\<rparr>]))) =
     [py_join [TAB] [''1'', ''100'', ''rs1'', ''A'', ''T'', ''30'', ''PASS'', ''7'',
                     ''1'', ''200'', ''rs2'', ''G'', ''C'', ''50'', ''PASS'', ''9''] @ [TAB]]"
  using long_sites_only_one_row[of "\<lparr>ofmt = long, print_header = True, info_fields = [''DP''], format_fields = [''GT''], samples = [], ann_loc = None\<rparr>" "init_state\<lparr>line_no := 1\<rparr>" "[\<lparr>v_fixed = [''1'', ''100'', ''rs1'', ''A'', ''T'', ''30'', ''PASS''], v_info = [''7''], v_samples = []\<rparr>, \<lparr>v_fixed = [''1'', ''200'', ''rs2'', ''G'', ''C'', ''50'', ''PASS''], v_info = [''9''], v_samples = []\<rparr>]" 1 1]
  by (simp add: variant_ok_def clean_variant_def clean_def no_sentinel_def engine_long_text_def init_state_def)

text \<open>
  C26.  In long format the sentinel is removed from the whole printed row and
  not only from the first column: a fresh variant row is printed with every
  occurrence of \<open>-->\<close> deleted from every column, so a value that contains
  \<open>-->\<close> is changed (lines 171 and 173, \<open>.replace("-->", "")\<close>).
\<close>

theorem long_row_drops_every_arrow:
  assumes "ofmt cv = long" "ann_loc cv = None" "length (samples cv) \<le> line_no st" "0 < line_no st"
    and "list_all clean cols" "cols \<noteq> []" "\<not> py_startswith (hd cols) ''-->''"
  shows "process_line cv st (py_join [TAB] cols @ [NL]) =
           Inr (st\<lparr>line_no := Suc (line_no st), fill_fields := take (7 + length (info_fields cv)) cols,
                  printed := printed st @ [py_join [TAB] (map (py_replace ''-->'' []) cols)]\<rparr>)"
  using assms py_upto_nat[of cols "7 + length (info_fields cv)"] clean_row_valid[OF assms(5)]
  by (simp add: process_line_long_data long_data_line_def long_parts_def strip_split_clean
      py_replace_join py_simps)

theorem long_row_drops_every_arrow_witness:
  "process_line \<lparr>ofmt = long, print_header = False, info_fields = [], format_fields = [],
                  samples = [''S1''], ann_loc = None\<rparr>
     \<lparr>line_no = 1, fill_fields = [], printed = []\<rparr> (py_join [TAB] [''chr1'', ''A-->B''] @ [NL]) =
   Inr \<lparr>line_no = 2, fill_fields = [''chr1'', ''A-->B''], printed = [''chr1'' @ [TAB] @ ''AB'']\<rparr>"
  using long_row_drops_every_arrow[of "\<lparr>ofmt = long, print_header = False, info_fields = [], format_fields = [],
                  samples = [''S1''], ann_loc = None\<rparr>" "\<lparr>line_no = 1, fill_fields = [], printed = []\<rparr>"
      "[''chr1'', ''A-->B'']"]
  by (simp add: clean_def py_startswith_def)

text \<open>
  C29.  Long format with ANN expansion, ANN being the last INFO field (where
  snpEff puts it): the column after ANN is the \<open>-->SAMPLE\<close> column, and the
  splice \<open>parts[:ann_loc-1] + fields + parts[ann_loc+2:]\<close> drops it together with
  the INFO value before ANN.  Each fanned-out row is the variant columns up to
  that value, the record's fields and the sample's FORMAT values: the sample's
  name is in none of them.
\<close>

theorem long_ann_last_drops_sample:
  assumes cv: "ofmt cv = long" "ann_loc cv = Some (7 + length is)"
    and st: "length (samples cv) \<le> line_no st" "0 < line_no st"
    and c: "length fx = 7" "list_all clean (fx @ is @ a # nm # fs)" "list_all no_sentinel (fx @ is @ a # nm # fs)"
  shows "process_line cv st (py_join [TAB] (fx @ is @ a # (''-->'' @ nm) # fs) @ [NL]) =
           Inr (st\<lparr>line_no := Suc (line_no st),
                  fill_fields := take (7 + length (info_fields cv)) (fx @ is @ a # (''-->'' @ nm) # fs),
                  printed := printed st @ map (\<lambda>r. py_join [TAB] (take (6 + length is) (fx @ is) @ py_split CHR ''|'' r @ fs))
                                            (py_split CHR '','' a)\<rparr>)"
proof -
  let ?P = "fx @ is @ a # (''-->'' @ nm) # fs"
  have cP: "list_all clean ?P" using c(2) clean_sentinel by auto
  then have u: "utf8_valid (py_join [TAB] ?P @ [NL])" by (rule clean_row_valid)
  have sp: "py_split TAB (py_strip [NL] (py_join [TAB] ?P @ [NL])) = ?P"
    using strip_split_clean[OF cP] by simp
  obtain f0 fx' where fx: "fx = f0 # fx'" using c(1) by (cases fx) auto
  have hd: "\<not> py_startswith (hd ?P) ''-->''"
    using c(3) fx startswith_occurs by (auto simp: no_sentinel_def)
  have k: "1 \<le> 7 + length is" "7 + length is < length ?P" using c(1) by simp_all
  have ar: "ann_rows (7 + length is) ?P =
      Inr (map (\<lambda>ve. take (6 + length is) (fx @ is) @ py_split CHR ''|'' ve @ fs) (py_split CHR '','' a))"
    using ann_rows_eq[OF k] c(1) by (simp add: nth_append)
  have row: "py_replace ''-->'' [] (py_strip [NL] (py_join [TAB] (take (6 + length is) (fx @ is) @ py_split CHR ''|'' ve @ fs)))
             = py_join [TAB] (take (6 + length is) (fx @ is) @ py_split CHR ''|'' ve @ fs)"
    if ve: "ve \<in> set (py_split CHR '','' a)" for ve
  proof -
    let ?R = "take (6 + length is) (fx @ is) @ py_split CHR ''|'' ve @ fs"
    have "\<forall>x \<in> set ?R. NL \<notin> set x \<and> no_sentinel x"
    proof
      fix x assume x: "x \<in> set ?R"
      show "NL \<notin> set x \<and> no_sentinel x"
      proof (cases "x \<in> set (py_split CHR ''|'' ve)")
        case True
        have "set x \<subseteq> set a" using py_split_parts_subset[OF True] py_split_parts_subset[OF ve] by blast
        moreover have "no_sentinel x" using no_sentinel_split[OF no_sentinel_split[OF _ ve] True] c(3) by simp
        ultimately show ?thesis using c(2) by (auto simp: clean_def)
      next
        case False
        with x have "x \<in> set (fx @ is @ fs)" by (auto dest: in_set_takeD)
        then show ?thesis using c(2,3) by (auto simp: list_all_iff clean_def)
      qed
    qed
    then have "NL \<notin> set (py_join [TAB] ?R)" "list_all no_sentinel ?R"
      using set_py_join[of "[TAB]" ?R] by (auto simp: list_all_iff)
    then show ?thesis
      by (simp add: py_strip_free py_replace_join no_sentinel_map_replace)
  qed
  show ?thesis
    using process_line_long_data[of cv st] cv st u sp hd ar row
    by (simp add: long_data_line_def long_parts_fresh)
qed

theorem long_ann_last_drops_sample_witness:
  "process_line \<lparr>ofmt = long, print_header = False, info_fields = [''DP'', ''ANN''], format_fields = [''GT''], samples = [''S1''], ann_loc = Some 8\<rparr> \<lparr>line_no = 1, fill_fields = [], printed = []\<rparr>
     (py_join [TAB] ([''1'', ''100'', ''rs1'', ''A'', ''T'', ''30'', ''PASS''] @ [''5''] @ ''A|x|y,G|z'' # ''-->S1'' # [''0/1'']) @ [NL]) =
   Inr \<lparr>line_no = 2, fill_fields = [''1'', ''100'', ''rs1'', ''A'', ''T'', ''30'', ''PASS''] @ [''5'', ''A|x|y,G|z''],
        printed = [py_join [TAB] ([''1'', ''100'', ''rs1'', ''A'', ''T'', ''30'', ''PASS''] @ [''A'', ''x'', ''y'', ''0/1'']),
                   py_join [TAB] ([''1'', ''100'', ''rs1'', ''A'', ''T'', ''30'', ''PASS''] @ [''G'', ''z'', ''0/1''])]\<rparr>"
  using long_ann_last_drops_sample[of "\<lparr>ofmt = long, print_header = False, info_fields = [''DP'', ''ANN''], format_fields = [''GT''], samples = [''S1''], ann_loc = Some 8\<rparr>" "[''5'']" "\<lparr>line_no = 1, fill_fields = [], printed = []\<rparr>" "[''1'', ''100'', ''rs1'', ''A'', ''T'', ''30'', ''PASS'']" "''A|x|y,G|z''" "''S1''" "[''0/1'']"]
  by (simp add: clean_def no_sentinel_def)

end
