(* ===== verification/Regex_Det.thy ===== *)
theory Regex_Det
  imports Regex
begin

text \<open>
  When a group of a pattern can end in only one place, the backtracking matcher
  \<open>ms\<close> behaves deterministically there.  The lemmas of this theory say when that
  is so for the groups the header patterns of \<^verbatim>\<open>cli.py\<close> use: a character class
  repeated with \<open>+\<close> or \<open>*\<close> and followed by a literal that the class cannot
  start, and \<open>.+\<close> or \<open>.*\<close> followed by a literal that occurs only once in the rest
  of the line.  They also give \<open>re.finditer\<close> with a pattern anchored by \<open>^\<close> under
  \<open>re.MULTILINE\<close> on text made of whole lines.
\<close>

subsection \<open>Character classes followed by a literal\<close>

lemma digit_chr: "digit = Chr is_digit"
  by (simp add: digit_def one_of_def is_digit_def fun_eq_iff)

lemma filter_map_grp:
  "filter (\<lambda>(c', s'). Q s') (map (\<lambda>(c', s'). (g c' s', s')) L) =
   map (\<lambda>(c', s'). (g c' s', s')) (filter (\<lambda>(c', s'). Q s') L)"
  by (induction L) auto

lemma filter_map_Pair:
  "filter (\<lambda>(c', s'). Q s') (map (Pair c) L) = map (Pair c) (filter Q L)"
  by (induction L) auto

lemma ms_plus_chr:
  "ms (plus (Chr P)) c (y # ys) = (if P y then map (Pair c) (rests P ys) else [])"
  by (simp add: plus_def ms_star_chr)

lemma dropWhile_append_stop:
  "\<forall>a \<in> set u. P a \<Longrightarrow> w \<noteq> [] \<Longrightarrow> \<not> P (hd w) \<Longrightarrow> dropWhile P (u @ w @ t) = w @ t"
  by (cases w) (simp_all add: dropWhile_append1)

lemma star_chr_det:
  assumes "\<forall>a \<in> set u. P a" "w \<noteq> []" "\<not> P (hd w)"
  shows "filter (\<lambda>(c', s'). take (length w) s' = w) (ms (Star (Chr P)) c (u @ w @ t)) = [(c, w @ t)]"
proof -
  have "filter (\<lambda>s'. take (length w) s' = w) (rests P (u @ w @ t)) = [w @ t]"
    using filter_rests_stop[of w P "u @ w @ t", OF assms(2,3)] dropWhile_append_stop[OF assms] by simp
  then show ?thesis by (simp add: ms_star_chr filter_map_Pair)
qed

lemma filter_ms_Grp:
  "filter (\<lambda>(c', s'). Q s') (ms (Grp n r) c s) =
   map (\<lambda>(c', s'). (c'(n \<mapsto> take (length s - length s') s), s')) (filter (\<lambda>(c', s'). Q s') (ms r c s))"
  by (simp only: ms.simps(7) filter_map_grp)

lemma plus_chr_det:
  assumes "u \<noteq> []" "\<forall>a \<in> set u. P a" "w \<noteq> []" "\<not> P (hd w)"
  shows "filter (\<lambda>(c', s'). take (length w) s' = w) (ms (plus (Chr P)) c (u @ w @ t)) = [(c, w @ t)]"
proof -
  obtain a u' where u: "u = a # u'" using assms(1) by (cases u) auto
  have "filter (\<lambda>s'. take (length w) s' = w) (rests P (u' @ w @ t)) = [w @ t]"
    using filter_rests_stop[of w P "u' @ w @ t", OF assms(3,4)] dropWhile_append_stop[of u' P w t] assms u
    by simp
  then show ?thesis using assms(2) u by (simp add: ms_plus_chr filter_map_Pair)
qed

lemma grp_star_chr_det:
  assumes "\<forall>a \<in> set u. P a" "w \<noteq> []" "\<not> P (hd w)"
  shows "filter (\<lambda>(c', s'). take (length w) s' = w) (ms (Grp n (Star (Chr P))) c (u @ w @ t)) =
           [(c(n \<mapsto> u), w @ t)]"
  by (simp only: filter_ms_Grp star_chr_det[OF assms]) simp

lemma grp_plus_chr_det:
  assumes "u \<noteq> []" "\<forall>a \<in> set u. P a" "w \<noteq> []" "\<not> P (hd w)"
  shows "filter (\<lambda>(c', s'). take (length w) s' = w) (ms (Grp n (plus (Chr P))) c (u @ w @ t)) =
           [(c(n \<mapsto> u), w @ t)]"
  by (simp only: filter_ms_Grp plus_chr_det[OF assms]) simp

lemma ms_seqs_Lit_hd: "ms (seqs (Lit w # rs)) c (w @ t) = ms (seqs rs) c t"
  by simp

subsection \<open>\<open>.+\<close> and \<open>.*\<close> up to the end of a line\<close>

lemma set_rests: "set (rests P s) = {drop i s | i. i \<le> length (takeWhile P s)}"
proof (induction s)
  case Nil
  then show ?case by simp
next
  case (Cons x xs)
  show ?case
  proof (cases "P x")
    case True
    have "{drop i (x # xs) | i. i \<le> length (takeWhile P (x # xs))} =
          {drop i xs | i. i \<le> length (takeWhile P xs)} \<union> {x # xs}"
    proof (rule set_eqI, rule iffI)
      fix y assume "y \<in> {drop i (x # xs) | i. i \<le> length (takeWhile P (x # xs))}"
      then obtain i where "y = drop i (x # xs)" "i \<le> length (takeWhile P (x # xs))" by blast
      with True show "y \<in> {drop i xs | i. i \<le> length (takeWhile P xs)} \<union> {x # xs}"
        by (cases i) auto
    next
      fix y assume "y \<in> {drop i xs | i. i \<le> length (takeWhile P xs)} \<union> {x # xs}"
      then show "y \<in> {drop i (x # xs) | i. i \<le> length (takeWhile P (x # xs))}"
      proof
        assume "y \<in> {drop i xs | i. i \<le> length (takeWhile P xs)}"
        then obtain i where "y = drop i xs" "i \<le> length (takeWhile P xs)" by blast
        with True show ?thesis by (intro CollectI exI[of _ "Suc i"]) simp
      next
        assume "y \<in> {x # xs}"
        then show ?thesis by (intro CollectI exI[of _ 0]) simp
      qed
    qed
    with True Cons.IH show ?thesis by simp
  next
    case False
    then show ?thesis by auto
  qed
qed

lemma rests_length: "s' \<in> set (rests P s) \<Longrightarrow> length s' \<le> length s"
  by (auto simp: set_rests)

lemma distinct_rests: "distinct (rests P s)"
proof (induction s)
  case (Cons x xs)
  have "x # xs \<notin> set (rests P xs)" using rests_length[of "x # xs" P xs] by auto
  with Cons.IH show ?case by simp
qed simp

lemma filter_rests_unique:
  assumes nl: "NL \<notin> set (u @ w @ R)" and w: "w \<noteq> []" "hd w \<notin> set u"
    and occ: "\<not> occurs w (tl w @ R)"
  shows "filter (\<lambda>s'. take (length w) s' = w) (rests (\<lambda>x. x \<noteq> NL) (u @ w @ R @ NL # v)) =
           [w @ R @ NL # v]"
proof (rule filter_unique)
  let ?S = "u @ w @ R @ NL # v"
  have tw: "takeWhile (\<lambda>x. x \<noteq> NL) ?S = u @ w @ R"
    using takeWhile_line[of "u @ w @ R" v] nl by simp
  show "distinct (rests (\<lambda>x. x \<noteq> NL) ?S)" by (rule distinct_rests)
  show "w @ R @ NL # v \<in> set (rests (\<lambda>x. x \<noteq> NL) ?S)"
    unfolding set_rests tw by (intro CollectI exI[of _ "length u"]) simp
  show "take (length w) (w @ R @ NL # v) = w" by simp
  show "\<forall>y \<in> set (rests (\<lambda>x. x \<noteq> NL) ?S). y \<noteq> w @ R @ NL # v \<longrightarrow> take (length w) y \<noteq> w"
  proof (intro ballI impI notI)
    fix y assume y: "y \<in> set (rests (\<lambda>x. x \<noteq> NL) ?S)" "y \<noteq> w @ R @ NL # v"
      and t: "take (length w) y = w"
    from y(1) obtain i where i: "y = drop i ?S" "i \<le> length (u @ w @ R)"
      unfolding set_rests tw by blast
    consider "i < length u" | "i = length u" | "length u < i" by linarith
    then show False
    proof cases
      case 1
      then have "y = drop i u @ w @ R @ NL # v" "drop i u \<noteq> []" using i(1) by simp_all
      then have "hd y \<in> set u" using 1 by (simp add: hd_drop_conv_nth)
      moreover have "hd y = hd w" using t w(1) by (cases y; cases w) auto
      ultimately show False using w(2) by simp
    next
      case 2
      with i y(2) show False by simp
    next
      case 3
      obtain a w' where aw: "w = a # w'" using w(1) by (cases w) auto
      obtain j where k: "i - length u = Suc j" using 3 by (cases "i - length u") auto
      have "y = drop j (w' @ R @ NL # v)" using 3 i(1) aw k by simp
      moreover have "j \<le> length (w' @ R)" using 3 i(2) aw k by simp
      ultimately have "take (length w) (drop j (w' @ R)) = w"
        using window_sep[of j "w' @ R" NL w v] t nl by simp
      then have "occurs w (tl w @ R)"
        using \<open>j \<le> length (w' @ R)\<close> aw by (auto simp: occurs_iff)
      with occ show False by simp
    qed
  qed
qed

lemma grp_star_any_det:
  assumes "NL \<notin> set (u @ w @ R)" "w \<noteq> []" "hd w \<notin> set u" "\<not> occurs w (tl w @ R)"
  shows "filter (\<lambda>(c', s'). take (length w) s' = w) (ms (Grp m (Star any_char)) c (u @ w @ R @ NL # v)) =
           [(c(m \<mapsto> u), w @ R @ NL # v)]"
proof -
  have "filter (\<lambda>(c', s'). take (length w) s' = w) (ms (Star any_char) c (u @ w @ R @ NL # v)) =
          [(c, w @ R @ NL # v)]"
    using filter_rests_unique[OF assms, of v] by (simp add: any_char_def ms_star_chr filter_map_Pair)
  then show ?thesis by (simp only: filter_ms_Grp) simp
qed

lemma grp_plus_any_det:
  assumes "NL \<notin> set (u @ w @ R)" "u \<noteq> []" "w \<noteq> []" "hd w \<notin> set u" "\<not> occurs w (tl w @ R)"
  shows "filter (\<lambda>(c', s'). take (length w) s' = w) (ms (Grp m (plus any_char)) c (u @ w @ R @ NL # v)) =
           [(c(m \<mapsto> u), w @ R @ NL # v)]"
proof -
  obtain a u' where u: "u = a # u'" using assms(2) by (cases u) auto
  have "filter (\<lambda>s'. take (length w) s' = w) (rests (\<lambda>x. x \<noteq> NL) (u' @ w @ R @ NL # v)) = [w @ R @ NL # v]"
    using filter_rests_unique[of u' w R v] assms u by simp
  moreover have "a \<noteq> NL" using assms(1) u by auto
  ultimately have "filter (\<lambda>(c', s'). take (length w) s' = w) (ms (plus any_char) c (u @ w @ R @ NL # v)) =
          [(c, w @ R @ NL # v)]"
    using u by (simp add: any_char_def ms_plus_chr filter_map_Pair)
  then show ?thesis by (simp only: filter_ms_Grp) simp
qed

lemma rests_tail:
  "\<forall>a \<in> set X. P a \<Longrightarrow> P a0 \<Longrightarrow> \<not> P y \<Longrightarrow>
   \<exists>W. rests P (X @ a0 # y # v) = (y # v) # (a0 # y # v) # W"
proof (induction X)
  case (Cons b X)
  then obtain W where "rests P (X @ a0 # y # v) = (y # v) # (a0 # y # v) # W" by auto
  with Cons.prems show ?case by simp
qed simp

lemma tail_det:
  assumes "NL \<notin> set x"
  shows "\<exists>L. ms (seqs [Star any_char, Lit ''>'']) c (x @ ''>'' @ NL # rest) = (c, NL # rest) # L"
proof -
  obtain W where W: "rests (\<lambda>x. x \<noteq> NL) (x @ CHR ''>'' # NL # rest) = (NL # rest) # (CHR ''>'' # NL # rest) # W"
    using rests_tail[of x "\<lambda>x. x \<noteq> NL" "CHR ''>''" NL rest] assms by auto
  have "ms (seqs [Star any_char, Lit ''>'']) c (x @ ''>'' @ NL # rest) =
        concat (map (\<lambda>(c', s'). ms (seqs []) c' (drop 1 s'))
          (filter (\<lambda>(c', s'). take 1 s' = ''>'') (map (Pair c) (rests (\<lambda>x. x \<noteq> NL) (x @ CHR ''>'' # NL # rest)))))"
    using ms_seqs_Lit[of "Star any_char" "''>''" "[]" c "x @ ''>'' @ NL # rest"]
    by (simp add: any_char_def ms_star_chr)
  also have "\<dots> = (c, NL # rest) # concat (map (\<lambda>(c', s'). ms (seqs []) c' (drop 1 s'))
          (filter (\<lambda>(c', s'). take 1 s' = ''>'') (map (Pair c) W)))"
    by (simp only: W) simp
  finally show ?thesis by blast
qed

subsection \<open>\<open>re.finditer\<close> over whole lines\<close>

lemma finditer_skip_line:
  "NL \<notin> set X \<Longrightarrow> re_finditer True r False (X @ NL # rest) = re_finditer True r True rest"
  by (induction X) auto

lemma finditer_match_line:
  assumes "ms r Map.empty (L @ NL # rest) = (c, NL # rest) # M" "L \<noteq> []" "last L \<noteq> NL"
  shows "re_finditer True r True (L @ NL # rest) = c # re_finditer True r True rest"
proof -
  obtain x xs where L: "L @ NL # rest = x # xs" by (cases L) auto
  have "take (length (x # xs) - length (NL # rest)) (x # xs) = L"
    using L[symmetric] by simp
  moreover have "length rest < length xs"
    using arg_cong[OF L, of length] assms(2) by (cases L) auto
  ultimately show ?thesis using assms L
    using finditer_skip_line[of "[]" r rest] by simp
qed

lemma finditer_nomatch_line:
  assumes "ms r Map.empty (L @ NL # rest) = []" "NL \<notin> set L"
  shows "re_finditer True r True (L @ NL # rest) = re_finditer True r True rest"
proof (cases L)
  case Nil
  with assms show ?thesis by simp
next
  case (Cons x L')
  with assms have "x \<noteq> NL" by auto
  with Cons assms show ?thesis using finditer_skip_line[of L' r rest] by simp
qed

subsection \<open>What a match captures\<close>

text \<open>Every match \<open>finditer\<close> reports is a match of the pattern at some position,
  and a group over \<open>(Chr P)+\<close> captures a non-empty run of characters with \<open>P\<close>.\<close>

lemma rests_consumed: "s' \<in> set (rests P s) \<Longrightarrow> \<exists>u. s = u @ s' \<and> (\<forall>x \<in> set u. P x)"
proof (induction s)
  case (Cons x xs)
  then show ?case by (auto split: if_splits intro: exI[of _ "x # _"] exI[of _ "[]"])
qed simp

lemma ms_Seq_mem:
  "(c', s') \<in> set (ms (Seq r1 r2) c s) \<Longrightarrow>
   \<exists>c1 s1. (c1, s1) \<in> set (ms r1 c s) \<and> (c', s') \<in> set (ms r2 c1 s1)"
  by auto

lemma ms_plus_chr_consumed:
  "(c', s') \<in> set (ms (plus (Chr P)) c s) \<Longrightarrow> c' = c \<and> (\<exists>u. s = u @ s' \<and> u \<noteq> [] \<and> (\<forall>x \<in> set u. P x))"
  by (auto simp: plus_def ms_star_chr split: list.splits if_splits dest!: rests_consumed)

lemma grp_plus_chr_capture:
  "(c', s') \<in> set (ms (Grp n (plus (Chr P))) c s) \<Longrightarrow>
   \<exists>u. c' = c(n \<mapsto> u) \<and> s = u @ s' \<and> u \<noteq> [] \<and> (\<forall>x \<in> set u. P x)"
  by (auto dest!: ms_plus_chr_consumed)

lemma ms_head_mem: "ms r c0 t = (c, s') # L \<Longrightarrow> \<exists>t s'. (c, s') \<in> set (ms r c0 t)"
  by (rule exI[of _ t], rule exI[of _ s']) simp

lemma finditer_mem:
  "set (re_finditer anch r b s) \<subseteq> {c. \<exists>t s'. (c, s') \<in> set (ms r Map.empty t)}"
proof (induction anch r b s rule: re_finditer.induct)
  case (1 anch r b)
  then show ?case by (auto split: list.splits dest: ms_head_mem[OF sym])
next
  case (2 anch r b x xs)
  show ?case
  proof (cases "anch \<and> \<not> b")
    case True
    with "2.IH" show ?thesis by simp
  next
    case False
    show ?thesis
    proof (cases "ms r Map.empty (x # xs)")
      case Nil
      with False "2.IH" show ?thesis by simp
    next
      case (Cons m L)
      obtain c s' where m: "m = (c, s')" by fastforce
      have "c \<in> {c. \<exists>t s'. (c, s') \<in> set (ms r Map.empty t)}"
        using Cons m by (auto dest: ms_head_mem)
      with False Cons m "2.IH"(3,4)[OF False Cons m[symmetric]] show ?thesis by auto
    qed
  qed
qed

lemma lit_grp_capture:
  assumes "(c, s') \<in> set (ms (Seq (Lit w) (Seq (Grp n (plus (Chr P))) R)) c0 t)" "grp_free n R"
  shows "\<exists>u. c n = Some u \<and> u \<noteq> [] \<and> (\<forall>x \<in> set u. P x)"
proof -
  from assms(1) have "(c, s') \<in> set (ms (Seq (Grp n (plus (Chr P))) R) c0 (drop (length w) t))"
    by (simp split: if_splits)
  then obtain c1 s1 where g: "(c1, s1) \<in> set (ms (Grp n (plus (Chr P))) c0 (drop (length w) t))"
    and r: "(c, s') \<in> set (ms R c1 s1)"
    by (rule ms_Seq_mem[THEN exE]) blast
  from ms_grp_free[OF assms(2) r] grp_plus_chr_capture[OF g] show ?thesis by auto
qed

lemma finditer_id_capture:
  assumes r: "r = Seq (Lit w) (Seq (Grp n (plus (Chr P))) R)" and g: "grp_free n R"
  shows "\<forall>v \<in> set (map (\<lambda>c. the (c n)) (re_finditer anch r b raw)). v \<noteq> [] \<and> (\<forall>x \<in> set v. P x)"
proof
  fix v assume "v \<in> set (map (\<lambda>c. the (c n)) (re_finditer anch r b raw))"
  then obtain c where c: "c \<in> set (re_finditer anch r b raw)" and v: "v = the (c n)" by auto
  from finditer_mem[THEN subsetD, OF c] obtain t s' where "(c, s') \<in> set (ms r Map.empty t)" by blast
  then obtain u where "c n = Some u" "u \<noteq> []" "\<forall>x \<in> set u. P x"
    unfolding r using lit_grp_capture[OF _ g] by blast
  with v show "v \<noteq> [] \<and> (\<forall>x \<in> set v. P x)" by simp
qed

end
