(* ===== verification/Schema.thy ===== *)
theory Schema
  imports Regex_Det
begin

text \<open>
  The header schema extractor of \<^verbatim>\<open>convert_vcf_to_tsv\<close> (\<^verbatim>\<open>cli.py\<close> lines
  33--52 and 97--98): the patterns \<open>RE_INFO\<close> and \<open>RE_FORMAT\<close> as values of
  \<open>rx\<close> (\<open>re.VERBOSE\<close> drops the layout whitespace of the source, \<open>\\#\<close> is a
  literal \<open>#\<close>, and the leading \<open>^\<close> under \<open>re.MULTILINE\<close> is the anchoring flag of
  \<open>re_finditer\<close>), and the two list comprehensions that collect the \<open>id\<close>
  groups.  The VCF header that \<^verbatim>\<open>cyvcf2\<close> returns as \<open>raw_header\<close> is modelled
  from the spec as a list of lines, each an INFO or FORMAT declaration or another
  line.  \<open>\\d\<close> is read as the ASCII digits; Python also accepts other Unicode
  decimal digits there, which a VCF header does not contain.
\<close>

subsection \<open>The patterns and the extraction\<close>

text \<open>\<open>Number=(?P<number>-?\\d+|\\.|[AG])\<close>, and with \<open>[AGR]\<close> for FORMAT.\<close>

definition number_re :: "char list \<Rightarrow> rx" where
  "number_re cls = alts [Seq (opt (Lit ''-'')) (plus digit), Lit ''.'', one_of cls]"

definition info_types :: "string list" where
  "info_types = [''Integer'', ''Float'', ''Flag'', ''Character'', ''String'']"

definition DESC_LIT :: string where "DESC_LIT = '',Description='' @ [QUOTE]"

definition RE_INFO :: rx where
  "RE_INFO = seqs [Lit ''##INFO=<ID='', Grp ''id'' (plus (not_in '','')),
     Lit '',Number='', Grp ''number'' (number_re ''AG''),
     Lit '',Type='', Grp ''type'' (alts (map Lit info_types)),
     Lit DESC_LIT, Grp ''desc'' (Star (not_in [QUOTE])), Lit [QUOTE], Star any_char, Lit ''>'']"

definition RE_FORMAT :: rx where
  "RE_FORMAT = seqs [Lit ''##FORMAT=<ID='', Grp ''id'' (plus any_char),
     Lit '',Number='', Grp ''number'' (number_re ''AGR''),
     Lit '',Type='', Grp ''type'' (plus any_char),
     Lit DESC_LIT, Grp ''desc'' (Star any_char), Lit [QUOTE], Star any_char, Lit ''>'']"

text \<open>\<open>[m.groupdict()["id"] for m in RE_INFO.finditer(raw_header)]\<close>: the group
  \<open>id\<close> takes part in every match.\<close>

definition info_fields_of :: "string \<Rightarrow> string list" where
  "info_fields_of raw = map (\<lambda>c. the (c ''id'')) (re_finditer True RE_INFO True raw)"

definition format_fields_of :: "string \<Rightarrow> string list" where
  "format_fields_of raw = map (\<lambda>c. the (c ''id'')) (re_finditer True RE_FORMAT True raw)"

subsection \<open>The header the extractor reads\<close>

datatype header_line =
    Info string string string string string
  | Format string string string string string
  | Meta string

definition decl :: "string \<Rightarrow> string \<Rightarrow> string \<Rightarrow> string \<Rightarrow> string \<Rightarrow> string \<Rightarrow> string" where
  "decl kind n num ty desc extra =
     ''##'' @ kind @ ''=<ID='' @ n @ '',Number='' @ num @ '',Type='' @ ty @ DESC_LIT @ desc @ [QUOTE]
     @ extra @ ''>''"

fun hline_text :: "header_line \<Rightarrow> string" where
  "hline_text (Info n num ty desc extra) = decl ''INFO'' n num ty desc extra"
| "hline_text (Format n num ty desc extra) = decl ''FORMAT'' n num ty desc extra"
| "hline_text (Meta s) = s"

definition raw_header :: "header_line list \<Rightarrow> string" where
  "raw_header ls = concat (map (\<lambda>l. hline_text l @ [NL]) ls)"

fun info_sel :: "header_line \<Rightarrow> string option" where
  "info_sel (Info n _ _ _ _) = Some n"
| "info_sel _ = None"

fun format_sel :: "header_line \<Rightarrow> string option" where
  "format_sel (Format n _ _ _ _) = Some n"
| "format_sel _ = None"

text \<open>
  Well-formed declarations: the number forms the two patterns accept, the five
  INFO types, descriptions without a double quote; FORMAT names, types and
  descriptions without commas (their groups are \<open>.+\<close> and \<open>.*\<close>, which backtrack
  to the last place the rest of the line matches).
\<close>

definition int_text :: "string \<Rightarrow> bool" where
  "int_text s = (let ds = (if take 1 s = ''-'' then drop 1 s else s) in ds \<noteq> [] \<and> list_all is_digit ds)"

definition number_ok :: "char list \<Rightarrow> string \<Rightarrow> bool" where
  "number_ok cls num \<longleftrightarrow> int_text num \<or> num = ''.'' \<or> (length num = 1 \<and> hd num \<in> set cls)"

definition info_decl_ok :: "string \<Rightarrow> string \<Rightarrow> string \<Rightarrow> string \<Rightarrow> string \<Rightarrow> bool" where
  "info_decl_ok n num ty desc extra \<longleftrightarrow>
     n \<noteq> [] \<and> CHR '','' \<notin> set n \<and> NL \<notin> set n \<and> number_ok ''AG'' num \<and> ty \<in> set info_types
     \<and> QUOTE \<notin> set desc \<and> NL \<notin> set desc \<and> NL \<notin> set extra"

definition format_decl_ok :: "string \<Rightarrow> string \<Rightarrow> string \<Rightarrow> string \<Rightarrow> string \<Rightarrow> bool" where
  "format_decl_ok n num ty desc extra \<longleftrightarrow>
     n \<noteq> [] \<and> ty \<noteq> [] \<and> number_ok ''AGR'' num
     \<and> set (n @ ty) \<inter> {CHR '','', NL} = {} \<and> set (desc @ extra) \<inter> {CHR '','', QUOTE, NL} = {}"

fun info_line_ok :: "header_line \<Rightarrow> bool" where
  "info_line_ok (Info n num ty desc extra) = info_decl_ok n num ty desc extra"
| "info_line_ok (Format n num ty desc extra) = (NL \<notin> set (n @ num @ ty @ desc @ extra))"
| "info_line_ok (Meta s) = (NL \<notin> set s \<and> \<not> py_startswith s ''##INFO=<ID='')"

fun format_line_ok :: "header_line \<Rightarrow> bool" where
  "format_line_ok (Format n num ty desc extra) = format_decl_ok n num ty desc extra"
| "format_line_ok (Info n num ty desc extra) = (NL \<notin> set (n @ num @ ty @ desc @ extra))"
| "format_line_ok (Meta s) = (NL \<notin> set s \<and> \<not> py_startswith s ''##FORMAT=<ID='')"

definition line_scan_ok :: "rx \<Rightarrow> (header_line \<Rightarrow> string option) \<Rightarrow> header_line \<Rightarrow> bool" where
  "line_scan_ok r sel l \<longleftrightarrow>
     (case sel l of
        None \<Rightarrow> NL \<notin> set (hline_text l) \<and> (\<forall>rest. ms r Map.empty (hline_text l @ NL # rest) = [])
      | Some i \<Rightarrow> hline_text l \<noteq> [] \<and> last (hline_text l) \<noteq> NL \<and>
          (\<forall>rest. \<exists>c M. ms r Map.empty (hline_text l @ NL # rest) = (c, NL # rest) # M \<and> c ''id'' = Some i))"

subsection \<open>One declaration line\<close>

lemma number_det:
  assumes cls: "set cls \<inter> set ''-.0123456789'' = {}" and num: "number_ok cls num"
    and w: "w \<noteq> []" "\<not> is_digit (hd w)" "hd w \<notin> set cls"
  shows "filter (\<lambda>(c', s'). take (length w) s' = w) (ms (number_re cls) c (num @ w @ t)) = [(c, w @ t)]"
proof -
  let ?Q = "\<lambda>(c' :: caps, s'). take (length w) s' = w"
  have alt: "ms (number_re cls) c s = ms (Seq (opt (Lit ''-'')) (plus (Chr is_digit))) c s
              @ ms (Lit ''.'') c s @ ms (one_of cls) c s" for s
    by (simp add: number_re_def digit_chr)
  consider (pos) "num \<noteq> []" "list_all is_digit num"
    | (neg) ds where "num = CHR ''-'' # ds" "ds \<noteq> []" "list_all is_digit ds"
    | (dot) "num = ''.''"
    | (cl) a where "num = [a]" "a \<in> set cls"
    using num unfolding number_ok_def int_text_def Let_def
    by (cases num) (auto split: if_splits simp: length_Suc_conv)
  then show ?thesis
  proof cases
    case pos
    then obtain d ds where d: "num = d # ds" "is_digit d" by (cases num) auto
    with cls have "d \<notin> set cls" "d \<noteq> CHR ''-''" "d \<noteq> CHR ''.''"
      by (auto simp: is_digit_def)
    moreover have "filter ?Q (ms (plus (Chr is_digit)) c (num @ w @ t)) = [(c, w @ t)]"
      using plus_chr_det[of num is_digit w c t] pos w by (simp add: list_all_iff)
    ultimately show ?thesis using d by (simp add: alt opt_def one_of_def filter_concat_map)
  next
    case neg
    have "filter ?Q (ms (plus (Chr is_digit)) c (ds @ w @ t)) = [(c, w @ t)]"
      using plus_chr_det[of ds is_digit w c t] neg w by (simp add: list_all_iff)
    with neg cls show ?thesis
      by (simp add: alt opt_def one_of_def filter_concat_map plus_def is_digit_def)
  next
    case dot
    with cls show ?thesis by (simp add: alt opt_def one_of_def plus_def is_digit_def)
  next
    case cl
    with cls have "\<not> is_digit a" "a \<noteq> CHR ''-''" "a \<noteq> CHR ''.''" by (auto simp: is_digit_def)
    with cl show ?thesis by (simp add: alt opt_def one_of_def plus_def)
  qed
qed

lemma number_ok_set:
  assumes "number_ok cls num" "c \<notin> set cls" "\<not> is_digit c" "c \<noteq> CHR ''-''" "c \<noteq> CHR ''.''"
  shows "c \<notin> set num"
proof -
  consider (i) "int_text num" | (d) "num = ''.''" | (cl) "length num = 1" "hd num \<in> set cls"
    using assms(1) unfolding number_ok_def by blast
  then show ?thesis
  proof cases
    case i
    show ?thesis
    proof (cases "take 1 num = ''-''")
      case True
      then obtain ds where num: "num = CHR ''-'' # ds" by (cases num) auto
      with i have "list_all is_digit ds" by (simp add: int_text_def)
      with num assms(3,4) show ?thesis by (auto simp: list_all_iff)
    next
      case False
      with i have "list_all is_digit num" by (simp add: int_text_def)
      with assms(3) show ?thesis by (auto simp: list_all_iff)
    qed
  next
    case cl
    then obtain a where "num = [a]" "a \<in> set cls" by (cases num) auto
    with assms(2) show ?thesis by auto
  qed (use assms(5) in simp)
qed

lemma grp_number_det:
  assumes "set cls \<inter> set ''-.0123456789'' = {}" "number_ok cls num"
    and "w \<noteq> []" "\<not> is_digit (hd w)" "hd w \<notin> set cls"
  shows "filter (\<lambda>(c', s'). take (length w) s' = w) (ms (Grp m (number_re cls)) c (num @ w @ t)) =
           [(c(m \<mapsto> num), w @ t)]"
  by (simp only: filter_ms_Grp number_det[OF assms]) simp

lemma ms_info_types: "ty \<in> set info_types \<Longrightarrow> ms (alts (map Lit info_types)) c (ty @ t) = [(c, t)]"
  unfolding info_types_def by (elim set_ConsD[THEN disjE]; simp)

lemma grp_type_det:
  "ty \<in> set info_types \<Longrightarrow>
   filter (\<lambda>(c', s'). take (length w) s' = w) (ms (Grp m (alts (map Lit info_types))) c (ty @ w @ t)) =
     [(c(m \<mapsto> ty), w @ t)]"
  by (simp only: filter_ms_Grp ms_info_types) simp

lemma decl_last: "last (decl kind n num ty desc extra) = CHR ''>''"
  by (simp add: decl_def)

lemma ms_number_re_other:
  "x \<notin> set cls \<Longrightarrow> \<not> is_digit x \<Longrightarrow> x \<noteq> CHR ''-'' \<Longrightarrow> x \<noteq> CHR ''.'' \<Longrightarrow>
   ms (number_re cls) c (x # t) = []"
  by (simp add: number_re_def opt_def digit_chr plus_def one_of_def)

lemma ms_RE_INFO_prefix:
  assumes "n \<noteq> []" "CHR '','' \<notin> set n"
  shows "ms RE_INFO c (''##INFO=<ID='' @ n @ '',Number='' @ t) =
         ms (seqs [Grp ''number'' (number_re ''AG''), Lit '',Type='', Grp ''type'' (alts (map Lit info_types)),
                   Lit DESC_LIT, Grp ''desc'' (Star (not_in [QUOTE])), Lit [QUOTE], Star any_char, Lit ''>''])
            (c(''id'' \<mapsto> n)) t"
proof -
  have f1: "filter (\<lambda>(c', s'). take (length '',Number='') s' = '',Number='')
              (ms (Grp ''id'' (plus (not_in '',''))) c (n @ '',Number='' @ t)) = [(c(''id'' \<mapsto> n), '',Number='' @ t)]"
  proof -
    have "\<forall>a \<in> set n. a \<notin> set '',''" using assms(2) by auto
    from grp_plus_chr_det[OF assms(1) this, of "'',Number=''" "''id''" c t] show ?thesis
      by (simp add: not_in_def)
  qed
  show ?thesis unfolding RE_INFO_def ms_seqs_Lit_hd by (simp only: ms_seqs_det[OF f1])
qed

lemma ms_RE_INFO_decl:
  assumes n: "n \<noteq> []" "CHR '','' \<notin> set n" and num: "number_ok ''AG'' num"
    and ty: "ty \<in> set info_types" and d: "QUOTE \<notin> set desc" and x: "NL \<notin> set extra"
  shows "\<exists>L. ms RE_INFO c (decl ''INFO'' n num ty desc extra @ NL # rest) =
           (c(''id'' \<mapsto> n, ''number'' \<mapsto> num, ''type'' \<mapsto> ty, ''desc'' \<mapsto> desc), NL # rest) # L"
proof -
  let ?t4 = "extra @ ''>'' @ NL # rest"
  let ?t3 = "[QUOTE] @ ?t4"
  let ?t2 = "DESC_LIT @ desc @ ?t3"
  let ?t1 = "'',Type='' @ ty @ ?t2"
  let ?c1 = "c(''id'' \<mapsto> n)"
  let ?c2 = "?c1(''number'' \<mapsto> num)"
  let ?c3 = "?c2(''type'' \<mapsto> ty)"
  let ?c4 = "?c3(''desc'' \<mapsto> desc)"
  have s: "decl ''INFO'' n num ty desc extra @ NL # rest = ''##INFO=<ID='' @ n @ '',Number='' @ num @ ?t1"
    by (simp add: decl_def)
  have f2: "filter (\<lambda>(c', s'). take (length '',Type='') s' = '',Type='')
              (ms (Grp ''number'' (number_re ''AG'')) ?c1 (num @ ?t1)) = [(?c2, ?t1)]"
    by (rule grp_number_det) (simp_all add: num is_digit_def)
  have f3: "filter (\<lambda>(c', s'). take (length DESC_LIT) s' = DESC_LIT)
              (ms (Grp ''type'' (alts (map Lit info_types))) ?c2 (ty @ ?t2)) = [(?c3, ?t2)]"
    by (rule grp_type_det[OF ty])
  have f4: "filter (\<lambda>(c', s'). take (length [QUOTE]) s' = [QUOTE])
              (ms (Grp ''desc'' (Star (not_in [QUOTE]))) ?c3 (desc @ ?t3)) = [(?c4, ?t3)]"
  proof -
    have "\<forall>a \<in> set desc. a \<notin> set [QUOTE]" using d by auto
    from grp_star_chr_det[OF this, of "[QUOTE]" "''desc''" ?c3 ?t4] show ?thesis
      by (simp add: not_in_def)
  qed
  have "ms RE_INFO c (''##INFO=<ID='' @ n @ '',Number='' @ num @ ?t1) = ms (seqs [Star any_char, Lit ''>'']) ?c4 ?t4"
    unfolding ms_RE_INFO_prefix[OF n]
    by (simp only: ms_seqs_det[OF f2] ms_seqs_det[OF f3] ms_seqs_det[OF f4])
  with tail_det[OF x, of ?c4 rest] s show ?thesis by simp
qed

lemma ms_RE_FORMAT_decl:
  assumes ok: "format_decl_ok n num ty desc extra"
  shows "\<exists>L. ms RE_FORMAT c (decl ''FORMAT'' n num ty desc extra @ NL # rest) =
           (c(''id'' \<mapsto> n, ''number'' \<mapsto> num, ''type'' \<mapsto> ty, ''desc'' \<mapsto> desc), NL # rest) # L"
proof -
  let ?t4 = "extra @ ''>'' @ NL # rest"
  let ?c1 = "c(''id'' \<mapsto> n)"
  let ?c2 = "?c1(''number'' \<mapsto> num)"
  let ?c3 = "?c2(''type'' \<mapsto> ty)"
  let ?c4 = "?c3(''desc'' \<mapsto> desc)"
  from ok have n: "n \<noteq> []" "CHR '','' \<notin> set n" "NL \<notin> set n" and num: "number_ok ''AGR'' num"
    and ty: "ty \<noteq> []" "CHR '','' \<notin> set ty" "NL \<notin> set ty"
    and d: "CHR '','' \<notin> set desc" "QUOTE \<notin> set desc" "NL \<notin> set desc"
    and x: "CHR '','' \<notin> set extra" "QUOTE \<notin> set extra" "NL \<notin> set extra"
    by (auto simp: format_decl_ok_def)
  have numc: "CHR '','' \<notin> set num" "NL \<notin> set num"
    by (rule number_ok_set[OF num]; simp add: is_digit_def)+
  have nc: "\<not> occurs w (u @ desc @ QUOTE # extra @ ''>'')"
    if "w \<noteq> []" "hd w = CHR '',''" "CHR '','' \<notin> set u" for w u
    using that d x by (intro not_occurs_nohd) auto
  have s: "decl ''FORMAT'' n num ty desc extra @ NL # rest = ''##FORMAT=<ID='' @ n @ '',Number='' @
      (num @ '',Type='' @ ty @ DESC_LIT @ desc @ [QUOTE] @ extra @ ''>'') @ NL # rest"
    by (simp add: decl_def)
  have o1: "\<not> occurs '',Number='' (''Number='' @ num @ '',Type='' @ ty @ DESC_LIT @ desc @ [QUOTE] @ extra @ ''>'')"
    using nc[of "'',Number=''" "''Description=''"] numc(1) ty(2)
    by (simp add: occurs_append_nohd DESC_LIT_def)
  have f1: "filter (\<lambda>(c', s'). take (length '',Number='') s' = '',Number='')
              (ms (Grp ''id'' (plus any_char)) c (n @ '',Number='' @
                (num @ '',Type='' @ ty @ DESC_LIT @ desc @ [QUOTE] @ extra @ ''>'') @ NL # rest)) =
            [(?c1, '',Number='' @ (num @ '',Type='' @ ty @ DESC_LIT @ desc @ [QUOTE] @ extra @ ''>'') @ NL # rest)]"
    by (rule grp_plus_any_det) (use n numc ty d x o1 in \<open>simp_all add: DESC_LIT_def\<close>)
  have f2: "filter (\<lambda>(c', s'). take (length '',Type='') s' = '',Type='')
              (ms (Grp ''number'' (number_re ''AGR'')) ?c1 (num @ '',Type='' @ ty @ DESC_LIT @ desc @ [QUOTE] @ ?t4)) =
            [(?c2, '',Type='' @ ty @ DESC_LIT @ desc @ [QUOTE] @ ?t4)]"
    by (rule grp_number_det) (simp_all add: num is_digit_def)
  have o3: "\<not> occurs DESC_LIT (tl DESC_LIT @ desc @ [QUOTE] @ extra @ ''>'')"
    using nc[of DESC_LIT "''Description=''"] by (simp add: DESC_LIT_def)
  have f3: "filter (\<lambda>(c', s'). take (length DESC_LIT) s' = DESC_LIT)
              (ms (Grp ''type'' (plus any_char)) ?c2 (ty @ DESC_LIT @ (desc @ [QUOTE] @ extra @ ''>'') @ NL # rest)) =
            [(?c3, DESC_LIT @ (desc @ [QUOTE] @ extra @ ''>'') @ NL # rest)]"
    by (rule grp_plus_any_det) (use ty d x o3 in \<open>simp_all add: DESC_LIT_def\<close>)
  have f4: "filter (\<lambda>(c', s'). take (length [QUOTE]) s' = [QUOTE])
              (ms (Grp ''desc'' (Star any_char)) ?c3 (desc @ [QUOTE] @ (extra @ ''>'') @ NL # rest)) =
            [(?c4, [QUOTE] @ (extra @ ''>'') @ NL # rest)]"
    by (rule grp_star_any_det) (use d x in \<open>simp_all add: not_occurs_nohd\<close>)
  have "ms RE_FORMAT c (''##FORMAT=<ID='' @ n @ '',Number='' @
      (num @ '',Type='' @ ty @ DESC_LIT @ desc @ [QUOTE] @ extra @ ''>'') @ NL # rest) =
      ms (seqs [Star any_char, Lit ''>'']) ?c4 ?t4"
    unfolding RE_FORMAT_def ms_seqs_Lit_hd
    using f1 f2 f3 f4 by (simp only: ms_seqs_det append_assoc)
  with tail_det[OF x(3), of ?c4 rest] s show ?thesis by simp
qed

lemma ms_RE_INFO_other:
  "\<not> py_startswith s ''##INFO=<ID='' \<Longrightarrow> ms RE_INFO c s = []"
  by (simp add: RE_INFO_def py_startswith_def)

lemma ms_RE_FORMAT_other:
  "\<not> py_startswith s ''##FORMAT=<ID='' \<Longrightarrow> ms RE_FORMAT c s = []"
  by (simp add: RE_FORMAT_def py_startswith_def)

lemma RE_INFO_Nil: "ms RE_INFO c [] = []"
  by (simp add: RE_INFO_def)

lemma RE_FORMAT_Nil: "ms RE_FORMAT c [] = []"
  by (simp add: RE_FORMAT_def)

subsection \<open>Whole headers\<close>

lemma finditer_lines:
  assumes "ms r Map.empty [] = []" "\<forall>l \<in> set ls. line_scan_ok r sel l"
  shows "map (\<lambda>c. the (c ''id'')) (re_finditer True r True (raw_header ls)) = List.map_filter sel ls"
  using assms(2)
proof (induction ls)
  case Nil
  with assms(1) show ?case by (simp add: raw_header_def map_filter_simps)
next
  case (Cons l ls)
  then have IH: "map (\<lambda>c. the (c ''id'')) (re_finditer True r True (raw_header ls)) = List.map_filter sel ls"
    and ok: "line_scan_ok r sel l" by simp_all
  have split: "raw_header (l # ls) = hline_text l @ NL # raw_header ls"
    by (simp add: raw_header_def)
  show ?case
  proof (cases "sel l")
    case None
    with ok have "ms r Map.empty (hline_text l @ NL # raw_header ls) = []" "NL \<notin> set (hline_text l)"
      by (simp_all add: line_scan_ok_def)
    note e = finditer_nomatch_line[OF this]
    show ?thesis unfolding split e using IH None by (simp add: map_filter_simps)
  next
    case (Some i)
    with ok have ne: "hline_text l \<noteq> []" "last (hline_text l) \<noteq> NL"
      and all: "\<forall>rest. \<exists>c M. ms r Map.empty (hline_text l @ NL # rest) = (c, NL # rest) # M \<and> c ''id'' = Some i"
      by (simp_all add: line_scan_ok_def)
    from all obtain c M where m: "ms r Map.empty (hline_text l @ NL # raw_header ls) = (c, NL # raw_header ls) # M"
      and ci: "c ''id'' = Some i"
      by blast
    note e = finditer_match_line[OF m ne]
    show ?thesis unfolding split e using IH Some ci by (simp add: map_filter_simps)
  qed
qed

lemma info_line_scan: "info_line_ok l \<Longrightarrow> line_scan_ok RE_INFO info_sel l"
proof (cases l)
  case (Info n num ty desc extra)
  assume "info_line_ok l"
  with Info have ok: "info_decl_ok n num ty desc extra" by simp
  have "\<forall>rest. \<exists>c M. ms RE_INFO Map.empty (hline_text l @ NL # rest) = (c, NL # rest) # M \<and> c ''id'' = Some n"
  proof
    fix rest
    let ?c = "Map.empty(''id'' \<mapsto> n, ''number'' \<mapsto> num, ''type'' \<mapsto> ty, ''desc'' \<mapsto> desc)"
    obtain M where "ms RE_INFO Map.empty (hline_text l @ NL # rest) = (?c, NL # rest) # M"
      using ms_RE_INFO_decl[of n num ty desc extra Map.empty rest] ok Info by (auto simp: info_decl_ok_def)
    then show "\<exists>c M. ms RE_INFO Map.empty (hline_text l @ NL # rest) = (c, NL # rest) # M \<and> c ''id'' = Some n"
      by (intro exI[of _ ?c] exI[of _ M]) simp
  qed
  with Info show ?thesis by (simp add: line_scan_ok_def decl_last) (simp add: decl_def)
next
  case (Format n num ty desc extra)
  moreover assume "info_line_ok l"
  ultimately show ?thesis
    by (simp add: line_scan_ok_def ms_RE_INFO_other py_startswith_def decl_def DESC_LIT_def)
next
  case (Meta s)
  moreover assume "info_line_ok l"
  ultimately show ?thesis
    using startswith_line[of s "''##INFO=<ID=''"]
    by (simp add: line_scan_ok_def ms_RE_INFO_other)
qed

lemma format_line_scan: "format_line_ok l \<Longrightarrow> line_scan_ok RE_FORMAT format_sel l"
proof (cases l)
  case (Format n num ty desc extra)
  assume "format_line_ok l"
  with Format have ok: "format_decl_ok n num ty desc extra" by simp
  have "\<forall>rest. \<exists>c M. ms RE_FORMAT Map.empty (hline_text l @ NL # rest) = (c, NL # rest) # M \<and> c ''id'' = Some n"
  proof
    fix rest
    let ?c = "Map.empty(''id'' \<mapsto> n, ''number'' \<mapsto> num, ''type'' \<mapsto> ty, ''desc'' \<mapsto> desc)"
    obtain M where "ms RE_FORMAT Map.empty (hline_text l @ NL # rest) = (?c, NL # rest) # M"
      using ms_RE_FORMAT_decl[OF ok, of Map.empty rest] Format by auto
    then show "\<exists>c M. ms RE_FORMAT Map.empty (hline_text l @ NL # rest) = (c, NL # rest) # M \<and> c ''id'' = Some n"
      by (intro exI[of _ ?c] exI[of _ M]) simp
  qed
  with Format show ?thesis by (simp add: line_scan_ok_def decl_last) (simp add: decl_def)
next
  case (Info n num ty desc extra)
  moreover assume "format_line_ok l"
  ultimately show ?thesis
    by (simp add: line_scan_ok_def ms_RE_FORMAT_other py_startswith_def decl_def DESC_LIT_def)
next
  case (Meta s)
  moreover assume "format_line_ok l"
  ultimately show ?thesis
    using startswith_line[of s "''##FORMAT=<ID=''"]
    by (simp add: line_scan_ok_def ms_RE_FORMAT_other)
qed

subsection \<open>The extracted field lists\<close>

text \<open>
  C13.  On a header whose lines are well-formed INFO declarations, FORMAT
  declarations or other lines that do not start an INFO declaration,
  \<open>info_fields\<close> is the list of the declared INFO ids in header order.
\<close>

theorem info_fields_of_header:
  "\<forall>l \<in> set ls. info_line_ok l \<Longrightarrow> info_fields_of (raw_header ls) = List.map_filter info_sel ls"
  unfolding info_fields_of_def using info_line_scan by (intro finditer_lines) (simp_all add: RE_INFO_Nil)

theorem info_fields_of_header_witness:
  "info_fields_of (raw_header [Meta ''##fileformat=VCFv4.2'', Info ''DP'' ''1'' ''Integer'' ''Total depth'' [], Format ''GT'' ''1'' ''String'' ''Genotype'' [], Info ''AF'' ''A'' ''Float'' ''Allele frequency, per ALT allele'' [], Format ''AD'' ''R'' ''Integer'' ''Allelic depths'' [], Meta ''#CHROM'']) = [''DP'', ''AF'']"
  using info_fields_of_header[of "[Meta ''##fileformat=VCFv4.2'', Info ''DP'' ''1'' ''Integer'' ''Total depth'' [], Format ''GT'' ''1'' ''String'' ''Genotype'' [], Info ''AF'' ''A'' ''Float'' ''Allele frequency, per ALT allele'' [], Format ''AD'' ''R'' ''Integer'' ''Allelic depths'' [], Meta ''#CHROM'']"]
  by (simp add: info_decl_ok_def number_ok_def int_text_def is_digit_def info_types_def
      py_startswith_def map_filter_simps)

text \<open>
  C14.  Likewise \<open>format_fields\<close> is the list of the declared FORMAT ids in
  header order, for FORMAT declarations whose names, types and descriptions have
  no comma (with \<open>Number=R\<close> accepted).
\<close>

theorem format_fields_of_header:
  "\<forall>l \<in> set ls. format_line_ok l \<Longrightarrow> format_fields_of (raw_header ls) = List.map_filter format_sel ls"
  unfolding format_fields_of_def using format_line_scan by (intro finditer_lines) (simp_all add: RE_FORMAT_Nil)

theorem format_fields_of_header_witness:
  "format_fields_of (raw_header [Meta ''##fileformat=VCFv4.2'', Info ''DP'' ''1'' ''Integer'' ''Total depth'' [], Format ''GT'' ''1'' ''String'' ''Genotype'' [], Info ''AF'' ''A'' ''Float'' ''Allele frequency, per ALT allele'' [], Format ''AD'' ''R'' ''Integer'' ''Allelic depths'' [], Meta ''#CHROM'']) = [''GT'', ''AD'']"
  using format_fields_of_header[of "[Meta ''##fileformat=VCFv4.2'', Info ''DP'' ''1'' ''Integer'' ''Total depth'' [], Format ''GT'' ''1'' ''String'' ''Genotype'' [], Info ''AF'' ''A'' ''Float'' ''Allele frequency, per ALT allele'' [], Format ''AD'' ''R'' ''Integer'' ''Allelic depths'' [], Meta ''#CHROM'']"]
  by (simp add: format_decl_ok_def number_ok_def int_text_def is_digit_def py_startswith_def map_filter_simps)

text \<open>
  C15.  The id group \<open>[^,]+\<close> of \<open>RE_INFO\<close> also matches newlines, so an INFO line
  that breaks off before its first comma runs on into the next line: the two lines
  give one field whose name contains a newline and the next line's declaration, and
  the field of the next line is lost.
\<close>

theorem info_broken_line_swallows_next:
  assumes "CHR '','' \<notin> set x" "NL \<notin> set x" "info_decl_ok n num ty desc extra"
    and "\<forall>l \<in> set ls. info_line_ok l"
  shows "info_fields_of (raw_header (Meta (''##INFO=<ID='' @ x) # Info n num ty desc extra # ls)) =
           (x @ NL # ''##INFO=<ID='' @ n) # List.map_filter info_sel ls"
proof -
  let ?m = "x @ NL # ''##INFO=<ID='' @ n"
  have h: "raw_header (Meta (''##INFO=<ID='' @ x) # Info n num ty desc extra # ls) =
           decl ''INFO'' ?m num ty desc extra @ NL # raw_header ls"
    by (simp add: raw_header_def decl_def)
  from assms(3) have ok: "?m \<noteq> []" "CHR '','' \<notin> set ?m" "number_ok ''AG'' num"
    "ty \<in> set info_types" "QUOTE \<notin> set desc" "NL \<notin> set extra"
    using assms(1) by (auto simp: info_decl_ok_def)
  obtain M where m: "ms RE_INFO Map.empty (decl ''INFO'' ?m num ty desc extra @ NL # raw_header ls) =
      (Map.empty(''id'' \<mapsto> ?m, ''number'' \<mapsto> num, ''type'' \<mapsto> ty, ''desc'' \<mapsto> desc), NL # raw_header ls) # M"
    using ms_RE_INFO_decl[OF ok, of Map.empty "raw_header ls"] by blast
  have "decl ''INFO'' ?m num ty desc extra \<noteq> []" "last (decl ''INFO'' ?m num ty desc extra) \<noteq> NL"
    by (simp_all add: decl_last) (simp add: decl_def)
  note e = finditer_match_line[OF m this]
  have "map (\<lambda>c. the (c ''id'')) (re_finditer True RE_INFO True (raw_header ls)) = List.map_filter info_sel ls"
    using info_line_scan assms(4) by (intro finditer_lines) (simp_all add: RE_INFO_Nil)
  then show ?thesis unfolding info_fields_of_def h e by simp
qed

theorem info_broken_line_swallows_next_witness:
  "info_fields_of (raw_header [Meta (''##INFO=<ID='' @ ''MQ''), Info ''DP'' ''1'' ''Integer'' ''Depth'' [], Meta ''#CHROM''])
     = [''MQ'' @ NL # ''##INFO=<ID=DP'']"
  using info_broken_line_swallows_next[of "''MQ''" "''DP''" "''1''" "''Integer''" "''Depth''" "[]" "[Meta ''#CHROM'']"]
  by (simp add: info_decl_ok_def number_ok_def int_text_def is_digit_def info_types_def
      py_startswith_def map_filter_simps)

text \<open>
  C16.  \<open>RE_INFO\<close> accepts \<open>Number\<close> only as an integer, \<open>.\<close>, \<open>A\<close> or \<open>G\<close>: an INFO
  declaration with \<open>Number=R\<close> (one value per allele, allowed by VCF 4.2) is not
  matched, so the field is silently left out of \<open>info_fields\<close> and of the table.
\<close>

theorem info_number_R_dropped:
  assumes "info_decl_ok n ''1'' ty desc extra" "\<forall>l \<in> set ls. info_line_ok l"
  shows "info_fields_of (raw_header (Info n ''R'' ty desc extra # ls)) = List.map_filter info_sel ls"
proof -
  from assms(1) have n: "n \<noteq> []" "CHR '','' \<notin> set n" and nl: "NL \<notin> set (decl ''INFO'' n ''R'' ty desc extra)"
    by (auto simp: info_decl_ok_def decl_def DESC_LIT_def info_types_def)
  have s: "decl ''INFO'' n ''R'' ty desc extra @ NL # raw_header ls =
      ''##INFO=<ID='' @ n @ '',Number='' @ CHR ''R'' # '',Type='' @ ty @ DESC_LIT @ desc @ QUOTE # extra
      @ ''>'' @ NL # raw_header ls"
    by (simp add: decl_def)
  have "ms RE_INFO Map.empty (decl ''INFO'' n ''R'' ty desc extra @ NL # raw_header ls) = []"
    unfolding s ms_RE_INFO_prefix[OF n] by (simp add: ms_number_re_other is_digit_def)
  note e = finditer_nomatch_line[OF this nl]
  have h: "raw_header (Info n ''R'' ty desc extra # ls) = decl ''INFO'' n ''R'' ty desc extra @ NL # raw_header ls"
    by (simp add: raw_header_def)
  have "map (\<lambda>c. the (c ''id'')) (re_finditer True RE_INFO True (raw_header ls)) = List.map_filter info_sel ls"
    using info_line_scan assms(2) by (intro finditer_lines) (simp_all add: RE_INFO_Nil)
  then show ?thesis unfolding info_fields_of_def h e .
qed

theorem info_number_R_dropped_witness:
  "info_fields_of (raw_header [Info ''AD'' ''R'' ''Integer'' ''Allelic depths'' [], Info ''DP'' ''1'' ''Integer'' ''Depth'' []])
     = [''DP'']"
  using info_number_R_dropped[of "''AD''" "''Integer''" "''Allelic depths''" "[]" "[Info ''DP'' ''1'' ''Integer'' ''Depth'' []]"]
  by (simp add: info_decl_ok_def number_ok_def int_text_def is_digit_def info_types_def map_filter_simps)

lemma RE_INFO_shape:
  "\<exists>R. RE_INFO = Seq (Lit ''##INFO=<ID='') (Seq (Grp ''id'' (plus (not_in '',''))) R) \<and> grp_free ''id'' R"
  by (simp add: RE_INFO_def number_re_def info_types_def opt_def plus_def digit_def one_of_def not_in_def any_char_def)

lemma RE_FORMAT_shape:
  "\<exists>R. RE_FORMAT = Seq (Lit ''##FORMAT=<ID='') (Seq (Grp ''id'' (plus any_char)) R) \<and> grp_free ''id'' R"
  by (simp add: RE_FORMAT_def number_re_def opt_def plus_def digit_def one_of_def not_in_def any_char_def)

text \<open>
  C27.  Whatever the header text, every INFO field name the extractor returns is
  non-empty and has no comma, and every FORMAT field name is non-empty and has
  no newline: the \<open>id\<close> groups \<open>[^,]+\<close> and \<open>.+\<close> of the two patterns.  An
  INFO name can thus span lines (C15), a FORMAT name cannot.
\<close>

theorem header_fields_wellformed:
  "(\<forall>n \<in> set (info_fields_of raw). n \<noteq> [] \<and> CHR '','' \<notin> set n)
   \<and> (\<forall>n \<in> set (format_fields_of raw). n \<noteq> [] \<and> NL \<notin> set n)"
proof -
  obtain R1 where i: "RE_INFO = Seq (Lit ''##INFO=<ID='') (Seq (Grp ''id'' (plus (Chr (\<lambda>x. x \<notin> set '','')))) R1)"
    "grp_free ''id'' R1" using RE_INFO_shape by (auto simp: not_in_def)
  obtain R2 where f: "RE_FORMAT = Seq (Lit ''##FORMAT=<ID='') (Seq (Grp ''id'' (plus (Chr (\<lambda>x. x \<noteq> NL)))) R2)"
    "grp_free ''id'' R2" using RE_FORMAT_shape by (auto simp: any_char_def)
  have "\<forall>n \<in> set (info_fields_of raw). n \<noteq> [] \<and> (\<forall>x \<in> set n. x \<notin> set '','')"
    unfolding info_fields_of_def by (rule finditer_id_capture[OF i])
  moreover have "\<forall>n \<in> set (format_fields_of raw). n \<noteq> [] \<and> (\<forall>x \<in> set n. x \<noteq> NL)"
    unfolding format_fields_of_def by (rule finditer_id_capture[OF f])
  ultimately show ?thesis by auto
qed

theorem header_fields_wellformed_witness:
  "list_all (\<lambda>n. n \<noteq> [] \<and> CHR '','' \<notin> set n) (info_fields_of (''##INFO=<ID=DP,Number=1,Type=Integer,Description='' @ [QUOTE, QUOTE] @ ''>'' @ [NL]))
   \<and> list_all (\<lambda>n. n \<noteq> [] \<and> NL \<notin> set n) (format_fields_of (''##FORMAT=<ID=GT,Number=1,Type=String,Description='' @ [QUOTE, QUOTE] @ ''>'' @ [NL]))"
  using header_fields_wellformed[of "''##INFO=<ID=DP,Number=1,Type=Integer,Description='' @ [QUOTE, QUOTE] @ ''>'' @ [NL]"] header_fields_wellformed[of "''##FORMAT=<ID=GT,Number=1,Type=String,Description='' @ [QUOTE, QUOTE] @ ''>'' @ [NL]"]
  unfolding list_all_iff by blast

end
