(* ===== verification/Convert.thy ===== *)
theory Convert
  imports Pipeline Schema
begin

text \<open>
  The top level of \<^verbatim>\<open>convert_vcf_to_tsv\<close> (\<^verbatim>\<open>cli.py\<close> lines 73--132): the file
  check, the VCF reader, the schema extraction, the query template, the bcftools
  process and the loop over its output, composed as the function composes them.
  The file system (\<open>os.path.isfile\<close>), the reader (\<^verbatim>\<open>cyvcf2.VCF\<close>, of which the
  code reads \<open>raw_header\<close> and \<open>samples\<close>) and bcftools (stdout lines and exit
  status of a command line) are parameters.  The outcome is the exit status of
  the program, the lines it prints to stdout and those to stderr; an uncaught
  exception ends the program with status 1 after the lines printed so far.
\<close>

record vcf_file =
  vf_header :: string
  vf_samples :: "string list"

datatype outcome = Exit nat "string list" "string list"

fun py_error_text :: "py_error \<Rightarrow> string" where
  "py_error_text IndexError = ''IndexError: list index out of range''"
| "py_error_text ValueError = ''ValueError''"
| "py_error_text UnicodeDecodeError = ''UnicodeDecodeError: 'utf-8' codec can't decode byte''"

definition convert_vcf_to_tsv ::
  "(string \<Rightarrow> bool) \<Rightarrow> (string \<Rightarrow> vcf_file option) \<Rightarrow> (string list \<Rightarrow> string list \<times> nat)
   \<Rightarrow> string \<Rightarrow> output_format \<Rightarrow> bool \<Rightarrow> bool \<Rightarrow> outcome" where
  "convert_vcf_to_tsv isfile vcf_open bcftools vcf_path fmt print_hdr expand_ann =
     (if \<not> isfile vcf_path \<and> vcf_path \<noteq> ''-''
      then Exit 1 [] [''Error: '' @ vcf_path @ '' does not exist'']
      else
        (case vcf_open vcf_path of
           None \<Rightarrow> Exit 1 [] [''OSError: '' @ vcf_path]
         | Some vcf \<Rightarrow>
             (let infos = info_fields_of (vf_header vcf);
                  formats = format_fields_of (vf_header vcf);
                  q = query_string fmt infos formats;
                  cmd = bcftools_cmd print_hdr q vcf_path;
                  cv = \<lparr>ofmt = fmt, print_header = print_hdr, info_fields = infos,
                        format_fields = formats, samples = vf_samples vcf,
                        ann_loc = ann_location expand_ann infos\<rparr>;
                  (st, e) = run cv init_state (fst (bcftools cmd))
              in case e of
                   None \<Rightarrow> Exit 0 (printed st) []
                 | Some err \<Rightarrow> Exit 1 (printed st) [py_error_text err])))"

subsection \<open>The schema of a well-formed header\<close>

lemma header_fields:
  assumes "\<forall>l \<in> set ls. info_line_ok l \<and> format_line_ok l"
  shows "info_fields_of (raw_header ls) = List.map_filter info_sel ls"
    and "format_fields_of (raw_header ls) = List.map_filter format_sel ls"
  using assms info_line_scan format_line_scan
  unfolding info_fields_of_def format_fields_of_def
  by (auto intro!: finditer_lines simp: RE_INFO_Nil RE_FORMAT_Nil)

text \<open>
  C17.  A path that is not a file, other than \<open>-\<close> for standard input, ends the
  program with status 1 and the message \<open>Error: <path> does not exist\<close> on
  stderr, before the VCF is opened or bcftools is run.
\<close>

theorem convert_missing_file:
  "\<not> isfile p \<Longrightarrow> p \<noteq> ''-'' \<Longrightarrow>
   convert_vcf_to_tsv isfile vcf_open bcftools p fmt hdr ann = Exit 1 [] [''Error: '' @ p @ '' does not exist'']"
  by (simp add: convert_vcf_to_tsv_def)

theorem convert_missing_file_witness:
  "convert_vcf_to_tsv (\<lambda>_. False) (\<lambda>_. None) (\<lambda>_. ([], 0)) ''in.vcf'' wide True True
     = Exit 1 [] [''Error: in.vcf does not exist'']"
  using convert_missing_file[of "\<lambda>_. False" "''in.vcf''" "\<lambda>_. None" "\<lambda>_. ([], 0)" wide True True]
  by simp

text \<open>
  C18.  End to end in the wide format with \<^verbatim>\<open>--header\<close> and without ANN: for a
  VCF whose header declares its fields with well-formed lines, bcftools is run
  with the template built from the declared INFO and FORMAT ids in header order,
  and when it prints a header line and the rows of a list of variants, the
  program prints the rendered header and each variant's row, and exits with 0.
\<close>

theorem convert_wide_end_to_end:
  assumes f: "isfile p" "vcf_open p = Some vf" and hd: "vf_header vf = raw_header ls"
    and ok: "\<forall>l \<in> set ls. info_line_ok l \<and> format_line_ok l"
    and bc: "fst (bcftools (bcftools_cmd True (query_string wide (List.map_filter info_sel ls)
               (List.map_filter format_sel ls)) p)) = h # engine_wide vs"
    and vs: "list_all clean_variant vs" and hv: "utf8_valid h"
  shows "convert_vcf_to_tsv isfile vcf_open bcftools p wide True False =
           Exit 0 (render_header_wide None h # map (\<lambda>v. py_join [TAB] (wide_row v)) vs) []"
proof -
  let ?cv = "\<lparr>ofmt = wide, print_header = True, info_fields = List.map_filter info_sel ls,
              format_fields = List.map_filter format_sel ls, samples = vf_samples vf, ann_loc = None\<rparr>"
  let ?st1 = "init_state\<lparr>line_no := 1, printed := [render_header_wide None h]\<rparr>"
  have p1: "process_line ?cv init_state h = Inr ?st1"
    using process_line_wide_header[of ?cv init_state h] hv by (simp add: init_state_def)
  have "map (py_strip [NL]) (engine_wide vs) = map (\<lambda>v. py_join [TAB] (wide_row v)) vs"
    using vs clean_join[OF clean_wide_row] by (auto simp: engine_wide_lines list_all_iff py_strip_snoc)
  then have "run ?cv init_state (h # engine_wide vs) =
      (?st1\<lparr>line_no := 1 + length (engine_wide vs),
             printed := [render_header_wide None h] @ map (\<lambda>v. py_join [TAB] (wide_row v)) vs\<rparr>, None)"
    using p1 run_wide_plain[of ?cv ?st1 "engine_wide vs"] engine_lines_valid(1)[of vs] vs
    by (simp add: list_all_iff)
  then show ?thesis
    using f bc header_fields[OF ok]
    by (simp add: convert_vcf_to_tsv_def hd ann_location_def)
qed

theorem convert_wide_end_to_end_witness:
  "convert_vcf_to_tsv (\<lambda>_. True) (\<lambda>_. Some (\<lparr>vf_header = raw_header [Meta ''##fileformat=VCFv4.2'', Info ''DP'' ''1'' ''Integer'' ''Depth'' [], Format ''GT'' ''1'' ''String'' ''Genotype'' []], vf_samples = [''S1'']\<rparr>))
     (\<lambda>_. (''# [1]CHROM'' # engine_wide [\<lparr>v_fixed = [''1'', ''100'', ''.'', ''A'', ''T'', ''30'', ''PASS''], v_info = [''7''], v_samples = [(''S1'', [''0/1''])]\<rparr>], 0)) ''in.vcf'' wide True False
   = Exit 0 [''CHROM'', py_join [TAB] [''1'', ''100'', ''.'', ''A'', ''T'', ''30'', ''PASS'', ''7'', ''S1'', ''0/1'']] []"
  using convert_wide_end_to_end[of "\<lambda>_. True" "''in.vcf''" "\<lambda>_. Some (\<lparr>vf_header = raw_header [Meta ''##fileformat=VCFv4.2'', Info ''DP'' ''1'' ''Integer'' ''Depth'' [], Format ''GT'' ''1'' ''String'' ''Genotype'' []], vf_samples = [''S1'']\<rparr>)" "\<lparr>vf_header = raw_header [Meta ''##fileformat=VCFv4.2'', Info ''DP'' ''1'' ''Integer'' ''Depth'' [], Format ''GT'' ''1'' ''String'' ''Genotype'' []], vf_samples = [''S1'']\<rparr>" "[Meta ''##fileformat=VCFv4.2'', Info ''DP'' ''1'' ''Integer'' ''Depth'' [], Format ''GT'' ''1'' ''String'' ''Genotype'' []]"
      "\<lambda>_. (''# [1]CHROM'' # engine_wide [\<lparr>v_fixed = [''1'', ''100'', ''.'', ''A'', ''T'', ''30'', ''PASS''], v_info = [''7''], v_samples = [(''S1'', [''0/1''])]\<rparr>], 0)" "''# [1]CHROM''" "[\<lparr>v_fixed = [''1'', ''100'', ''.'', ''A'', ''T'', ''30'', ''PASS''], v_info = [''7''], v_samples = [(''S1'', [''0/1''])]\<rparr>]"]
  by (simp add: info_decl_ok_def format_decl_ok_def number_ok_def int_text_def is_digit_def info_types_def
      py_startswith_def decl_def DESC_LIT_def clean_variant_def clean_def wide_row_def cols_of_def
      render_header_wide_def MARKER_RE_def plus_def one_of_def ms.simps(6) header_strip_chars_def py_strip_def)

text \<open>
  C19.  The exit status of bcftools and its stderr are never read: when bcftools
  fails and prints nothing on stdout, the program prints nothing and exits with
  status 0, as if the VCF had no records.
\<close>

theorem convert_ignores_bcftools_failure:
  "isfile p \<Longrightarrow> vcf_open p = Some vf \<Longrightarrow> (\<forall>c. bcftools c = ([], rc)) \<Longrightarrow>
   convert_vcf_to_tsv isfile vcf_open bcftools p fmt hdr ann = Exit 0 [] []"
  by (simp add: convert_vcf_to_tsv_def init_state_def)

theorem convert_ignores_bcftools_failure_witness:
  "convert_vcf_to_tsv (\<lambda>_. True) (\<lambda>_. Some \<lparr>vf_header = [], vf_samples = [''S1'']\<rparr>) (\<lambda>_. ([], 1))
     ''in.vcf'' long True False = Exit 0 [] []"
  using convert_ignores_bcftools_failure[of "\<lambda>_. True" "''in.vcf''" "\<lambda>_. Some \<lparr>vf_header = [], vf_samples = [''S1'']\<rparr>"
      "\<lparr>vf_header = [], vf_samples = [''S1'']\<rparr>" "\<lambda>_. ([], 1)" 1 long True False]
  by simp

end
