(* ===== verification/Cli.thy ===== *)
theory Cli
  imports Convert
begin

text \<open>
  The command line of \<^verbatim>\<open>vcf2tsv\<close> (\<^verbatim>\<open>cli.py\<close> lines 21--25 and 186--210): \<open>main\<close>
  declares one positional argument \<open>vcf\<close> and the options \<^verbatim>\<open>--format\<close>/\<^verbatim>\<open>-f\<close>
  (\<open>wide\<close> or \<open>long\<close>, default \<open>wide\<close>), \<^verbatim>\<open>--header\<close>/\<^verbatim>\<open>-h\<close> and \<^verbatim>\<open>--ann\<close>/\<^verbatim>\<open>-a\<close>
  (flags, default off), and calls \<open>convert_vcf_to_tsv\<close> with them.  The parsing
  is typer's, done by click, and is modelled from click's parser for these
  option kinds, in click's order: the scan of the arguments (\<open>cli_scan\<close>:
  long options with the value as the next argument or after \<open>=\<close>, groups of
  short options such as \<^verbatim>\<open>-ha\<close> or \<^verbatim>\<open>-flong\<close>, \<^verbatim>\<open>--\<close> ending the options, a lone
  \<^verbatim>\<open>-\<close> as an argument), then the eager \<^verbatim>\<open>--help\<close>, then the conversion of the
  last \<^verbatim>\<open>--format\<close> value, the missing argument and the extra arguments
  (\<open>cli_parse\<close>).  A usage error exits with status 2; the message texts are
  click's without its usage banner and suggestions, and the help text is left
  abstract.
\<close>

record cli_raw =
  raw_format :: "string option"
  raw_header :: bool
  raw_ann :: bool
  raw_help :: bool
  raw_args :: "string list"

definition cli_raw0 :: cli_raw where
  "cli_raw0 = \<lparr>raw_format = None, raw_header = False, raw_ann = False, raw_help = False, raw_args = []\<rparr>"

text \<open>Click's \<open>_match_short_opt\<close>: the characters of a group after the \<^verbatim>\<open>-\<close>; a
  flag goes on to the next character, \<open>f\<close> takes the rest of the group or
  else the next argument as its value.\<close>

fun short_group :: "string \<Rightarrow> string list \<Rightarrow> cli_raw \<Rightarrow> string + string list \<times> cli_raw" where
  "short_group [] xs r = Inr (xs, r)"
| "short_group (c # cs) xs r =
     (if c = CHR ''h'' then short_group cs xs (r\<lparr>raw_header := True\<rparr>)
      else if c = CHR ''a'' then short_group cs xs (r\<lparr>raw_ann := True\<rparr>)
      else if c = CHR ''f'' then
        (if cs \<noteq> [] then Inr (xs, r\<lparr>raw_format := Some cs\<rparr>)
         else (case xs of
                 [] \<Rightarrow> Inl ''Option '-f' requires an argument.''
               | v # xs' \<Rightarrow> Inr (xs', r\<lparr>raw_format := Some v\<rparr>)))
      else Inl (''No such option: -'' @ [c]))"

text \<open>Click's \<open>_match_long_opt\<close>, for the option name and the value after an
  \<open>=\<close> if there is one.\<close>

definition long_opt :: "string \<Rightarrow> string option \<Rightarrow> string list \<Rightarrow> cli_raw \<Rightarrow> string + string list \<times> cli_raw" where
  "long_opt nm ev xs r =
     (if nm = ''--format'' then
        (case ev of
           Some v \<Rightarrow> Inr (xs, r\<lparr>raw_format := Some v\<rparr>)
         | None \<Rightarrow> (case xs of
                      [] \<Rightarrow> Inl ''Option '--format' requires an argument.''
                    | v # xs' \<Rightarrow> Inr (xs', r\<lparr>raw_format := Some v\<rparr>)))
      else if nm \<in> {''--header'', ''--ann'', ''--help''} then
        (case ev of
           Some _ \<Rightarrow> Inl (''Option '' @ [CHR 0x27] @ nm @ [CHR 0x27] @ '' does not take a value.'')
         | None \<Rightarrow> Inr (xs, if nm = ''--header'' then r\<lparr>raw_header := True\<rparr>
                           else if nm = ''--ann'' then r\<lparr>raw_ann := True\<rparr>
                           else r\<lparr>raw_help := True\<rparr>))
      else Inl (''No such option: '' @ nm))"

text \<open>Click's \<open>_process_opts\<close>: an argument with an \<open>=\<close> is split at the first
  one; an unknown name that does not start with \<^verbatim>\<open>--\<close> is read as a group of
  short options.\<close>

definition process_opts :: "string \<Rightarrow> string list \<Rightarrow> cli_raw \<Rightarrow> string + string list \<times> cli_raw" where
  "process_opts x xs r =
     (let (nm, ev) = (if CHR ''='' \<in> set x then (takeWhile (\<lambda>c. c \<noteq> CHR ''='') x,
                                                   Some (tl (dropWhile (\<lambda>c. c \<noteq> CHR ''='') x)))
                        else (x, None))
      in if nm \<in> {''--format'', ''--header'', ''--ann'', ''--help''} then long_opt nm ev xs r
         else if take 2 x = ''--'' then Inl (''No such option: '' @ nm)
         else short_group (tl x) xs r)"

lemma short_group_length: "short_group cs xs r = Inr (ys, r') \<Longrightarrow> length ys \<le> length xs"
  by (induction cs xs r rule: short_group.induct) (auto split: if_splits list.splits)

lemma process_opts_length: "process_opts x xs r = Inr (ys, r') \<Longrightarrow> length ys \<le> length xs"
  by (auto simp: process_opts_def long_opt_def split: if_splits option.splits list.splits
      dest: short_group_length)

text \<open>Click's \<open>_process_args_for_options\<close>: the scan of the argument list.\<close>

function cli_scan :: "string list \<Rightarrow> cli_raw \<Rightarrow> string + cli_raw" where
  "cli_scan [] r = Inr r"
| "cli_scan (x # xs) r =
     (if x = ''--'' then Inr (r\<lparr>raw_args := raw_args r @ xs\<rparr>)
      else if take 1 x = ''-'' \<and> 1 < length x then
        (case process_opts x xs r of
           Inl m \<Rightarrow> Inl m
         | Inr (ys, r') \<Rightarrow> cli_scan ys r')
      else cli_scan xs (r\<lparr>raw_args := raw_args r @ [x]\<rparr>))"
  by pat_completeness auto
termination
  by (relation "measure (\<lambda>(xs, r). length xs)") (auto dest: process_opts_length)

fun parse_format :: "string \<Rightarrow> output_format option" where
  "parse_format v = (if v = ''wide'' then Some wide else if v = ''long'' then Some long else None)"

datatype cli_result = Usage_error string | Help_requested | Parsed string output_format bool bool

text \<open>Click's \<open>parse_args\<close> after the scan: the eager help option first, then
  the options in their order (only \<^verbatim>\<open>--format\<close> can fail its conversion),
  then the argument \<open>vcf\<close>, then the extra arguments.\<close>

definition cli_parse :: "string list \<Rightarrow> cli_result" where
  "cli_parse argv =
     (case cli_scan argv cli_raw0 of
        Inl m \<Rightarrow> Usage_error m
      | Inr r \<Rightarrow>
          (if raw_help r then Help_requested
           else case (case raw_format r of None \<Rightarrow> Some wide | Some v \<Rightarrow> parse_format v) of
             None \<Rightarrow> Usage_error (''Invalid value for '' @ [CHR 0x27] @ ''--format'' @ [CHR 0x27] @
                                   '' / '' @ [CHR 0x27] @ ''-f'' @ [CHR 0x27] @ '': '' @ the (raw_format r))
           | Some f \<Rightarrow>
               (case raw_args r of
                  [] \<Rightarrow> Usage_error (''Missing argument '' @ [CHR 0x27] @ ''VCF'' @ [CHR 0x27] @ ''.'')
                | [p] \<Rightarrow> Parsed p f (raw_header r) (raw_ann r)
                | _ # extra \<Rightarrow> Usage_error (''Got unexpected extra '' @
                                  (if length extra = 1 then ''argument'' else ''arguments'') @
                                  '' ('' @ py_join '' '' extra @ '')''))))"

definition main ::
  "(string \<Rightarrow> bool) \<Rightarrow> (string \<Rightarrow> vcf_file option) \<Rightarrow> (string list \<Rightarrow> string list \<times> nat) \<Rightarrow> string list \<Rightarrow> outcome" where
  "main isfile vcf_open bcftools argv =
     (case cli_parse argv of
        Usage_error m \<Rightarrow> Exit 2 [] [''Error: '' @ m]
      | Help_requested \<Rightarrow> Exit 0 [''Usage: vcf2tsv [OPTIONS] VCF''] []
      | Parsed p f h a \<Rightarrow> convert_vcf_to_tsv isfile vcf_open bcftools p f h a)"

text \<open>The values of the \<open>OutputFormat\<close> enum, which click's \<open>Choice\<close> accepts.\<close>

fun format_value :: "output_format \<Rightarrow> string" where
  "format_value wide = ''wide''"
| "format_value long = ''long''"

text \<open>An argument list that asks for given settings: the path after \<^verbatim>\<open>--\<close>,
  so that any path, one that starts with \<^verbatim>\<open>-\<close> too, is read as the argument.\<close>

definition cli_argv :: "output_format \<Rightarrow> bool \<Rightarrow> bool \<Rightarrow> string \<Rightarrow> string list" where
  "cli_argv f h a p =
     [''--format'', format_value f] @ (if h then [''--header''] else []) @ (if a then [''--ann''] else [])
     @ [''--'', p]"

lemma parse_format_value [simp]: "parse_format (format_value f) = Some f"
  by (cases f) simp_all

lemmas cli_parse_simps = cli_parse_def cli_raw0_def process_opts_def long_opt_def

text \<open>C23: every choice of format, flags and path survives the command line:
  parsing the argument list \<open>cli_argv\<close> gives back exactly the settings and the
  path it was built from.\<close>

theorem cli_argv_roundtrip: "cli_parse (cli_argv f h a p) = Parsed p f h a"
  by (cases f; cases h; cases a) (simp_all add: cli_argv_def cli_parse_simps)

text \<open>C24: a path alone on the command line, when it does not look like an
  option, runs the conversion with the declared defaults: wide format, no
  header, no ANN expansion.\<close>

theorem main_defaults:
  assumes "take 1 p \<noteq> ''-'' \<or> p = ''-''"
  shows "main isf vo bc [p] = convert_vcf_to_tsv isf vo bc p wide False False"
  using assms by (auto simp: main_def cli_parse_simps)

theorem main_defaults_witness:
  "main (\<lambda>_. False) (\<lambda>_. None) (\<lambda>_. ([], 0)) [''in.vcf''] =
     convert_vcf_to_tsv (\<lambda>_. False) (\<lambda>_. None) (\<lambda>_. ([], 0)) ''in.vcf'' wide False False"
  by (rule main_defaults) simp

text \<open>C25: a path that starts with \<^verbatim>\<open>-\<close> followed by a character that is not an
  option letter cannot be passed without \<^verbatim>\<open>--\<close>: \<open>main\<close> exits with status 2
  and a usage error and never reaches the conversion.\<close>

theorem main_dash_path_rejected:
  assumes "p = CHR ''-'' # c # q" "c \<notin> set ''-haf''"
  shows "main isf vo bc [p] = Exit 2 [] [''Error: No such option: -'' @ [c]]"
  using assms by (auto simp: main_def cli_parse_simps)

theorem main_dash_path_rejected_witness:
  "main (\<lambda>_. True) (\<lambda>_. None) (\<lambda>_. ([], 0)) [''-s.vcf''] = Exit 2 [] [''Error: No such option: -s'']"
  using main_dash_path_rejected[of "''-s.vcf''" "CHR ''s''" "''.vcf''"] by simp

end
