(* ===== verification/Process.thy ===== *)
theory Process
  imports Cli
begin

text \<open>
  The process around \<open>main\<close>: loading the module and delivering its output.  At
  load time \<^verbatim>\<open>cli.py\<close> imports \<open>SIGPIPE\<close> from \<open>signal\<close> (line 7) and then, in a
  \<open>try\<close> (lines 14--19), restores the default action of \<open>SIGPIPE\<close>, so that a
  reader that closes the pipe early ends the process by the signal instead of a
  \<open>BrokenPipeError\<close>.  The platform says whether the signal exists and whether the
  module is loaded on the main thread (\<open>signal.signal\<close> raises \<open>ValueError\<close>
  elsewhere).  Python itself ignores \<open>SIGPIPE\<close>, so without the handler a write to
  a closed pipe raises \<open>BrokenPipeError\<close>.  The reader is modelled by the number of
  lines it takes before it closes the pipe, or \<open>None\<close> when it reads everything.
\<close>

record platform =
  has_sigpipe :: bool
  main_thread :: bool

datatype sigpipe_action = Default_action | Ignored

datatype process_end = Exited nat "string list" "string list" | Killed nat "string list"

text \<open>Line 7: the names are imported at module level, outside any \<open>try\<close>.\<close>

definition import_error_text :: string where
  "import_error_text = ''ImportError: cannot import name '' @ [CHR 0x27] @ ''SIGPIPE'' @ [CHR 0x27] @ '' from '' @ [CHR 0x27] @ ''signal'' @ [CHR 0x27]"

definition import_signal :: "platform \<Rightarrow> string option" where
  "import_signal pl = (if has_sigpipe pl then None else Some import_error_text)"

text \<open>Lines 15--19: \<open>signal(SIGPIPE, SIG_DFL)\<close>; an \<open>AttributeError\<close> (no such
  signal) or a \<open>ValueError\<close> (not the main thread) is swallowed and Python's own
  setting stays.\<close>

definition install_sigpipe :: "platform \<Rightarrow> sigpipe_action" where
  "install_sigpipe pl = (if has_sigpipe pl \<and> main_thread pl then Default_action else Ignored)"

definition deliver :: "sigpipe_action \<Rightarrow> nat option \<Rightarrow> outcome \<Rightarrow> process_end" where
  "deliver act reader res =
     (case res of Exit c out err \<Rightarrow>
        (case reader of
           None \<Rightarrow> Exited c out err
         | Some k \<Rightarrow>
             if length out \<le> k then Exited c out err
             else (case act of
                     Default_action \<Rightarrow> Killed 13 (take k out)
                   | Ignored \<Rightarrow> Exited 1 (take k out) [''BrokenPipeError: [Errno 32] Broken pipe''])))"

definition vcf2tsv_process ::
  "platform \<Rightarrow> (string \<Rightarrow> bool) \<Rightarrow> (string \<Rightarrow> vcf_file option) \<Rightarrow> (string list \<Rightarrow> string list \<times> nat)
   \<Rightarrow> string list \<Rightarrow> nat option \<Rightarrow> process_end" where
  "vcf2tsv_process pl isfile vcf_open bcftools argv reader =
     (case import_signal pl of
        Some e \<Rightarrow> Exited 1 [] [e]
      | None \<Rightarrow> deliver (install_sigpipe pl) reader (main isfile vcf_open bcftools argv))"

text \<open>
  C30.  On a platform without \<open>SIGPIPE\<close> (Windows) the program cannot start: the
  import on line 7 fails before the \<open>try\<close> of lines 15--19 that was written for
  that platform, so every invocation exits with status 1 and an \<open>ImportError\<close>,
  whatever its arguments, input and reader.
\<close>

theorem no_sigpipe_import_error:
  assumes "\<not> has_sigpipe pl"
  shows "vcf2tsv_process pl isfile vcf_open bcftools argv reader =
           Exited 1 [] [import_error_text]"
  using assms by (simp add: vcf2tsv_process_def import_signal_def)

theorem no_sigpipe_import_error_witness:
  "vcf2tsv_process \<lparr>has_sigpipe = False, main_thread = True\<rparr> (\<lambda>_. True) (\<lambda>_. None) (\<lambda>_. ([], 0))
     [''--help''] None = Exited 1 [] [import_error_text]"
  using no_sigpipe_import_error[of "\<lparr>has_sigpipe = False, main_thread = True\<rparr>"] by simp



end
