(* ===== verification/HeaderLines.thy ===== *)
theory HeaderLines
  imports Transformer Regex_Det
begin

text \<open>
  Properties of the header renderers of \<^verbatim>\<open>convert_vcf_to_tsv\<close> (\<^verbatim>\<open>cli.py\<close>
  lines 134--154).  The regular expression \<open>r"\[[0-9]+\]"\<close> of the two \<open>re.sub\<close>
  calls is shown equal to a direct scanner \<open>strip_markers\<close> that deletes every
  bracketed decimal number; with it the tab count of a rendered header is
  computed, and compared with the tab count of the rows the ANN fan-out prints.
  The \<open>F_\<close> prefix of the long header is given in closed form.
\<close>

subsection \<open>A direct scanner for the marker pattern\<close>

definition marker_rest :: "string \<Rightarrow> string option" where
  "marker_rest s =
     (case s of
        x # y # ys \<Rightarrow>
          if x = CHR ''['' \<and> is_digit y \<and> take 1 (dropWhile is_digit ys) = '']''
          then Some (drop 1 (dropWhile is_digit ys)) else None
      | _ \<Rightarrow> None)"

lemma marker_rest_shorter: "marker_rest s = Some r \<Longrightarrow> length r < length s"
proof -
  assume "marker_rest s = Some r"
  then obtain x y ys where "s = x # y # ys" "r = drop 1 (dropWhile is_digit ys)"
    by (auto simp: marker_rest_def split: list.splits if_splits)
  moreover have "length (dropWhile is_digit ys) \<le> length ys" by (rule length_dropWhile_le)
  ultimately show ?thesis by simp
qed

text \<open>
  \<open>marker_rest s\<close> is the rest of \<open>s\<close> after a marker \<open>[d..d]\<close> at its start, if one
  stands there; \<open>strip_markers\<close> deletes the markers scanning left to right.
\<close>

function strip_markers :: "string \<Rightarrow> string" where
  "strip_markers s =
     (case s of [] \<Rightarrow> []
      | x # xs \<Rightarrow> (case marker_rest s of Some r \<Rightarrow> strip_markers r | None \<Rightarrow> x # strip_markers xs))"
  by auto
termination
  by (relation "measure length") (auto dest: marker_rest_shorter)

declare strip_markers.simps [simp del]

subsection \<open>The marker pattern matches exactly the markers\<close>

lemma one_of_digits: "one_of ''0123456789'' = Chr is_digit"
  by (simp add: one_of_def is_digit_def fun_eq_iff)

lemma ms_MARKER_RE:
  "ms MARKER_RE c s = (case marker_rest s of None \<Rightarrow> [] | Some r \<Rightarrow> [(c, r)])"
proof (cases s)
  case (Cons x xs)
  have m: "ms MARKER_RE c (x # xs) =
      (if x = CHR ''['' then ms (seqs [plus (Chr is_digit), Lit '']'']) c xs else [])"
    by (simp add: MARKER_RE_def one_of_digits del: ms.simps(4))
  show ?thesis
  proof (cases xs)
    case (Cons y ys)
    have nd: "\<not> is_digit CHR '']''" by (simp add: is_digit_def)
    have f: "filter (\<lambda>s'. take 1 s' = '']'') (rests is_digit ys) =
            (if take 1 (dropWhile is_digit ys) = '']'' then [dropWhile is_digit ys] else [])"
      using filter_rests_stop[of "'']''" is_digit ys] nd by simp
    have "ms (seqs [plus (Chr is_digit), Lit '']'']) c (y # ys) =
            (if is_digit y \<and> take 1 (dropWhile is_digit ys) = '']''
             then [(c, drop 1 (dropWhile is_digit ys))] else [])"
    proof (cases "is_digit y")
      case True
      then show ?thesis
        by (simp only: ms_seqs_Lit[where rs = "[]"] ms_plus_chr if_True filter_map_Pair)
          (insert f, simp)
    qed (simp add: ms_seqs_Lit[where rs = "[]"] ms_plus_chr)
    with m \<open>s = x # xs\<close> Cons show ?thesis by (simp add: marker_rest_def)
  qed (insert m, simp add: marker_rest_def plus_def \<open>s = x # xs\<close>)
qed (simp add: MARKER_RE_def marker_rest_def)

lemma re_sub_del_MARKER_RE: "re_sub_del MARKER_RE s = strip_markers s"
proof (induction s rule: strip_markers.induct)
  case (1 s)
  show ?case
  proof (cases s)
    case (Cons x xs)
    show ?thesis
    proof (cases "marker_rest s")
      case None
      with 1 Cons show ?thesis by (simp add: ms_MARKER_RE strip_markers.simps[of "x # xs"])
    next
      case (Some r)
      with 1 Cons marker_rest_shorter[OF Some] show ?thesis
        by (simp add: ms_MARKER_RE strip_markers.simps[of "x # xs"])
    qed
  qed (simp add: strip_markers.simps)
qed

lemma count_strip_markers:
  "c \<notin> set ''[]0123456789'' \<Longrightarrow> count_list (strip_markers s) c = count_list s c"
proof (induction s rule: strip_markers.induct)
  case (1 s)
  show ?case
  proof (cases s)
    case (Cons x xs)
    show ?thesis
    proof (cases "marker_rest s")
      case None
      with 1 Cons show ?thesis by (simp add: strip_markers.simps[of "x # xs"])
    next
      case (Some r)
      then obtain y ys where s: "s = CHR ''['' # y # ys" "is_digit y"
          "take 1 (dropWhile is_digit ys) = '']''" "r = drop 1 (dropWhile is_digit ys)"
        by (auto simp: marker_rest_def split: list.splits if_splits)
      have dw: "dropWhile is_digit ys = CHR '']'' # r"
        using s(3,4) by (cases "dropWhile is_digit ys") auto
      have nc: "\<not> is_digit c" "c \<noteq> y" "CHR '']'' \<noteq> c"
        using "1.prems" s(2) by (auto simp: is_digit_def)
      have "count_list ys c = count_list r c"
        using count_dropWhile[of is_digit c ys] dw nc by simp
      moreover have "count_list (strip_markers r) c = count_list r c"
        using 1 Cons Some by simp
      moreover have "strip_markers s = strip_markers r"
        using Some Cons by (subst strip_markers.simps) simp
      moreover have "count_list s c = count_list ys c"
        using s(1) nc "1.prems" by auto
      ultimately show ?thesis by simp
    qed
  qed (simp add: strip_markers.simps)
qed

lemma render_header_wide_tabs:
  "count_list (render_header_wide al h) TAB =
   count_list (case al of None \<Rightarrow> h | Some k \<Rightarrow> py_join [TAB] (ann_splice_header k (py_split TAB h))) TAB"
proof -
  have t: "TAB \<notin> set ''[]0123456789''" "TAB \<notin> set header_strip_chars" "TAB \<notin> set '':''"
    "TAB \<notin> set ''_''" "'':'' \<noteq> []" by (simp_all add: header_strip_chars_def)
  show ?thesis
    unfolding render_header_wide_def Let_def re_sub_del_MARKER_RE
    by (simp only: count_py_replace[OF t(5,3,4)] count_py_strip[OF t(2)] count_strip_markers[OF t(1)])
qed

subsection \<open>Column counts\<close>

lemma ANN_HEADER_no_tab: "\<forall>x \<in> set ANN_HEADER. TAB \<notin> set x"
  by (simp add: ANN_HEADER_def)

lemma no_tab_take_drop:
  "\<forall>x \<in> set ys. TAB \<notin> set x \<Longrightarrow>
   \<forall>x \<in> set (take i (py_split TAB s) @ ys @ drop j (py_split TAB s)). TAB \<notin> set x"
  using py_split_parts_no_sep[of _ TAB s] by (auto dest: in_set_takeD in_set_dropD)

lemma ann_splice_header_cols:
  assumes "1 \<le> k" "k < length (py_split TAB h)"
  shows "length (py_split TAB (py_join [TAB] (ann_splice_header k (py_split TAB h)))) =
         length (py_split TAB h) + 13"
proof -
  let ?p = "py_split TAB h"
  have e: "ann_splice_header k ?p = take (k - 1) ?p @ ANN_HEADER @ drop (Suc k) ?p"
    by (rule ann_splice_header_eq[OF assms(1)])
  have "take (k - 1) ?p @ ANN_HEADER @ drop (Suc k) ?p \<noteq> []"
    by (simp add: ANN_HEADER_def)
  moreover have "\<forall>x \<in> set (take (k - 1) ?p @ ANN_HEADER @ drop (Suc k) ?p). TAB \<notin> set x"
    by (rule no_tab_take_drop[OF ANN_HEADER_no_tab])
  ultimately have "py_split TAB (py_join [TAB] (ann_splice_header k ?p)) =
      take (k - 1) ?p @ ANN_HEADER @ drop (Suc k) ?p"
    unfolding e by (rule py_split_join)
  also have "length \<dots> = length ?p + 13"
    using assms by (simp del: py_split_length)
  finally show ?thesis .
qed

lemma wide_ann_row_cols:
  assumes "1 \<le> k" "Suc (Suc k) \<le> length (py_split TAB d)"
    and "wide_data_line (Some k) d = Inr rows" "r \<in> set rows"
  shows "\<exists>ve \<in> set (py_split CHR '','' (py_split TAB d ! k)).
           length (py_split TAB r) + 3 = length (py_split TAB d) + length (py_split CHR ''|'' ve)"
proof -
  let ?p = "py_split TAB d"
  from assms obtain ve where ve: "ve \<in> set (py_split CHR '','' (?p ! k))"
    and r: "r = py_strip [NL] (py_join [TAB] (take (k - 1) ?p @ py_split CHR ''|'' ve @ drop (Suc (Suc k)) ?p))"
    by (auto simp: wide_data_line_def ann_rows_eq)
  have pk: "TAB \<notin> set (?p ! k)"
    using py_split_parts_no_sep[of "?p ! k" TAB d] assms(2) by simp
  have "\<forall>x \<in> set (py_split CHR ''|'' ve). TAB \<notin> set x"
    using py_split_parts_subset[OF ve] py_split_parts_subset[of _ "CHR ''|''" ve] pk by blast
  then have free: "\<forall>x \<in> set (take (k - 1) ?p @ py_split CHR ''|'' ve @ drop (Suc (Suc k)) ?p). TAB \<notin> set x"
    by (rule no_tab_take_drop)
  have "length (py_split TAB r) = Suc (count_list (py_join [TAB]
          (take (k - 1) ?p @ py_split CHR ''|'' ve @ drop (Suc (Suc k)) ?p)) TAB)"
    by (simp add: r count_py_strip)
  also have "\<dots> = length (take (k - 1) ?p @ py_split CHR ''|'' ve @ drop (Suc (Suc k)) ?p)"
    using count_list_join_free[OF _ free] by simp
  finally show ?thesis using ve assms(1,2) by (intro bexI[OF _ ve]) (simp del: py_split_length)
qed

text \<open>
  C9.  With ANN expansion in the wide format, the rendered header has 13 columns
  more than bcftools' raw header (ANN and the column before it give way to the 15
  ANN names), while every fanned-out data row has 12 more than the raw row when
  each ANN record has the 15 fields the spec fixes (three columns give way to 15
  fields).  Header and data rows therefore differ by one column, against the
  spec's round-trip property that they agree.
\<close>

theorem wide_ann_header_data_cols:
  assumes "1 \<le> k" "Suc (Suc k) \<le> length (py_split TAB h)"
    and "length (py_split TAB d) = length (py_split TAB h)"
    and "\<forall>ve \<in> set (py_split CHR '','' (py_split TAB d ! k)). length (py_split CHR ''|'' ve) = 15"
    and "wide_data_line (Some k) d = Inr rows"
  shows "length (py_split TAB (render_header_wide (Some k) h)) = length (py_split TAB h) + 13
         \<and> (\<forall>r \<in> set rows. length (py_split TAB r) = length (py_split TAB h) + 12)"
proof
  have "length (py_split TAB (render_header_wide (Some k) h)) =
        length (py_split TAB (py_join [TAB] (ann_splice_header k (py_split TAB h))))"
    using render_header_wide_tabs[of "Some k" h] by simp
  then show "length (py_split TAB (render_header_wide (Some k) h)) = length (py_split TAB h) + 13"
    using ann_splice_header_cols[OF assms(1)] assms(2) by simp
next
  show "\<forall>r \<in> set rows. length (py_split TAB r) = length (py_split TAB h) + 12"
  proof
    fix r assume "r \<in> set rows"
    from wide_ann_row_cols[OF assms(1) _ assms(5) this] assms(2,3,4)
    show "length (py_split TAB r) = length (py_split TAB h) + 12"
      by (fastforce simp del: py_split_length)
  qed
qed

theorem wide_ann_header_data_cols_witness:
  "wide_data_line (Some 8) (py_join [TAB] [''1'', ''100'', ''.'', ''A'', ''T'', ''30'', ''PASS'', ''7'', ''A|b|c|d|e|f|g|h|i|j|k|l|m|n|o'', ''0.5'', ''S1'', ''0/1''] @ [NL]) = Inr [py_join [TAB] [''1'', ''100'', ''.'', ''A'', ''T'', ''30'', ''PASS'', ''A'', ''b'', ''c'', ''d'', ''e'', ''f'', ''g'', ''h'', ''i'', ''j'', ''k'', ''l'', ''m'', ''n'', ''o'', ''S1'', ''0/1'']]
   \<and> length (py_split TAB (render_header_wide (Some 8) (py_join [TAB] [''# [1]CHROM'', ''[2]POS'', ''[3]ID'', ''[4]REF'', ''[5]ALT'', ''[6]QUAL'', ''[7]FILTER'', ''[8]INFO/DP'', ''[9]INFO/ANN'', ''[10]INFO/AF'', ''[11]SAMPLE'', ''[12]S1:GT''] @ [NL]))) = 25
   \<and> length (py_split TAB (py_join [TAB] [''1'', ''100'', ''.'', ''A'', ''T'', ''30'', ''PASS'', ''A'', ''b'', ''c'', ''d'', ''e'', ''f'', ''g'', ''h'', ''i'', ''j'', ''k'', ''l'', ''m'', ''n'', ''o'', ''S1'', ''0/1''])) = 24"
proof -
  have d: "wide_data_line (Some 8) (py_join [TAB] [''1'', ''100'', ''.'', ''A'', ''T'', ''30'', ''PASS'', ''7'', ''A|b|c|d|e|f|g|h|i|j|k|l|m|n|o'', ''0.5'', ''S1'', ''0/1''] @ [NL]) = Inr [py_join [TAB] [''1'', ''100'', ''.'', ''A'', ''T'', ''30'', ''PASS'', ''A'', ''b'', ''c'', ''d'', ''e'', ''f'', ''g'', ''h'', ''i'', ''j'', ''k'', ''l'', ''m'', ''n'', ''o'', ''S1'', ''0/1'']]"
    by (simp add: wide_data_line_def ann_rows_eq py_strip_def)
  have "1 \<le> (8::nat)" "Suc (Suc 8) \<le> length (py_split TAB (py_join [TAB] [''# [1]CHROM'', ''[2]POS'', ''[3]ID'', ''[4]REF'', ''[5]ALT'', ''[6]QUAL'', ''[7]FILTER'', ''[8]INFO/DP'', ''[9]INFO/ANN'', ''[10]INFO/AF'', ''[11]SAMPLE'', ''[12]S1:GT''] @ [NL]))"
    "length (py_split TAB (py_join [TAB] [''1'', ''100'', ''.'', ''A'', ''T'', ''30'', ''PASS'', ''7'', ''A|b|c|d|e|f|g|h|i|j|k|l|m|n|o'', ''0.5'', ''S1'', ''0/1''] @ [NL])) = length (py_split TAB (py_join [TAB] [''# [1]CHROM'', ''[2]POS'', ''[3]ID'', ''[4]REF'', ''[5]ALT'', ''[6]QUAL'', ''[7]FILTER'', ''[8]INFO/DP'', ''[9]INFO/ANN'', ''[10]INFO/AF'', ''[11]SAMPLE'', ''[12]S1:GT''] @ [NL]))"
    "\<forall>ve \<in> set (py_split CHR '','' (py_split TAB (py_join [TAB] [''1'', ''100'', ''.'', ''A'', ''T'', ''30'', ''PASS'', ''7'', ''A|b|c|d|e|f|g|h|i|j|k|l|m|n|o'', ''0.5'', ''S1'', ''0/1''] @ [NL]) ! 8)). length (py_split CHR ''|'' ve) = 15"
    by simp_all
  from wide_ann_header_data_cols[OF this d] d show ?thesis by simp
qed

text \<open>
  C20.  A variant whose ANN value is empty is printed as one row, as the spec
  says, but the empty value splits into a single empty field, not 15: the three
  columns around the ANN column give way to one empty column, so the row has two
  columns fewer than the raw row and 15 fewer than the rendered header.
\<close>

theorem wide_ann_empty_value:
  assumes "1 \<le> k" "Suc (Suc k) \<le> length (py_split TAB d)" "py_split TAB d ! k = []"
  shows "\<exists>r. wide_data_line (Some k) d = Inr [r] \<and> length (py_split TAB r) + 2 = length (py_split TAB d)"
proof -
  let ?r = "py_strip [NL] (py_join [TAB] (take (k - 1) (py_split TAB d) @ [[]] @ drop (Suc (Suc k)) (py_split TAB d)))"
  have w: "wide_data_line (Some k) d = Inr [?r]"
    using assms by (simp add: wide_data_line_def ann_rows_eq)
  from wide_ann_row_cols[OF assms(1,2) w] assms(3)
  have "length (py_split TAB ?r) + 2 = length (py_split TAB d)" by (simp del: py_split_length)
  with w show ?thesis by blast
qed

theorem wide_ann_empty_value_witness:
  "wide_data_line (Some 8) (py_join [TAB] [''1'', ''100'', ''.'', ''A'', ''T'', ''30'', ''PASS'', ''7'', [], ''0.5'', ''S1'', ''0/1''] @ [NL]) = Inr [py_join [TAB] [''1'', ''100'', ''.'', ''A'', ''T'', ''30'', ''PASS'', [], ''S1'', ''0/1'']]
   \<and> length (py_split TAB (py_join [TAB] [''1'', ''100'', ''.'', ''A'', ''T'', ''30'', ''PASS'', [], ''S1'', ''0/1''])) = 10"
proof -
  have w: "wide_data_line (Some 8) (py_join [TAB] [''1'', ''100'', ''.'', ''A'', ''T'', ''30'', ''PASS'', ''7'', [], ''0.5'', ''S1'', ''0/1''] @ [NL]) = Inr [py_join [TAB] [''1'', ''100'', ''.'', ''A'', ''T'', ''30'', ''PASS'', [], ''S1'', ''0/1'']]"
    by (simp add: wide_data_line_def ann_rows_eq py_strip_def)
  have "1 \<le> (8::nat)" "Suc (Suc 8) \<le> length (py_split TAB (py_join [TAB] [''1'', ''100'', ''.'', ''A'', ''T'', ''30'', ''PASS'', ''7'', [], ''0.5'', ''S1'', ''0/1''] @ [NL]))" "py_split TAB (py_join [TAB] [''1'', ''100'', ''.'', ''A'', ''T'', ''30'', ''PASS'', ''7'', [], ''0.5'', ''S1'', ''0/1''] @ [NL]) ! 8 = []"
    by simp_all
  from wide_ann_empty_value[OF this] w show ?thesis by simp
qed

text \<open>
  C10.  Both header renderers delete exactly the bcftools column markers
  \<open>[n]\<close> (a bracket, one or more decimal digits, a bracket): the \<open>re.sub\<close> they
  call computes the same string as the scanner \<open>strip_markers\<close>.
\<close>

theorem header_render_marker_scanner:
  "render_header_wide al h =
     py_replace '':'' ''_'' (py_strip header_strip_chars (strip_markers
       (case al of None \<Rightarrow> h | Some k \<Rightarrow> py_join [TAB] (ann_splice_header k (py_split TAB h)))))
   \<and> render_header_long al n h =
     py_replace ''-->'' [] (py_join [TAB] (f_prefix_cols n
       (let header = map unqualify (py_split TAB (py_strip header_strip_chars (strip_markers h)))
        in case al of None \<Rightarrow> header | Some k \<Rightarrow> ann_splice_header k header)))"
  by (simp add: render_header_wide_def render_header_long_def re_sub_del_MARKER_RE Let_def)

text \<open>
  C11.  The \<open>F_\<close> prefix of the long header applies to the last
  \<open>len(format_fields)\<close> columns, and to all of them when there is no FORMAT field:
  \<open>header[:-0]\<close> is empty and \<open>header[-0:]\<close> is the whole header.
\<close>

theorem f_prefix_cols_eq:
  "f_prefix_cols m h =
     (if m = 0 then map (\<lambda>x. ''F_'' @ x) h
      else take (length h - m) h @ map (\<lambda>x. ''F_'' @ x) (drop (length h - m) h))"
  by (simp add: f_prefix_cols_def py_upto_def py_from_def py_bound_neg_nat)

end
