(* ===== verification/Bcftools.thy ===== *)
theory Bcftools
  imports Engine
begin

text \<open>
  bcftools is not part of the repository; this theory models, from its
  documentation, how \<^verbatim>\<open>bcftools query -f\<close> turns a format string into text for one
  record, for the constructs the template of \<^verbatim>\<open>cli.py\<close> (lines 103--118) uses: the
  escapes \<^verbatim>\<open>\\t\<close> and \<^verbatim>\<open>\\n\<close>, fields \<open>%NAME\<close> (the seven fixed columns, INFO
  tags with or without the \<open>INFO/\<close> prefix, a missing tag printing \<open>.\<close>), and a
  \<open>[...]\<close> block evaluated once per sample, where \<open>%SAMPLE\<close> is the sample name
  and \<open>%NAME\<close> a FORMAT tag.  A tag name runs over letters, digits, \<open>_\<close>, \<open>.\<close>
  and \<open>/\<close>.  The theorems show that the template the code builds makes bcftools
  print exactly the text \<open>Engine\<close> assumes, for tag names as the VCF
  specification allows them.
\<close>

definition id_char :: "char \<Rightarrow> bool" where
  "id_char c \<longleftrightarrow> c \<in> set (''ABCDEFGHIJKLMNOPQRSTUVWXYZabcdefghijklmnopqrstuvwxyz0123456789_.'')"

definition name_char :: "char \<Rightarrow> bool" where
  "name_char c \<longleftrightarrow> id_char c \<or> c = CHR ''/''"

function bq_text :: "(string \<Rightarrow> string) \<Rightarrow> string \<Rightarrow> string" where
  "bq_text f [] = []"
| "bq_text f (c # cs) =
     (if c = CHR 0x5C \<and> cs \<noteq> [] \<and> hd cs = CHR ''t'' then TAB # bq_text f (tl cs)
      else if c = CHR 0x5C \<and> cs \<noteq> [] \<and> hd cs = CHR ''n'' then NL # bq_text f (tl cs)
      else if c = CHR ''%'' then f (takeWhile name_char cs) @ bq_text f (dropWhile name_char cs)
      else c # bq_text f cs)"
  by pat_completeness auto
termination
  by (relation "measure (\<lambda>(f, s). length s)") (auto simp: le_imp_less_Suc length_dropWhile_le)

function bq_query :: "(string \<Rightarrow> string) \<Rightarrow> (string \<Rightarrow> string) list \<Rightarrow> string \<Rightarrow> string" where
  "bq_query f gs s =
     bq_text f (takeWhile (\<lambda>c. c \<noteq> CHR ''['') s) @
     (case dropWhile (\<lambda>c. c \<noteq> CHR ''['') s of
        [] \<Rightarrow> []
      | _ # r \<Rightarrow> concat (map (\<lambda>g. bq_text g (takeWhile (\<lambda>c. c \<noteq> CHR '']'') r)) gs)
                  @ bq_query f gs (drop 1 (dropWhile (\<lambda>c. c \<noteq> CHR '']'') r)))"
  by pat_completeness auto
termination
proof (relation "measure (\<lambda>(f, gs, s). length s)")
  fix f gs s x r
  assume "dropWhile (\<lambda>c. c \<noteq> CHR ''['') s = x # r"
  then have "length r < length s"
    using length_dropWhile_le[of "\<lambda>c. c \<noteq> CHR ''['' " s] by simp
  then show "((f, gs, drop 1 (dropWhile (\<lambda>c. c \<noteq> CHR '']'') r)), f, gs, s) \<in> measure (\<lambda>(f, gs, s). length s)"
    using length_dropWhile_le[of "\<lambda>c. c \<noteq> CHR '']''" r] by simp
qed simp

declare bq_query.simps [simp del]

definition fixed_names :: "string list" where
  "fixed_names = [''CHROM'', ''POS'', ''ID'', ''REF'', ''ALT'', ''QUAL'', ''FILTER'']"

definition value_of :: "string list \<Rightarrow> string list \<Rightarrow> string \<Rightarrow> string" where
  "value_of names vals x = (case map_of (zip names vals) x of Some v \<Rightarrow> v | None \<Rightarrow> ''.'')"

definition site_tag :: "string list \<Rightarrow> variant \<Rightarrow> string \<Rightarrow> string" where
  "site_tag infos v x =
     (if x \<in> set fixed_names then value_of fixed_names (v_fixed v) x
      else value_of infos (v_info v) (if take 5 x = ''INFO/'' then drop 5 x else x))"

definition sample_tag :: "string list \<Rightarrow> string \<times> string list \<Rightarrow> string \<Rightarrow> string" where
  "sample_tag fmts s x = (if x = ''SAMPLE'' then fst s else value_of fmts (snd s) x)"

definition bq_variant :: "string list \<Rightarrow> string list \<Rightarrow> string \<Rightarrow> variant \<Rightarrow> string" where
  "bq_variant infos fmts q v = bq_query (site_tag infos v) (map (sample_tag fmts) (v_samples v)) q"

definition info_prefix :: "string \<Rightarrow> string" where
  "info_prefix x = ''INFO/'' @ x"

definition variant_shape :: "string list \<Rightarrow> string list \<Rightarrow> variant \<Rightarrow> bool" where
  "variant_shape infos fmts v \<longleftrightarrow> length (v_fixed v) = 7 \<and> length (v_info v) = length infos
     \<and> list_all (\<lambda>s. length (snd s) = length fmts) (v_samples v)"

definition tags_ok :: "string list \<Rightarrow> bool" where
  "tags_ok names \<longleftrightarrow> distinct names \<and>
     (\<forall>x \<in> set names. x \<noteq> [] \<and> list_all id_char x \<and> x \<notin> set fixed_names \<and> x \<noteq> ''SAMPLE'')"

declare bq_text.simps(2) [simp del]

lemma bq_text_esc_t [simp]: "bq_text f (esc_t @ r) = TAB # bq_text f r"
  by (simp add: esc_t_def bq_text.simps(2))

lemma bq_text_esc_n [simp]: "bq_text f (esc_n @ r) = NL # bq_text f r"
  by (simp add: esc_n_def bq_text.simps(2))

lemma bq_text_esc_n_end [simp]: "bq_text f esc_n = [NL]"
  using bq_text_esc_n[of f "[]"] by simp

lemma bq_text_esc_t_end [simp]: "bq_text f esc_t = [TAB]"
  using bq_text_esc_t[of f "[]"] by simp

lemma esc_n_no_bracket [simp]: "CHR ''['' \<notin> set esc_n"
  by (simp add: esc_n_def)

lemma bq_text_plain [simp]:
  "c \<noteq> CHR 0x5C \<Longrightarrow> c \<noteq> CHR ''%'' \<Longrightarrow> bq_text f (c # r) = c # bq_text f r"
  by (simp add: bq_text.simps(2))

lemma bq_text_field:
  assumes "list_all name_char x" "r = [] \<or> \<not> name_char (hd r)"
  shows "bq_text f (CHR ''%'' # x @ r) = f x @ bq_text f r"
proof -
  have r: "takeWhile name_char r = [] \<and> dropWhile name_char r = r"
    using assms(2) by (cases r) auto
  have "takeWhile name_char (x @ r) = x" "dropWhile name_char (x @ r) = r"
    using assms(1) r by (simp_all add: list_all_iff takeWhile_append2 dropWhile_append2)
  then show ?thesis by (simp add: bq_text.simps(2))
qed

lemma bq_text_fields:
  assumes "\<forall>x \<in> set xs. list_all name_char x" "r = [] \<or> \<not> name_char (hd r)"
  shows "bq_text f (py_join esc_t (map (\<lambda>x. CHR ''%'' # x) xs) @ r) = py_join [TAB] (map f xs) @ bq_text f r"
  using assms
proof (induction xs)
  case (Cons x xs)
  show ?case
  proof (cases xs)
    case Nil
    with Cons.prems show ?thesis by (simp add: bq_text_field)
  next
    case (Cons y ys)
    have "\<not> name_char (hd (esc_t @ py_join esc_t (map (\<lambda>x. CHR ''%'' # x) xs) @ r))"
      by (simp add: esc_t_def name_char_def id_char_def)
    with Cons.prems Cons.IH Cons show ?thesis
      by (simp add: bq_text_field[of x] py_join_Cons)
  qed
qed simp

lemma takeWhile_upto:
  "c \<notin> set a \<Longrightarrow> takeWhile (\<lambda>x. x \<noteq> c) (a @ c # r) = a \<and> dropWhile (\<lambda>x. x \<noteq> c) (a @ c # r) = c # r"
  by (induction a) auto

lemma bq_query_block:
  assumes "CHR ''['' \<notin> set a" "CHR '']'' \<notin> set b"
  shows "bq_query f gs (a @ CHR ''['' # b @ CHR '']'' # c) =
           bq_text f a @ concat (map (\<lambda>g. bq_text g b) gs) @ bq_query f gs c"
proof -
  note t1 = takeWhile_upto[OF assms(1), of "b @ CHR '']'' # c"]
  note t2 = takeWhile_upto[OF assms(2), of c]
  show ?thesis
    by (subst bq_query.simps) (simp only: t1 t2 list.case drop_Suc_Cons drop_0 One_nat_def)
qed

lemma bq_query_plain: "CHR ''['' \<notin> set a \<Longrightarrow> bq_query f gs a = bq_text f a"
proof -
  assume a: "CHR ''['' \<notin> set a"
  then have t: "takeWhile (\<lambda>c. c \<noteq> CHR ''['') a = a" and d: "dropWhile (\<lambda>c. c \<noteq> CHR ''['') a = []"
    by (auto simp: takeWhile_eq_all_conv dropWhile_eq_Nil_conv)
  show ?thesis by (subst bq_query.simps) (simp only: t d list.case append_Nil2)
qed

lemma not_in_py_join: "c \<notin> set sep \<Longrightarrow> \<forall>x \<in> set xs. c \<notin> set x \<Longrightarrow> c \<notin> set (py_join sep xs)"
  using set_py_join[of sep xs] by blast

lemma value_of_names:
  "distinct names \<Longrightarrow> length vals = length names \<Longrightarrow> map (value_of names vals) names = vals"
proof (induction names vals rule: list_induct2')
  case (4 n ns v vs)
  have "map (value_of (n # ns) (v # vs)) ns = map (value_of ns vs) ns"
    using "4.prems"(1) by (auto simp: value_of_def)
  also have "\<dots> = vs" using 4 by simp
  finally have m: "map (value_of (n # ns) (v # vs)) ns = vs" .
  have h: "value_of (n # ns) (v # vs) n = v" by (simp add: value_of_def)
  show ?case by (simp only: list.map(2) m h)
qed simp_all

lemma id_chars_not_INFO: "list_all id_char x \<Longrightarrow> take 5 x \<noteq> ''INFO/''"
proof
  assume "list_all id_char x" "take 5 x = ''INFO/''"
  then have "CHR ''/'' \<in> set (take 5 x)" by simp
  then have "CHR ''/'' \<in> set x" by (rule in_set_takeD)
  with \<open>list_all id_char x\<close> have "id_char (CHR ''/'')" by (simp add: list_all_iff)
  moreover have "\<not> id_char (CHR ''/'')" by (simp add: id_char_def)
  ultimately show False by simp
qed

lemma not_id_char_notin: "\<not> id_char c \<Longrightarrow> list_all id_char x \<Longrightarrow> c \<notin> set x"
  by (auto simp: list_all_iff)

lemma fixed_names_no_slash: "y \<in> set fixed_names \<Longrightarrow> CHR ''/'' \<notin> set y"
  by (auto simp: fixed_names_def)

lemma site_tag_fixed: "length (v_fixed v) = 7 \<Longrightarrow> map (site_tag infos v) fixed_names = v_fixed v"
proof -
  assume l: "length (v_fixed v) = 7"
  have "map (site_tag infos v) fixed_names = map (value_of fixed_names (v_fixed v)) fixed_names"
    by (rule map_cong) (simp_all add: site_tag_def)
  also have "\<dots> = v_fixed v" using l by (intro value_of_names) (simp_all add: fixed_names_def)
  finally show ?thesis .
qed

lemma site_tag_info:
  assumes "tags_ok infos" "length (v_info v) = length infos"
  shows "map (site_tag infos v) infos = v_info v"
    "map (site_tag infos v) (map info_prefix infos) = v_info v"
proof -
  have t: "\<forall>x \<in> set infos. x \<notin> set fixed_names \<and> take 5 x \<noteq> ''INFO/''"
    using assms(1) id_chars_not_INFO by (auto simp: tags_ok_def)
  have d: "distinct infos" using assms(1) by (simp add: tags_ok_def)
  have "map (site_tag infos v) infos = map (value_of infos (v_info v)) infos"
    using t by (intro map_cong) (simp_all add: site_tag_def)
  also have "\<dots> = v_info v" using d assms(2) by (rule value_of_names)
  finally show "map (site_tag infos v) infos = v_info v" .
  have "''INFO/'' @ x \<notin> set fixed_names" for x
    using fixed_names_no_slash[of "''INFO/'' @ x"] by auto
  then have "map (site_tag infos v) (map info_prefix infos) = map (value_of infos (v_info v)) infos"
    by (simp add: site_tag_def info_prefix_def)
  also have "\<dots> = v_info v" using d assms(2) by (rule value_of_names)
  finally show "map (site_tag infos v) (map info_prefix infos) = v_info v" .
qed

lemma sample_tag_fmts:
  assumes "tags_ok fmts" "length (snd s) = length fmts"
  shows "map (sample_tag fmts s) fmts = snd s" "sample_tag fmts s ''SAMPLE'' = fst s"
proof -
  have "map (sample_tag fmts s) fmts = map (value_of fmts (snd s)) fmts"
    using assms(1) by (intro map_cong) (auto simp: sample_tag_def tags_ok_def)
  also have "\<dots> = snd s" using assms by (intro value_of_names) (simp_all add: tags_ok_def)
  finally show "map (sample_tag fmts s) fmts = snd s" .
qed (simp add: sample_tag_def)

lemma fixed_query_fields: "fixed_query = py_join esc_t (map (\<lambda>x. CHR ''%'' # x) fixed_names) @ esc_t"
  by (simp add: fixed_query_def fixed_names_def)

lemma bq_text_fields_end:
  "\<forall>x \<in> set xs. list_all name_char x \<Longrightarrow>
   bq_text f (py_join esc_t (map (\<lambda>x. CHR ''%'' # x) xs)) = py_join [TAB] (map f xs)"
  using bq_text_fields[of xs "[]" f] by simp

lemma esc_t_hd: "\<not> name_char (hd (esc_t @ r))" and esc_n_hd: "\<not> name_char (hd (esc_n @ r))"
  by (simp_all add: esc_t_def esc_n_def name_char_def id_char_def)

lemma tags_name_chars:
  "tags_ok xs \<Longrightarrow> \<forall>x \<in> set xs. list_all name_char x"
  "tags_ok xs \<Longrightarrow> \<forall>x \<in> set (map info_prefix xs). list_all name_char x"
proof -
  assume t: "tags_ok xs"
  then show i: "\<forall>x \<in> set xs. list_all name_char x"
    by (auto simp: tags_ok_def list_all_iff name_char_def)
  have "list_all name_char ''INFO/''" by (simp add: name_char_def id_char_def)
  with i show "\<forall>x \<in> set (map info_prefix xs). list_all name_char x"
    by (simp add: info_prefix_def)
qed

lemma tags_no_bracket:
  "tags_ok xs \<Longrightarrow> \<forall>x \<in> set xs. CHR ''['' \<notin> set x \<and> CHR '']'' \<notin> set x"
proof -
  assume "tags_ok xs"
  moreover have "\<not> id_char (CHR ''['')" "\<not> id_char (CHR '']'')" by (simp_all add: id_char_def)
  ultimately show ?thesis by (auto simp: tags_ok_def dest: not_id_char_notin)
qed

lemma fields_no_char:
  "c \<notin> set esc_t \<Longrightarrow> c \<noteq> CHR ''%'' \<Longrightarrow> \<forall>x \<in> set xs. c \<notin> set x \<Longrightarrow>
   c \<notin> set (py_join esc_t (map (\<lambda>x. CHR ''%'' # x) xs))"
  by (rule not_in_py_join) auto

lemma fixed_names_ok: "\<forall>x \<in> set fixed_names. list_all name_char x \<and> CHR ''['' \<notin> set x"
  by (simp add: fixed_names_def name_char_def id_char_def)

lemma map_prefix_fields:
  "map (\<lambda>x. ''%INFO/'' @ x) xs = map (\<lambda>x. CHR ''%'' # x) (map info_prefix xs)"
  "map (\<lambda>x. ''%'' @ x) xs = map (\<lambda>x. CHR ''%'' # x) xs"
  by (induction xs) (simp_all add: info_prefix_def)

theorem query_wide_engine:
  assumes ti: "tags_ok infos" and tf: "tags_ok fmts"
    and v: "length (v_fixed v) = 7" "length (v_info v) = length infos"
      "\<forall>s \<in> set (v_samples v). length (snd s) = length fmts"
  shows "bq_variant infos fmts (query_string wide infos fmts) v = engine_wide_text v"
proof -
  let ?I = "map info_prefix infos"
  let ?J = "\<lambda>xs. py_join esc_t (map (\<lambda>x. CHR ''%'' # x) xs)"
  let ?a = "?J fixed_names @ esc_t @ ?J ?I"
  let ?b = "esc_t @ CHR ''%'' # ''SAMPLE'' @ esc_t @ ?J fmts"
  have q: "query_string wide infos fmts = ?a @ CHR ''['' # ?b @ CHR '']'' # esc_n"
    unfolding query_string_def fixed_query_fields map_prefix_fields
    by (simp only: output_format.case append_assoc append.simps)
  have i1: "\<forall>x \<in> set ?I. CHR ''['' \<notin> set x" using tags_no_bracket[OF ti] by (auto simp: info_prefix_def)
  have nb: "CHR ''['' \<notin> set ?a" "CHR '']'' \<notin> set ?b"
    using fields_no_char[of "CHR ''[''" fixed_names] fields_no_char[of "CHR ''[''" ?I]
      fields_no_char[of "CHR '']''" fmts] fixed_names_ok i1 tags_no_bracket[OF tf]
    by (simp_all add: esc_t_def)
  have ta: "bq_text (site_tag infos v) ?a = py_join [TAB] (v_fixed v) @ TAB # py_join [TAB] (v_info v)"
  proof -
    have "bq_text (site_tag infos v) ?a =
          py_join [TAB] (map (site_tag infos v) fixed_names) @ bq_text (site_tag infos v) (esc_t @ ?J ?I)"
      using fixed_names_ok esc_t_hd by (intro bq_text_fields) simp_all
    also have "\<dots> = py_join [TAB] (v_fixed v) @ TAB # py_join [TAB] (map (site_tag infos v) ?I)"
      using site_tag_fixed[OF v(1)] bq_text_fields_end[OF tags_name_chars(2)[OF ti]] by simp
    finally show ?thesis using site_tag_info(2)[OF ti v(2)] by simp
  qed
  have tb: "bq_text (sample_tag fmts s) ?b = TAB # fst s @ TAB # py_join [TAB] (snd s)"
    if "s \<in> set (v_samples v)" for s
  proof -
    have "bq_text (sample_tag fmts s) (CHR ''%'' # ''SAMPLE'' @ esc_t @ ?J fmts) =
          sample_tag fmts s ''SAMPLE'' @ bq_text (sample_tag fmts s) (esc_t @ ?J fmts)"
      by (rule bq_text_field) (simp add: name_char_def id_char_def, simp add: esc_t_hd)
    then show ?thesis
      using bq_text_fields_end[OF tags_name_chars(1)[OF tf]] sample_tag_fmts[OF tf v(3)[rule_format, OF that]]
      by simp
  qed
  have "bq_variant infos fmts (query_string wide infos fmts) v =
        bq_text (site_tag infos v) ?a @ concat (map (\<lambda>s. bq_text (sample_tag fmts s) ?b) (v_samples v)) @ [NL]"
    unfolding bq_variant_def q bq_query_block[OF nb]
    by (simp add: bq_query_plain comp_def)
  also have "\<dots> = engine_wide_text v"
    using ta tb by (simp add: engine_wide_text_def split_def cong: map_cong)
  finally show ?thesis .
qed

theorem query_long_engine:
  assumes ti: "tags_ok infos" and tf: "tags_ok fmts"
    and v: "length (v_fixed v) = 7" "length (v_info v) = length infos"
      "\<forall>s \<in> set (v_samples v). length (snd s) = length fmts"
  shows "bq_variant infos fmts (query_string long infos fmts) v = engine_long_text v"
proof -
  let ?J = "\<lambda>xs. py_join esc_t (map (\<lambda>x. CHR ''%'' # x) xs)"
  let ?a = "?J fixed_names @ esc_t @ ?J infos @ esc_t"
  let ?b = "''-->'' @ CHR ''%'' # ''SAMPLE'' @ esc_t @ ?J fmts @ esc_n"
  have q: "query_string long infos fmts = ?a @ CHR ''['' # ?b @ CHR '']'' # []"
    unfolding query_string_def fixed_query_fields map_prefix_fields
    by (simp only: output_format.case append_assoc append.simps)
  have nb: "CHR ''['' \<notin> set ?a" "CHR '']'' \<notin> set ?b"
    using fields_no_char[of "CHR ''[''" fixed_names] fields_no_char[of "CHR ''[''" infos]
      fields_no_char[of "CHR '']''" fmts] fixed_names_ok tags_no_bracket[OF ti] tags_no_bracket[OF tf]
    by (simp_all add: esc_t_def esc_n_def)
  have ta: "bq_text (site_tag infos v) ?a = py_join [TAB] (v_fixed v) @ TAB # py_join [TAB] (v_info v) @ [TAB]"
  proof -
    have "bq_text (site_tag infos v) ?a =
          py_join [TAB] (map (site_tag infos v) fixed_names) @ bq_text (site_tag infos v) (esc_t @ ?J infos @ esc_t)"
      using fixed_names_ok esc_t_hd by (intro bq_text_fields) simp_all
    also have "\<dots> = py_join [TAB] (v_fixed v) @ TAB # py_join [TAB] (map (site_tag infos v) infos) @ [TAB]"
      using site_tag_fixed[OF v(1)] bq_text_fields[OF tags_name_chars(1)[OF ti], of esc_t] esc_t_hd[of "[]"]
      by simp
    finally show ?thesis using site_tag_info(1)[OF ti v(2)] by simp
  qed
  have tb: "bq_text (sample_tag fmts s) ?b = long_sample_text s" if "s \<in> set (v_samples v)" for s
  proof -
    have "bq_text (sample_tag fmts s) (CHR ''%'' # ''SAMPLE'' @ esc_t @ ?J fmts @ esc_n) =
          sample_tag fmts s ''SAMPLE'' @ bq_text (sample_tag fmts s) (esc_t @ ?J fmts @ esc_n)"
      by (rule bq_text_field) (simp add: name_char_def id_char_def, simp add: esc_t_hd)
    moreover have "bq_text (sample_tag fmts s) (?J fmts @ esc_n) = py_join [TAB] (map (sample_tag fmts s) fmts) @ [NL]"
      using bq_text_fields[OF tags_name_chars(1)[OF tf], of esc_n] esc_n_hd[of "[]"] by simp
    ultimately show ?thesis
      using sample_tag_fmts[OF tf v(3)[rule_format, OF that]] by (simp add: long_sample_text_def)
  qed
  have "bq_variant infos fmts (query_string long infos fmts) v =
        bq_text (site_tag infos v) ?a @ concat (map (\<lambda>s. bq_text (sample_tag fmts s) ?b) (v_samples v))"
    unfolding bq_variant_def q bq_query_block[OF nb]
    by (simp add: bq_query_plain comp_def)
  also have "\<dots> = engine_long_text v"
    using ta tb by (simp add: engine_long_text_def cong: map_cong)
  finally show ?thesis .
qed

text \<open>
  C32.  The template the code builds is the one the transformer expects: for
  tag names made of letters, digits, \<open>_\<close> and \<open>.\<close> (no fixed column name, no
  repetition) and records with one value per declared tag, the lines bcftools
  prints for the wide and for the long template are exactly the engine lines
  the pipeline theorems are stated over.
\<close>

theorem bcftools_prints_engine_lines:
  assumes "tags_ok infos" "tags_ok fmts" "list_all (variant_shape infos fmts) vs"
  shows "py_lines (concat (map (bq_variant infos fmts (query_string wide infos fmts)) vs)) = engine_wide vs
         \<and> py_lines (concat (map (bq_variant infos fmts (query_string long infos fmts)) vs)) = engine_long vs"
proof -
  have "\<forall>v \<in> set vs. bq_variant infos fmts (query_string wide infos fmts) v = engine_wide_text v
                     \<and> bq_variant infos fmts (query_string long infos fmts) v = engine_long_text v"
    using assms query_wide_engine query_long_engine by (auto simp: variant_shape_def list_all_iff)
  then show ?thesis by (simp add: engine_wide_def engine_long_def cong: map_cong)
qed

theorem bcftools_prints_engine_lines_witness:
  "py_lines (concat (map (bq_variant [''DP''] [''GT''] (query_string long [''DP''] [''GT'']))
      [\<lparr>v_fixed = [''1'', ''100'', ''rs1'', ''A'', ''T'', ''30'', ''PASS''], v_info = [''7''],
        v_samples = [(''S1'', [''0/1'']), (''S2'', [''1/1''])]\<rparr>]))
   = engine_long [\<lparr>v_fixed = [''1'', ''100'', ''rs1'', ''A'', ''T'', ''30'', ''PASS''], v_info = [''7''],
        v_samples = [(''S1'', [''0/1'']), (''S2'', [''1/1''])]\<rparr>]"
  using bcftools_prints_engine_lines[of "[''DP'']" "[''GT'']"
      "[\<lparr>v_fixed = [''1'', ''100'', ''rs1'', ''A'', ''T'', ''30'', ''PASS''], v_info = [''7''],
        v_samples = [(''S1'', [''0/1'']), (''S2'', [''1/1''])]\<rparr>]"]
  by (simp add: tags_ok_def id_char_def fixed_names_def variant_shape_def)

end
