(* ===== verification/Pipes.thy ===== *)
theory Pipes
  imports Prelude
begin

text \<open>The two pipes that \<^verbatim>\<open>Popen(cmd, stdout=PIPE, stderr=PIPE)\<close> opens between bcftools
and \<^verbatim>\<open>convert_vcf_to_tsv\<close> (\<^verbatim>\<open>src/vcf2tsv/cli.py\<close>, lines 122 and 131).  bcftools
writes its output, an interleaving of stdout and stderr bytes, in program order; a write
blocks while its pipe holds \<open>cap\<close> bytes (the pipe capacity of the operating system).  The
code reads stdout only, in the loop \<^verbatim>\<open>for n, line in enumerate(proc.stdout)\<close>, which
ends when bcftools has exited and the pipe is drained; stderr is never read.  Which process
moves next is up to the scheduler, so the system is an inductive step relation.  The theory
proves that when the error output fits in the pipe every schedule that stops has delivered
all of stdout, and that when it does not no schedule finishes and one deadlocks.\<close>

datatype chan = Stdout | Stderr

record popen_state =
  pending :: "(chan \<times> char) list"
  out_pipe :: "char list"
  err_pipe :: "char list"
  read_out :: "char list"

definition popen_init :: "(chan \<times> char) list \<Rightarrow> popen_state" where
  "popen_init prog = \<lparr>pending = prog, out_pipe = [], err_pipe = [], read_out = []\<rparr>"

inductive popen_step :: "nat \<Rightarrow> popen_state \<Rightarrow> popen_state \<Rightarrow> bool" for cap where
  write_out: "pending s = (Stdout, c) # p \<Longrightarrow> length (out_pipe s) < cap \<Longrightarrow>
    popen_step cap s (s\<lparr>pending := p, out_pipe := out_pipe s @ [c]\<rparr>)"
| write_err: "pending s = (Stderr, c) # p \<Longrightarrow> length (err_pipe s) < cap \<Longrightarrow>
    popen_step cap s (s\<lparr>pending := p, err_pipe := err_pipe s @ [c]\<rparr>)"
| read_stdout: "out_pipe s = c # q \<Longrightarrow>
    popen_step cap s (s\<lparr>out_pipe := q, read_out := read_out s @ [c]\<rparr>)"

inductive_cases popen_stepE: "popen_step cap s s'"

text \<open>The read loop has ended: bcftools has written everything and exited, and the reader
has drained stdout and seen its end.\<close>

definition finished :: "popen_state \<Rightarrow> bool" where
  "finished s \<longleftrightarrow> pending s = [] \<and> out_pipe s = []"

definition can_step :: "nat \<Rightarrow> popen_state \<Rightarrow> bool" where
  "can_step cap s \<longleftrightarrow> out_pipe s \<noteq> [] \<or>
     (case pending s of
        [] \<Rightarrow> False
      | (Stdout, _) # _ \<Rightarrow> length (out_pipe s) < cap
      | (Stderr, _) # _ \<Rightarrow> length (err_pipe s) < cap)"

definition deadlocked :: "nat \<Rightarrow> popen_state \<Rightarrow> bool" where
  "deadlocked cap s \<longleftrightarrow> \<not> finished s \<and> \<not> can_step cap s"

definition stdout_bytes :: "(chan \<times> char) list \<Rightarrow> char list" where
  "stdout_bytes p = map snd (filter (\<lambda>(ch, _). ch = Stdout) p)"

definition stderr_count :: "(chan \<times> char) list \<Rightarrow> nat" where
  "stderr_count p = length (filter (\<lambda>(ch, _). ch = Stderr) p)"

definition popen_measure :: "popen_state \<Rightarrow> nat" where
  "popen_measure s = 2 * length (pending s) + length (out_pipe s)"

definition popen_inv :: "nat \<Rightarrow> (chan \<times> char) list \<Rightarrow> popen_state \<Rightarrow> bool" where
  "popen_inv cap prog s \<longleftrightarrow>
     length (err_pipe s) \<le> cap \<and>
     length (err_pipe s) + stderr_count (pending s) = stderr_count prog \<and>
     read_out s @ out_pipe s @ stdout_bytes (pending s) = stdout_bytes prog"

lemma can_step_iff: "can_step cap s \<longleftrightarrow> (\<exists>s'. popen_step cap s s')"
proof
  assume "can_step cap s"
  then show "\<exists>s'. popen_step cap s s'"
    by (auto simp: can_step_def neq_Nil_conv intro: popen_step.intros split: list.splits chan.splits)
      (blast intro: popen_step.write_out popen_step.write_err)+
next
  assume "\<exists>s'. popen_step cap s s'"
  then show "can_step cap s"
    by (auto simp: can_step_def elim!: popen_stepE)
qed

lemma popen_step_measure: "popen_step cap s s' \<Longrightarrow> popen_measure s' < popen_measure s"
  by (erule popen_stepE) (auto simp: popen_measure_def)

lemma popen_step_inv: "popen_step cap s s' \<Longrightarrow> popen_inv cap prog s \<Longrightarrow> popen_inv cap prog s'"
  by (erule popen_stepE) (auto simp: popen_inv_def stdout_bytes_def stderr_count_def)

lemma popen_reach_inv:
  assumes "(popen_step cap)\<^sup>*\<^sup>* (popen_init prog) s"
  shows "popen_inv cap prog s"
  using assms
proof (induction rule: rtranclp_induct)
  case base
  show ?case by (simp add: popen_init_def popen_inv_def)
next
  case (step s s')
  then show ?case by (blast intro: popen_step_inv)
qed

lemma popen_reach_stuck: "\<exists>s'. (popen_step cap)\<^sup>*\<^sup>* s s' \<and> \<not> can_step cap s'"
proof (induction "popen_measure s" arbitrary: s rule: less_induct)
  case less
  show ?case
  proof (cases "can_step cap s")
    case True
    then obtain s1 where s1: "popen_step cap s s1" by (auto simp: can_step_iff)
    obtain s2 where "(popen_step cap)\<^sup>*\<^sup>* s1 s2" "\<not> can_step cap s2"
      using less popen_step_measure[OF s1] by blast
    then show ?thesis using s1 by (blast intro: converse_rtranclp_into_rtranclp)
  qed blast
qed

lemma popen_stuck_empty:
  assumes "popen_inv cap prog s" "stderr_count prog \<le> cap" "0 < cap" "\<not> can_step cap s"
  shows "finished s"
proof -
  have o: "out_pipe s = []" using assms(4) by (simp add: can_step_def)
  show ?thesis
  proof (cases "pending s")
    case (Cons x p)
    obtain ch c where x: "x = (ch, c)" by fastforce
    show ?thesis
    proof (cases ch)
      case Stdout
      then show ?thesis using assms(3,4) o Cons x by (simp add: can_step_def)
    next
      case Stderr
      then have "length (err_pipe s) < cap"
        using assms(1,2) Cons x by (simp add: popen_inv_def stderr_count_def)
      then show ?thesis using assms(4) Cons x Stderr by (simp add: can_step_def)
    qed
  qed (simp add: finished_def o)
qed

text \<open>C33: the code never reads bcftools' stderr.  When bcftools writes more bytes to stderr
than the pipe holds, the read loop never ends: no schedule finishes, and one reaches a state
where bcftools blocks on the full stderr pipe while the code blocks on the empty stdout
pipe.\<close>

theorem stderr_overflow_deadlock:
  assumes "cap < stderr_count prog"
  shows "(\<forall>s. (popen_step cap)\<^sup>*\<^sup>* (popen_init prog) s \<longrightarrow> \<not> finished s) \<and>
         (\<exists>s. (popen_step cap)\<^sup>*\<^sup>* (popen_init prog) s \<and> deadlocked cap s)"
proof -
  have nf: "\<not> finished s" if "(popen_step cap)\<^sup>*\<^sup>* (popen_init prog) s" for s
    using popen_reach_inv[OF that] assms by (auto simp: popen_inv_def finished_def stderr_count_def)
  obtain s where "(popen_step cap)\<^sup>*\<^sup>* (popen_init prog) s" "\<not> can_step cap s"
    using popen_reach_stuck by blast
  with nf show ?thesis by (auto simp: deadlocked_def)
qed

theorem stderr_overflow_deadlock_witness:
  "(1::nat) < stderr_count [(Stderr, CHR ''w''), (Stderr, CHR ''x''), (Stdout, CHR ''1'')] \<and>
   (\<exists>s. (popen_step 1)\<^sup>*\<^sup>* (popen_init [(Stderr, CHR ''w''), (Stderr, CHR ''x''), (Stdout, CHR ''1'')]) s
        \<and> deadlocked 1 s)"
  using stderr_overflow_deadlock[of 1 "[(Stderr, CHR ''w''), (Stderr, CHR ''x''), (Stdout, CHR ''1'')]"]
  by (simp add: stderr_count_def)

text \<open>C34: when bcftools' error output fits in the stderr pipe, the read loop gets all of
stdout: some schedule ends, and every schedule that cannot go on has finished with the reader
having read exactly bcftools' stdout bytes, in order.\<close>

theorem stdout_delivered:
  assumes "stderr_count prog \<le> cap" "0 < cap"
  shows "(\<exists>s. (popen_step cap)\<^sup>*\<^sup>* (popen_init prog) s \<and> \<not> can_step cap s) \<and>
         (\<forall>s. (popen_step cap)\<^sup>*\<^sup>* (popen_init prog) s \<and> \<not> can_step cap s \<longrightarrow>
              finished s \<and> read_out s = stdout_bytes prog)"
proof -
  have "finished s \<and> read_out s = stdout_bytes prog"
    if "(popen_step cap)\<^sup>*\<^sup>* (popen_init prog) s" "\<not> can_step cap s" for s
  proof -
    have i: "popen_inv cap prog s" using popen_reach_inv[OF that(1)] .
    then have "finished s" using popen_stuck_empty assms that(2) by blast
    with i show ?thesis by (simp add: popen_inv_def finished_def stdout_bytes_def)
  qed
  then show ?thesis using popen_reach_stuck by blast
qed

theorem stdout_delivered_witness:
  "stderr_count [(Stderr, CHR ''w''), (Stdout, CHR ''1''), (Stdout, CHR ''2'')] \<le> (2::nat) \<and>
   (\<exists>s. (popen_step 2)\<^sup>*\<^sup>* (popen_init [(Stderr, CHR ''w''), (Stdout, CHR ''1''), (Stdout, CHR ''2'')]) s
        \<and> finished s \<and> read_out s = ''12'')"
  using stdout_delivered[of "[(Stderr, CHR ''w''), (Stdout, CHR ''1''), (Stdout, CHR ''2'')]" 2]
  by (auto simp: stderr_count_def stdout_bytes_def)

end
