(* ===== verification/Spec2Isabelle.thy ===== *)
theory Spec2Isabelle
  imports Process HeaderLines Bcftools Pipes
begin

text \<open>
  \<^bold>\<open>A verification model of vcf2tsv\<close> (\<^verbatim>\<open>src/vcf2tsv/cli.py\<close>).

  \<^bold>\<open>The program.\<close>  \<^verbatim>\<open>convert_vcf_to_tsv\<close> checks that the input path is a file,
  opens the VCF with cyvcf2, collects the declared INFO and FORMAT field names
  from the header with the regular expressions \<open>RE_INFO\<close> and \<open>RE_FORMAT\<close>, builds
  a \<^verbatim>\<open>bcftools query\<close> format string for the wide or the long table, runs
  bcftools, and rewrites every line bcftools prints: the first line may be a
  header to render, long-format rows that start with the \<open>-->\<close> sentinel get the
  variant columns of the row before them, and with \<^verbatim>\<open>--ann\<close> the ANN column is
  fanned out into one row per annotation record.

  \<^bold>\<open>The theories.\<close>
  \<^item> \<open>Prelude\<close>: the Python built-ins the code calls (\<open>str.split\<close>, \<open>join\<close>,
    \<open>strip\<close>, \<open>replace\<close>, \<open>startswith\<close>, slices with negative bounds, indexing
    with \<open>IndexError\<close>, \<open>list.index\<close>) and their shared lemmas.
  \<^item> \<open>Regex\<close>: Python's backtracking matcher \<open>ms\<close> (the list of every way a
    pattern matches, in the engine's order, so that its head is Python's match),
    \<open>re.finditer\<close> and \<open>re.sub\<close> with an empty replacement.  \<open>Regex_Det\<close>: when
    a group can end in one place only, and \<open>finditer\<close> over whole lines.
  \<^item> \<open>Utf8\<close> (line 132): \<open>line.decode("UTF-8")\<close> as the check \<open>utf8_valid\<close> of
    well-formed UTF-8 (Unicode Table 3-7), with the lemmas that valid text
    stays valid under concatenation and splits into valid pieces at ASCII bytes.
  \<^item> \<open>Schema\<close> (lines 33--52, 97--98): \<open>RE_INFO\<close>, \<open>RE_FORMAT\<close> and the two
    field lists; the VCF header is a list of \<open>header_line\<close>s (from the spec).
  \<^item> \<open>Template\<close> (lines 28--31, 100--127): \<open>output_format\<close>, \<open>query_string\<close>,
    \<open>bcftools_cmd\<close>, \<open>ann_location\<close>.
  \<^item> \<open>Transformer\<close> (lines 54--70, 129--183): the loop state \<open>tstate\<close> (line
    counter, \<open>fill_fields\<close>, printed lines), one iteration \<open>process_line\<close> with
    its branches, the header renderers, the ANN fan-out \<open>ann_rows\<close>, the
    long-format carry-over \<open>long_parts\<close>, and the loop \<open>run\<close>, which stops at an
    exception with the lines printed so far and the error.
  \<^item> \<open>HeaderLines\<close>: the marker pattern against a direct scanner, column counts
    of rendered headers and fanned-out rows, the \<open>F_\<close> prefix.
  \<^item> \<open>Engine\<close>: bcftools, which is not part of the repository, modelled from the
    spec and the template: the lines it prints for a list of variants.
    \<open>Bcftools\<close>: bcftools' interpretation of a query format string, and the
    proof that the code's two templates make it print exactly those lines.
  \<^item> \<open>Pipes\<close> (lines 122, 131): the stdout and stderr pipes of \<open>Popen\<close> as an
    inductive step relation \<open>popen_step\<close> over \<open>popen_state\<close> (bcftools' pending
    writes, both pipe buffers, the bytes the loop has read), with the scheduler's
    choice left open; a write blocks on a full pipe, only stdout is read.
  \<^item> \<open>Pipeline\<close>: the loop run on the engine's lines.  \<open>Convert\<close> (lines
    73--132): the whole function, with the file system, the VCF reader and
    bcftools as parameters and exit status, stdout and stderr as outcome.
  \<^item> \<open>Cli\<close> (lines 186--206): \<open>main\<close>, its declared argument and options, and
    click's parsing of them (option scan, eager \<^verbatim>\<open>--help\<close>, the choice of
    format, missing and extra arguments), from click's documented behaviour.
  \<^item> \<open>Process\<close> (lines 7, 14--19, 209--210): loading the module (the import of
    \<open>SIGPIPE\<close> and the handler) and delivering the output to a reader that may
    close the pipe early.

  \<^bold>\<open>What is proved.\<close>  End to end: the field lists of a well-formed header are
  the declared ids in order (C13, C14), the wide pipeline prints the header and
  each variant's row (C2, C18), the long pipeline restores every sample row (C1),
  a missing file exits with status 1 (C17).  The loop: ANN fan-out (C5), the
  \<open>IndexError\<close> abort (C6), no error without ANN (C7), its state invariants (C8),
  \<open>ann_loc\<close> bounds (C12), the marker regex equals a scanner (C10).  Findings,
  each proved on the model: the first variant is lost in long format without
  \<^verbatim>\<open>--header\<close> (C3); short continuation rows lose columns (C4); header and
  ANN rows differ by one column (C9) and an empty ANN value gives one column
  instead of 15 (C20); without FORMAT fields every long header column gets
  \<open>F_\<close> (C11); a broken INFO line swallows the next (C15); INFO fields with
  \<open>Number=R\<close> are dropped (C16); bcftools' failure is ignored (C19); in long
  format without INFO fields first-sample rows get an extra column (C21) and a
  VCF without samples comes out as a single row (C22).  The command line: the
  settings survive parsing (C23), a lone path runs with the defaults (C24), a
  path starting with \<^verbatim>\<open>-\<close> is a usage error (C25).  Long-format rows lose
  every \<open>-->\<close>, not only the sentinel (C26); the extracted field names are
  non-empty, INFO names comma-free, FORMAT names single-line, for any header
  (C27); a line that is not UTF-8 aborts the run with \<open>UnicodeDecodeError\<close>
  (C28).  In long format with ANN as the last INFO field every expanded row
  loses its sample name (C29).  Without \<open>SIGPIPE\<close> the module import fails
  before its Windows fallback (C30); with it, an early closed pipe ends the
  program silently (C31).  The engine lines all of this is stated over are what
  bcftools prints for the code's templates (C32).  Since the code never reads
  bcftools' stderr, error output larger than the pipe means no schedule of
  bcftools and the reader finishes and one deadlocks (C33); when it fits, every
  schedule that stops has read all of stdout, in order (C34).

  \<^bold>\<open>Choices.\<close>  No fuel is needed: every loop is structural recursion over the
  input lines or a \<open>function\<close> with a length measure; the schedules of the
  two pipes are finite by the measure \<open>popen_measure\<close>.  Strings are the bytes of
  the decoded text, which gives the same splits at the ASCII delimiters the code
  uses; the decoding of each line is the check that its bytes are well-formed
  UTF-8, and the end-to-end theorems assume engine output that passes it (the
  engine model produces such output from fields that are valid UTF-8).
  The pipe capacity is a parameter \<open>cap\<close> (64 KiB on Linux), and bcftools'
  writes are its system calls, byte by byte in program order, so its own stdio
  buffering is part of that order.
  \<open>\\d\<close> is read as ASCII digits.  The FORMAT theorem assumes names, types
  and descriptions without commas, where the greedy groups of \<open>RE_FORMAT\<close> could
  otherwise backtrack to a later \<open>,Number=\<close>.

  \<^bold>\<open>Not modelled.\<close>  The typer app object and its help text (lines 21--25: no
  logic of their own), the buffering of stdout (the reader is modelled by the
  number of lines it takes), cyvcf2's
  parsing of the VCF body, bcftools' own header line format, and Python's
  traceback text (abstracted to the exception name).  \<open>Popen\<close> failing to
  start bcftools (not installed: \<open>FileNotFoundError\<close>, status 1) is not a
  branch of \<open>convert_vcf_to_tsv\<close>: its bcftools parameter is a total function
  from a command line to output and status.  The timing of output relative to
  input is not modelled: the loop is the fold \<open>run\<close> over the lines read, so
  streaming is not a property the model can distinguish from reading all input
  first.
\<close>

end
